theory Spec2Isabelle
  imports Main "HOL-Library.Sublist"
begin

section \<open>Gatsby schema composition (packages/gatsby/src/schema/schema.js)\<close>

text \<open>
  The schema builder keeps a registry of type composers (the \<open>schemaComposer\<close> of
  graphql-compose), fills it from the declared types, runs a series of passes over it and
  compiles it. This theory embeds the functions of \<open>schema.js\<close> as HOL functions over
  an explicit registry value. Every \<open>report.warn\<close> and \<open>report.error\<close> becomes an entry
  of a report list, every \<open>throw\<close> the value \<open>Inl (Thrown msg)\<close> and every
  \<open>report.panic\<close> the value \<open>Inl (Panic msg)\<close>.
\<close>

subsection \<open>Values, field configurations and type composers\<close>

datatype kind = ObjectKind | InterfaceKind | UnionKind | InputKind | EnumKind | ScalarKind

text \<open>
  A thrown JavaScript error can be caught by \<open>try/catch\<close>; \<open>report.panic\<close> ends the
  process and cannot.
\<close>

datatype error = Thrown string | Panic string

datatype report = Warn string | Err string

datatype plugin = Plugin (pluginName: string)

text \<open>
  Resolvers are functions in the source. The embedding names them: \<open>Fn f\<close> is a
  function supplied from outside, \<open>WithOriginal f orig\<close> is the closure built by
  \<open>createResolvers\<close> around the new resolver \<open>f\<close> and the captured \<open>originalResolver\<close>,
  \<open>ChildrenResolver t\<close> and \<open>ChildResolver t\<close> are the resolvers written out in
  \<open>createChildrenField\<close> and \<open>createChildField\<close>.
\<close>

datatype resolver =
    Fn string
  | WithOriginal resolver "resolver option"
  | ChildrenResolver string
  | ChildResolver string

text \<open>
  Extension values are JavaScript values. \<open>JDirectives\<close> is the array of
  \<open>{name, args}\<close> objects that graphql-compose stores under the extension key
  \<open>directives\<close>; \<open>JConfig\<close> is a field configuration stored as a value (the
  \<open>originalFieldConfig\<close> extension). A field configuration is an object whose keys
  \<open>type\<close>, \<open>args\<close>, \<open>resolve\<close> and \<open>extensions\<close> may each be absent (\<open>None\<close>);
  a type is kept as its printed form (\<open>type.toString()\<close>), for instance \<open>[Foo!]!\<close>.
\<close>

datatype jsval =
    JNull
  | JBool bool
  | JStr string
  | JArr "jsval list"
  | JObj "(string \<times> jsval) list"
  | JDirectives "(string \<times> (string \<times> jsval) list) list"
  | JConfig fieldConfig
and fieldConfig =
  FieldConfig (ftype: "string option") (fargs: "(string \<times> string) list option")
              (fresolve: "resolver option") (fext: "(string \<times> jsval) list option")

record typeComposer =
  tname :: string
  tkind :: kind
  tfields :: "(string \<times> fieldConfig) list"
  tinterfaces :: "string list"
  textensions :: "(string \<times> jsval) list"
  tresolveType :: bool

text \<open>
  The registry: the composers, each found under its own name (\<open>schemaComposer.has\<close>,
  \<open>get\<close>, \<open>set\<close>), in the order in which \<open>schemaComposer.forEach\<close> visits them; the
  names passed to \<open>addSchemaMustHaveType\<close>; and what has been reported so far.
\<close>

record schemaComposer =
  types :: "typeComposer list"
  mustHave :: "string list"
  reports :: "report list"

text \<open>
  A field as it is handed to a composer: a configuration object, or in shorthand the name
  of its type. The configuration of a type-builder descriptor: name, fields, the
  interfaces (each a name or a type object, here the name of that type; the key may be
  absent), extensions, and whether a \<open>resolveType\<close> is given.
\<close>

datatype fieldDef = FieldObject fieldConfig | TypeString string

datatype interfaceRef = InterfaceName string | InterfaceType string

record builderConfig =
  cname :: string
  cfields :: "(string \<times> fieldDef) list"
  cinterfaces :: "interfaceRef list option"
  cextensions :: "(string \<times> jsval) list"
  cresolveType :: bool

subsection \<open>JavaScript objects as association lists\<close>

text \<open>
  Assigning to a key of an object keeps the key's position when it is there already and
  appends it otherwise; \<open>{...a, ...b}\<close> assigns the entries of \<open>b\<close> in order.
\<close>

fun aset :: "'k \<Rightarrow> 'v \<Rightarrow> ('k \<times> 'v) list \<Rightarrow> ('k \<times> 'v) list" where
  "aset k v [] = [(k, v)]"
| "aset k v (p # ps) = (if fst p = k then (k, v) # ps else p # aset k v ps)"

definition adel :: "'k \<Rightarrow> ('k \<times> 'v) list \<Rightarrow> ('k \<times> 'v) list" where
  "adel k ps = filter (\<lambda>p. fst p \<noteq> k) ps"

definition aspread :: "('k \<times> 'v) list \<Rightarrow> ('k \<times> 'v) list \<Rightarrow> ('k \<times> 'v) list" where
  "aspread base over = foldl (\<lambda>acc p. aset (fst p) (snd p) acc) base over"

definition orElse :: "'a option \<Rightarrow> 'a option \<Rightarrow> 'a option" where
  "orElse a b = (case a of None \<Rightarrow> b | Some x \<Rightarrow> Some x)"

fun joinWith :: "string \<Rightarrow> string list \<Rightarrow> string" where
  "joinWith sep [] = []"
| "joinWith sep [x] = x"
| "joinWith sep (x # y # ys) = x @ sep @ joinWith sep (y # ys)"

text \<open>Truthiness and string conversion (as in a template literal) of a value.\<close>

fun truthy :: "jsval \<Rightarrow> bool" where
  "truthy JNull = False"
| "truthy (JBool b) = b"
| "truthy (JStr s) = (s \<noteq> [])"
| "truthy (JArr xs) = True"
| "truthy (JObj kvs) = True"
| "truthy (JDirectives ds) = True"
| "truthy (JConfig c) = True"

fun toStringJS :: "jsval \<Rightarrow> string" where
  "toStringJS JNull = ''null''"
| "toStringJS (JBool b) = (if b then ''true'' else ''false'')"
| "toStringJS (JStr s) = s"
| "toStringJS (JArr xs) = joinWith '','' (map (\<lambda>x. if x = JNull then [] else toStringJS x) xs)"
| "toStringJS (JObj kvs) = ''[object Object]''"
| "toStringJS (JDirectives ds) = joinWith '','' (map (\<lambda>d. ''[object Object]'') ds)"
| "toStringJS (JConfig c) = ''[object Object]''"

subsection \<open>The operations of graphql-compose that the source calls\<close>

text \<open>
  \<open>setField\<close> stores a configuration under a name; \<open>extendField\<close> stores
  \<open>{...prev, ...partial, extensions: {...prev.extensions, ...partial.extensions}}\<close>, so
  a key of \<open>partial\<close> replaces the key of \<open>prev\<close> as a whole, a key absent from
  \<open>partial\<close> stays, and the extensions of both sides are put together, those of
  \<open>partial\<close> last (\<open>extendConfig\<close>). \<open>extendField\<close> and the field-extension setters
  throw on a field that does not exist; the source calls them only after \<open>hasField\<close> or
  on a name taken from \<open>getFieldNames\<close>, which is why the callers below look the field up
  first.
\<close>

definition hasField :: "typeComposer \<Rightarrow> string \<Rightarrow> bool" where
  "hasField tc fieldName = (map_of (tfields tc) fieldName \<noteq> None)"

definition setField :: "typeComposer \<Rightarrow> string \<Rightarrow> fieldConfig \<Rightarrow> typeComposer" where
  "setField tc fieldName fieldConfig = tc\<lparr>tfields := aset fieldName fieldConfig (tfields tc)\<rparr>"

definition removeField :: "typeComposer \<Rightarrow> string \<Rightarrow> typeComposer" where
  "removeField tc fieldName = tc\<lparr>tfields := adel fieldName (tfields tc)\<rparr>"

definition getFieldExtensions :: "fieldConfig \<Rightarrow> (string \<times> jsval) list" where
  "getFieldExtensions c = (case fext c of None \<Rightarrow> [] | Some e \<Rightarrow> e)"

definition extendConfig :: "fieldConfig \<Rightarrow> fieldConfig \<Rightarrow> fieldConfig" where
  "extendConfig prev partial =
     FieldConfig (orElse (ftype partial) (ftype prev)) (orElse (fargs partial) (fargs prev))
                 (orElse (fresolve partial) (fresolve prev))
                 (Some (aspread (getFieldExtensions prev) (getFieldExtensions partial)))"

definition setFieldExtensions :: "fieldConfig \<Rightarrow> (string \<times> jsval) list \<Rightarrow> fieldConfig" where
  "setFieldExtensions c e = FieldConfig (ftype c) (fargs c) (fresolve c) (Some e)"

definition setFieldExtension :: "fieldConfig \<Rightarrow> string \<Rightarrow> jsval \<Rightarrow> fieldConfig" where
  "setFieldExtension c k v = setFieldExtensions c (aset k v (getFieldExtensions c))"

definition getExtension :: "typeComposer \<Rightarrow> string \<Rightarrow> jsval option" where
  "getExtension tc k = map_of (textensions tc) k"

definition hasExtension :: "typeComposer \<Rightarrow> string \<Rightarrow> bool" where
  "hasExtension tc k = (map_of (textensions tc) k \<noteq> None)"

definition setExtension :: "typeComposer \<Rightarrow> string \<Rightarrow> jsval \<Rightarrow> typeComposer" where
  "setExtension tc k v = tc\<lparr>textensions := aset k v (textensions tc)\<rparr>"

definition extendExtensions :: "typeComposer \<Rightarrow> (string \<times> jsval) list \<Rightarrow> typeComposer" where
  "extendExtensions tc e = tc\<lparr>textensions := aspread (textensions tc) e\<rparr>"

definition hasInterface :: "typeComposer \<Rightarrow> string \<Rightarrow> bool" where
  "hasInterface tc iface = (iface \<in> set (tinterfaces tc))"

definition addInterface :: "typeComposer \<Rightarrow> string \<Rightarrow> typeComposer" where
  "addInterface tc iface =
     (if hasInterface tc iface then tc else tc\<lparr>tinterfaces := tinterfaces tc @ [iface]\<rparr>)"

definition getDirectives :: "(string \<times> jsval) list \<Rightarrow> (string \<times> (string \<times> jsval) list) list" where
  "getDirectives e = (case map_of e ''directives'' of Some (JDirectives ds) \<Rightarrow> ds | _ \<Rightarrow> [])"

subsection \<open>checkIsAllowedTypeName\<close>

definition nameStartChars :: string where
  "nameStartChars = ''_abcdefghijklmnopqrstuvwxyzABCDEFGHIJKLMNOPQRSTUVWXYZ''"

definition nameChars :: string where
  "nameChars = nameStartChars @ ''0123456789''"

text \<open>\<open>NAME_RX = /^[_a-zA-Z][_a-zA-Z0-9]*$/\<close> of graphql-js.\<close>

definition matchesNameRx :: "string \<Rightarrow> bool" where
  "matchesNameRx name =
     (case name of [] \<Rightarrow> False
      | c # cs \<Rightarrow> c \<in> set nameStartChars \<and> list_all (\<lambda>d. d \<in> set nameChars) cs)"

text \<open>
  \<open>assertValidName\<close> of graphql-js: a name beginning with two underscores is reserved
  for introspection, any other name has to match \<open>NAME_RX\<close>.
\<close>

definition assertValidName :: "string \<Rightarrow> error + unit" where
  "assertValidName name =
     (if length name > 1 \<and> take 2 name = ''__'' then
        Inl (Thrown (''Name '' @ [CHR 0x22] @ name @ [CHR 0x22] @
          '' must not begin with '' @ [CHR 0x22] @ ''__'' @ [CHR 0x22] @
          '', which is reserved by GraphQL introspection.''))
      else if \<not> matchesNameRx name then
        Inl (Thrown (''Names must match /^[_a-zA-Z][_a-zA-Z0-9]*$/ but '' @
          [CHR 0x22] @ name @ [CHR 0x22] @ '' does not.''))
      else Inr ())"

definition builtInScalarNames :: "string list" where
  "builtInScalarNames = [''Boolean'', ''Date'', ''Float'', ''ID'', ''Int'', ''JSON'', ''String'']"

definition checkIsAllowedTypeName :: "string \<Rightarrow> error + unit" where
  "checkIsAllowedTypeName name =
     (if \<not> (name \<noteq> ''Node'') then
        Inl (Thrown ''The GraphQL type `Node` is reserved for internal use.'')
      else if \<not> (\<not> suffix ''FilterInput'' name \<and> \<not> suffix ''SortInput'' name) then
        Inl (Thrown (''GraphQL type names ending with '' @ [CHR 0x22] @ ''FilterInput'' @
          [CHR 0x22] @ '' or '' @ [CHR 0x22] @ ''SortInput'' @ [CHR 0x22] @ '' are '' @
          ''reserved for internal use. Please rename `'' @ name @ ''`.''))
      else if \<not> (name \<notin> set builtInScalarNames) then
        Inl (Thrown (''The GraphQL type `'' @ name @ ''` is reserved for internal use by '' @
          ''built-in scalar types.''))
      else assertValidName name)"

subsection \<open>What is outside \<open>schema.js\<close>\<close>

text \<open>
  \<open>validateFieldExtensions\<close> stands for the loop over the field extensions that are not
  internal (the argument check against the registered directive, which back-fills default
  values into the arguments and calls \<open>report.error\<close>): it is given the type name, the
  field name and the field's extensions and returns the extensions and the errors
  reported. It throws nothing (every error in it is caught and reported). It is a
  parameter: \<open>internalExtensionNames\<close>, the directive catalogue and the scalar parsers
  are not part of \<open>schema.js\<close>.
  \<open>stringify\<close> is \<open>JSON.stringify\<close> on a builder configuration.
\<close>

record env =
  validateFieldExtensions ::
    "string \<Rightarrow> string \<Rightarrow> (string \<times> jsval) list \<Rightarrow> (string \<times> jsval) list \<times> report list"
  stringify :: "builderConfig \<Rightarrow> string"

text \<open>
  Modelled from the spec: \<open>reportParsingError\<close> of \<open>./types/type-defs\<close>, which is not
  among the sources. It is given the error that \<open>addTypes\<close> caught while the definitions
  of a parsed document were processed, and the result here is what it throws in turn
  (\<open>None\<close> would be a normal return). Such an error is not a syntax error of the text,
  which is met earlier, in \<open>parseTypeDef\<close>; the specification makes a reserved or invalid
  type name fatal for every source, aborting the build (sections 4.7, 7 and 8), so the
  error is thrown on.
\<close>

definition reportParsingError :: "string \<Rightarrow> error option" where
  "reportParsingError message = Some (Thrown message)"

subsection \<open>addExtensions\<close>

definition pluginValue :: "plugin option \<Rightarrow> jsval" where
  "pluginValue plugin = (case plugin of None \<Rightarrow> JNull | Some p \<Rightarrow> JStr (pluginName p))"

definition nodeInterfaceIdOk :: "typeComposer \<Rightarrow> bool" where
  "nodeInterfaceIdOk tc =
     (\<not> (\<not> hasField tc ''id'' \<or>
         (case map_of (tfields tc) ''id'' of None \<Rightarrow> True | Some c \<Rightarrow> ftype c \<noteq> Some ''ID!'')))"

definition nodeInterfacePanic :: "string \<Rightarrow> string" where
  "nodeInterfacePanic name =
     concat [''Interfaces with the `nodeInterface` extension must have a field '',
             ''`id` of type `ID!`. Check the type definition of '',
             ''`'', name, ''`.'']"

text \<open>One round of the \<open>switch (name)\<close> over a directive of the type.\<close>

definition directiveStep ::
  "typeComposer \<Rightarrow> string \<times> (string \<times> jsval) list \<Rightarrow> error + typeComposer" where
  "directiveStep tc d =
     (let name = fst d; args = snd d in
      if name = ''infer'' \<or> name = ''dontInfer'' then
        (let tc1 = setExtension tc ''infer'' (JBool (name = ''infer'')) in
         Inr (case map_of args ''noDefaultResolvers'' of
                None \<Rightarrow> tc1
              | Some JNull \<Rightarrow> tc1
              | Some v \<Rightarrow> setExtension tc1 ''addDefaultResolvers'' (JBool (\<not> truthy v))))
      else if name = ''mimeTypes'' then Inr (setExtension tc ''mimeTypes'' (JObj args))
      else if name = ''childOf'' then Inr (setExtension tc ''childOf'' (JObj args))
      else if name = ''nodeInterface'' then
        (if tkind tc = InterfaceKind then
           (if \<not> nodeInterfaceIdOk tc then Inl (Panic (nodeInterfacePanic (tname tc)))
            else Inr (setExtension tc ''nodeInterface'' (JBool True)))
         else Inr tc)
      else Inr tc)"

fun processDirectives ::
  "typeComposer \<Rightarrow> (string \<times> (string \<times> jsval) list) list \<Rightarrow> error + typeComposer" where
  "processDirectives tc [] = Inr tc"
| "processDirectives tc (d # ds) =
     (case directiveStep tc d of Inl e \<Rightarrow> Inl e | Inr tc' \<Rightarrow> processDirectives tc' ds)"

text \<open>One round of the loop over \<open>getFieldNames()\<close>.\<close>

definition addFieldExtensions ::
  "env \<Rightarrow> plugin option \<Rightarrow> string \<Rightarrow> string \<Rightarrow> string \<times> fieldConfig \<Rightarrow>
   (string \<times> fieldConfig) \<times> report list" where
  "addFieldExtensions env plugin createdFrom typeName fld =
     (let fieldName = fst fld;
          c1 = setFieldExtension (snd fld) ''createdFrom'' (JStr createdFrom);
          c2 = setFieldExtension c1 ''plugin'' (pluginValue plugin);
          c3 = (if createdFrom = ''sdl''
                then foldl (\<lambda>c d. setFieldExtension c (fst d) (JObj (snd d))) c2
                       (getDirectives (getFieldExtensions c2))
                else c2);
          r = validateFieldExtensions env typeName fieldName (getFieldExtensions c3)
      in ((fieldName, setFieldExtensions c3 (fst r)), snd r))"

definition deprecationWarning :: string where
  "deprecationWarning =
     ''Deprecation warning - '' @ [CHR 0x22] @ ''noDefaultResolvers'' @ [CHR 0x22] @
     '' is deprecated. In Gatsby 3, defined fields won'' @ [CHR 0x27] @ ''t get resolvers, '' @
     ''unless explicitly added with a directive/extension.''"

text \<open>
  \<open>addExtensions\<close> in its two halves: the stamps and the directives of the type, which
  can panic, and then the loop over the fields with the closing deprecation warning.
\<close>

definition addTypeExtensions :: "plugin option \<Rightarrow> string \<Rightarrow> typeComposer \<Rightarrow> error + typeComposer" where
  "addTypeExtensions plugin createdFrom typeComposer =
     (let tc1 = setExtension typeComposer ''createdFrom'' (JStr createdFrom);
          tc2 = setExtension tc1 ''plugin'' (pluginValue plugin) in
      if createdFrom = ''sdl''
      then processDirectives tc2 (getDirectives (textensions tc2)) else Inr tc2)"

definition addFieldsExtensions ::
  "env \<Rightarrow> plugin option \<Rightarrow> string \<Rightarrow> typeComposer \<Rightarrow> typeComposer \<times> report list" where
  "addFieldsExtensions env plugin createdFrom tc3 =
     (let rs = (if tkind tc3 = ObjectKind \<or> tkind tc3 = InterfaceKind \<or> tkind tc3 = InputKind
                then map (addFieldExtensions env plugin createdFrom (tname tc3)) (tfields tc3)
                else map (\<lambda>fld. (fld, [])) (tfields tc3));
          tc4 = tc3\<lparr>tfields := map fst rs\<rparr>;
          errs = concat (map snd rs)
      in (tc4, errs @ (if hasExtension tc4 ''addDefaultResolvers''
                       then [Warn deprecationWarning] else [])))"

definition addExtensions ::
  "env \<Rightarrow> plugin option \<Rightarrow> string \<Rightarrow> typeComposer \<Rightarrow> error + (typeComposer \<times> report list)" where
  "addExtensions env plugin createdFrom typeComposer =
     (case addTypeExtensions plugin createdFrom typeComposer of
        Inl e \<Rightarrow> Inl e
      | Inr tc3 \<Rightarrow> Inr (addFieldsExtensions env plugin createdFrom tc3))"

subsection \<open>mergeFields and mergeTypes\<close>

text \<open>
  An incoming type is a composer that \<open>makeSchemaDef\<close> built from a definition of a
  document (its fields are configuration objects), the temporary composer of a type
  builder (\<open>createTemp\<close> on the configuration of the descriptor, of the kind it names), or
  a type object of graphql-js. \<open>incomingDef\<close> is the composer that the registry holds once
  such a type is added: a field given in shorthand is then a field of that type, and the
  interfaces of a builder configuration are those it names.
\<close>

datatype incomingType =
    Composer typeComposer
  | TempComposer kind builderConfig
  | GraphQLType typeComposer

definition toFieldConfig :: "fieldDef \<Rightarrow> fieldConfig" where
  "toFieldConfig d = (case d of FieldObject c \<Rightarrow> c | TypeString t \<Rightarrow> FieldConfig (Some t) None None None)"

definition interfaceRefName :: "interfaceRef \<Rightarrow> string" where
  "interfaceRefName r = (case r of InterfaceName n \<Rightarrow> n | InterfaceType n \<Rightarrow> n)"

definition incomingDef :: "incomingType \<Rightarrow> typeComposer" where
  "incomingDef t =
     (case t of
        Composer c \<Rightarrow> c
      | GraphQLType c \<Rightarrow> c
      | TempComposer k config \<Rightarrow>
          \<lparr>tname = cname config, tkind = k,
           tfields = aspread [] (map (\<lambda>fld. (fst fld, toFieldConfig (snd fld))) (cfields config)),
           tinterfaces = (if k = ObjectKind
                          then (case cinterfaces config of
                                  None \<Rightarrow> []
                                | Some refs \<Rightarrow> map interfaceRefName refs)
                          else []),
           textensions = cextensions config,
           tresolveType = cresolveType config\<rparr>)"

definition incomingKind :: "incomingType \<Rightarrow> kind" where
  "incomingKind t = (case t of Composer c \<Rightarrow> tkind c | GraphQLType c \<Rightarrow> tkind c | TempComposer k config \<Rightarrow> k)"

text \<open>\<open>type.getFields()\<close> of an incoming composer: the fields as they were given to it.\<close>

definition incomingFields :: "incomingType \<Rightarrow> (string \<times> fieldDef) list" where
  "incomingFields t =
     (case t of
        Composer c \<Rightarrow> map (\<lambda>fld. (fst fld, FieldObject (snd fld))) (tfields c)
      | GraphQLType c \<Rightarrow> map (\<lambda>fld. (fst fld, FieldObject (snd fld))) (tfields c)
      | TempComposer k config \<Rightarrow> cfields config)"

text \<open>
  \<open>typeComposer.extendField(fieldName, fieldConfig)\<close> with what \<open>getFields\<close> gave: the
  spread of a configuration object brings its keys, the spread of a string brings its
  characters under their indices and none of the keys of a configuration.
\<close>

definition extendField :: "fieldConfig \<Rightarrow> fieldDef \<Rightarrow> fieldConfig" where
  "extendField prev partial =
     extendConfig prev
       (case partial of FieldObject c \<Rightarrow> c | TypeString t \<Rightarrow> FieldConfig None None None None)"

definition mergeField :: "typeComposer \<Rightarrow> string \<times> fieldDef \<Rightarrow> typeComposer" where
  "mergeField typeComposer fld =
     (case map_of (tfields typeComposer) (fst fld) of
        Some prev \<Rightarrow> setField typeComposer (fst fld) (extendField prev (snd fld))
      | None \<Rightarrow> setField typeComposer (fst fld) (toFieldConfig (snd fld)))"

text \<open>
  The record that is merged into can be a composer of any kind (\<open>parseTypes\<close> says so
  in a comment and relies on the merge to throw). Of the composer classes of
  graphql-compose, those for object, interface, input and enum types have \<open>hasField\<close>,
  \<open>extendField\<close> and \<open>setField\<close>, and the one for object types alone has
  \<open>addInterface\<close>; calling a method that is not there is a \<open>TypeError\<close>. A loop over
  no fields, or no interfaces, calls nothing.
\<close>

definition hasFieldMethods :: "kind \<Rightarrow> bool" where
  "hasFieldMethods k = (k = ObjectKind \<or> k = InterfaceKind \<or> k = InputKind \<or> k = EnumKind)"

definition mergeFields :: "typeComposer \<Rightarrow> (string \<times> fieldDef) list \<Rightarrow> error + typeComposer" where
  "mergeFields typeComposer flds =
     (if flds \<noteq> [] \<and> \<not> hasFieldMethods (tkind typeComposer)
      then Inl (Thrown ''TypeError: typeComposer.hasField is not a function'')
      else Inr (foldl mergeField typeComposer flds))"

definition addInterfaces :: "typeComposer \<Rightarrow> string list \<Rightarrow> error + typeComposer" where
  "addInterfaces typeComposer ifaces =
     (if ifaces \<noteq> [] \<and> tkind typeComposer \<noteq> ObjectKind
      then Inl (Thrown ''TypeError: typeComposer.addInterface is not a function'')
      else Inr (foldl addInterface typeComposer ifaces))"

definition getTC :: "schemaComposer \<Rightarrow> string \<Rightarrow> typeComposer option" where
  "getTC sc name = find (\<lambda>tc. tname tc = name) (types sc)"

text \<open>
  \<open>type.getInterfaces()\<close>. For the temporary composer of a type builder this calls the
  function that \<open>createTypeComposerFromGatsbyType\<close> put under \<open>interfaces\<close>: an interface
  given by name is looked up with \<open>schemaComposer.getIFTC\<close>, which throws when the
  registry has no interface composer of that name.
\<close>

definition getIFTC :: "schemaComposer \<Rightarrow> string \<Rightarrow> error + typeComposer" where
  "getIFTC sc name =
     (case getTC sc name of
        Some tc \<Rightarrow>
          (if tkind tc = InterfaceKind then Inr tc
           else Inl (Thrown (''Cannot find InterfaceTypeComposer with name '' @ name)))
      | None \<Rightarrow> Inl (Thrown (''Cannot find InterfaceTypeComposer with name '' @ name)))"

fun resolveInterfaces :: "schemaComposer \<Rightarrow> interfaceRef list \<Rightarrow> error + string list" where
  "resolveInterfaces sc [] = Inr []"
| "resolveInterfaces sc (iface # ifaces) =
     (case (case iface of
              InterfaceName n \<Rightarrow> (case getIFTC sc n of Inl e \<Rightarrow> Inl e | Inr tc \<Rightarrow> Inr (tname tc))
            | InterfaceType n \<Rightarrow> Inr n) of
        Inl e \<Rightarrow> Inl e
      | Inr n \<Rightarrow> (case resolveInterfaces sc ifaces of Inl e \<Rightarrow> Inl e | Inr ns \<Rightarrow> Inr (n # ns)))"

definition incomingInterfaces :: "schemaComposer \<Rightarrow> incomingType \<Rightarrow> error + string list" where
  "incomingInterfaces sc t =
     (case t of
        Composer c \<Rightarrow> Inr (tinterfaces c)
      | GraphQLType c \<Rightarrow> Inr (tinterfaces c)
      | TempComposer k config \<Rightarrow>
          (case cinterfaces config of None \<Rightarrow> Inr [] | Some refs \<Rightarrow> resolveInterfaces sc refs))"

text \<open>
  \<open>defineFieldMapToConfig\<close> is taken from the exports of graphql-compose, which has no
  export of that name: the name is \<open>undefined\<close> and the call, made for a type object of
  graphql-js of object or interface kind, is a \<open>TypeError\<close>.
\<close>

definition defineFieldMapToConfig ::
  "(string \<times> fieldConfig) list \<Rightarrow> error + (string \<times> fieldDef) list" where
  "defineFieldMapToConfig flds = Inl (Thrown ''TypeError: defineFieldMapToConfig is not a function'')"

definition isSafeMerge :: "plugin option \<Rightarrow> jsval option \<Rightarrow> bool" where
  "isSafeMerge plugin typeOwner =
     (case plugin of
        None \<Rightarrow> True
      | Some p \<Rightarrow> pluginName p = ''default-site-plugin'' \<or> typeOwner = Some (JStr (pluginName p)))"

text \<open>
  The two warnings of \<open>mergeTypes\<close>; a template literal is the concatenation of its
  pieces. \<open>typeOwner\<close> is \<open>None\<close> when the extension is not there (\<open>undefined\<close>).
\<close>

definition ownedTypeWarning :: "string \<Rightarrow> string \<Rightarrow> jsval \<Rightarrow> string" where
  "ownedTypeWarning pluginNm typeNm owner =
     concat [''Plugin `'', pluginNm, ''` has customized the GraphQL type '',
             ''`'', typeNm, ''`, which has already been defined '',
             ''by the plugin `'', toStringJS owner, ''`. '',
             ''This could potentially cause conflicts.'']"

definition builtInTypeWarning :: "string \<Rightarrow> string \<Rightarrow> string" where
  "builtInTypeWarning pluginNm typeNm =
     concat [''Plugin `'', pluginNm, ''` has customized the built-in Gatsby GraphQL type '',
             ''`'', typeNm, ''`. '',
             ''This is allowed, but could potentially cause conflicts.'']"

definition unsafeMergeWarning :: "string \<Rightarrow> string \<Rightarrow> jsval option \<Rightarrow> string" where
  "unsafeMergeWarning pluginNm typeNm typeOwner =
     (case typeOwner of
        Some owner \<Rightarrow>
          (if truthy owner then ownedTypeWarning pluginNm typeNm owner
           else builtInTypeWarning pluginNm typeNm)
      | None \<Rightarrow> builtInTypeWarning pluginNm typeNm)"

definition mergeWarnings :: "typeComposer \<Rightarrow> plugin option \<Rightarrow> report list" where
  "mergeWarnings typeComposer plugin =
     (let typeOwner = getExtension typeComposer ''plugin'' in
      if \<not> isSafeMerge plugin typeOwner then
        (case plugin of
           Some p \<Rightarrow> [Warn (unsafeMergeWarning (pluginName p) (tname typeComposer) typeOwner)]
         | None \<Rightarrow> [])
      else [])"

text \<open>
  The chain of \<open>instanceof\<close> tests of \<open>mergeTypes\<close>: the fields of the incoming type are
  merged, and then, for an object type, its interfaces are read and added.
\<close>

definition mergeInto :: "schemaComposer \<Rightarrow> typeComposer \<Rightarrow> incomingType \<Rightarrow> error + typeComposer" where
  "mergeInto sc typeComposer type =
     (case type of
        GraphQLType t \<Rightarrow>
          (if tkind t = ObjectKind then
             (case defineFieldMapToConfig (tfields t) of
                Inl e \<Rightarrow> Inl e
              | Inr flds \<Rightarrow>
                  (case mergeFields typeComposer flds of
                     Inl e \<Rightarrow> Inl e
                   | Inr tc1 \<Rightarrow> addInterfaces tc1 (tinterfaces t)))
           else if tkind t = InterfaceKind then
             (case defineFieldMapToConfig (tfields t) of
                Inl e \<Rightarrow> Inl e
              | Inr flds \<Rightarrow> mergeFields typeComposer flds)
           else Inr typeComposer)
      | _ \<Rightarrow>
          (if incomingKind type = ObjectKind then
             (case mergeFields typeComposer (incomingFields type) of
                Inl e \<Rightarrow> Inl e
              | Inr tc1 \<Rightarrow>
                  (case incomingInterfaces sc type of
                     Inl e \<Rightarrow> Inl e
                   | Inr ifaces \<Rightarrow> addInterfaces tc1 ifaces))
           else if incomingKind type = InterfaceKind then
             mergeFields typeComposer (incomingFields type)
           else Inr typeComposer))"

text \<open>The \<open>isNamedTypeComposer\<close> branch: only a composer hands its extensions over.\<close>

definition mergeExtensions :: "typeComposer \<Rightarrow> incomingType \<Rightarrow> typeComposer" where
  "mergeExtensions typeComposer type =
     (case type of
        Composer t \<Rightarrow> extendExtensions typeComposer (textensions t)
      | TempComposer k config \<Rightarrow> extendExtensions typeComposer (cextensions config)
      | GraphQLType t \<Rightarrow> typeComposer)"

text \<open>
  \<open>mergeTypes\<close>, with the registry in which the interfaces of a type builder are looked
  up. The warning of an unsafe merge is reported before anything is merged.
\<close>

definition mergeTypes ::
  "env \<Rightarrow> schemaComposer \<Rightarrow> typeComposer \<Rightarrow> incomingType \<Rightarrow> plugin option \<Rightarrow> string \<Rightarrow>
   error + (typeComposer \<times> report list)" where
  "mergeTypes env sc typeComposer type plugin createdFrom =
     (case mergeInto sc typeComposer type of
        Inl e \<Rightarrow> Inl e
      | Inr merged \<Rightarrow>
          (case addExtensions env plugin createdFrom (mergeExtensions merged type) of
             Inl e \<Rightarrow> Inl e
           | Inr r \<Rightarrow> Inr (fst r, mergeWarnings typeComposer plugin @ snd r)))"

subsection \<open>Type intake: processAddedType, parseTypes, addTypes\<close>

definition has :: "schemaComposer \<Rightarrow> string \<Rightarrow> bool" where
  "has sc name = (getTC sc name \<noteq> None)"

fun putTC :: "typeComposer \<Rightarrow> typeComposer list \<Rightarrow> typeComposer list" where
  "putTC tc [] = [tc]"
| "putTC tc (x # xs) = (if tname x = tname tc then tc # xs else x # putTC tc xs)"

definition setType :: "schemaComposer \<Rightarrow> typeComposer \<Rightarrow> schemaComposer" where
  "setType sc tc = sc\<lparr>types := putTC tc (types sc)\<rparr>"

definition addReports :: "schemaComposer \<Rightarrow> report list \<Rightarrow> schemaComposer" where
  "addReports sc rs = sc\<lparr>reports := reports sc @ rs\<rparr>"

definition addSchemaMustHaveType :: "schemaComposer \<Rightarrow> string \<Rightarrow> schemaComposer" where
  "addSchemaMustHaveType sc name = sc\<lparr>mustHave := mustHave sc @ [name]\<rparr>"

text \<open>
  \<open>addAsComposer\<close> registers the type under its name (wrapping a graphql-js type in a
  composer); the composer is then changed in place, so the registry ends with the
  composer that \<open>addExtensions\<close> returns.
\<close>

definition processAddedType ::
  "env \<Rightarrow> schemaComposer \<Rightarrow> incomingType \<Rightarrow> string \<Rightarrow> plugin option \<Rightarrow>
   error + schemaComposer" where
  "processAddedType env sc type createdFrom plugin =
     (let tc0 = incomingDef type;
          tc1 = (if tkind tc0 = InterfaceKind \<or> tkind tc0 = UnionKind
                 then (if \<not> tresolveType tc0 then tc0\<lparr>tresolveType := True\<rparr> else tc0)
                 else tc0) in
      case addExtensions env plugin createdFrom tc1 of
        Inl e \<Rightarrow> Inl e
      | Inr r \<Rightarrow>
          Inr (addReports (addSchemaMustHaveType (setType sc (fst r)) (tname tc0)) (snd r)))"

text \<open>
  A parsed document is the list of its definitions, each given as the composer that
  \<open>typeMapper.makeSchemaDef\<close> builds for it. \<open>makeSchemaDef\<close> registers that composer
  under the type name (see the comment in the source); after a merge the original
  composer is registered again. An error leaves the registry as it is at that moment.
\<close>

fun parseTypes ::
  "env \<Rightarrow> plugin option \<Rightarrow> string \<Rightarrow> typeComposer list \<Rightarrow> typeComposer list \<Rightarrow>
   schemaComposer \<Rightarrow> (error \<times> schemaComposer) + (typeComposer list \<times> schemaComposer)" where
  "parseTypes env plugin createdFrom [] acc sc = Inr (acc, sc)"
| "parseTypes env plugin createdFrom (def # defs) acc sc =
     (case checkIsAllowedTypeName (tname def) of
        Inl e \<Rightarrow> Inl (e, sc)
      | Inr u \<Rightarrow>
          (case getTC sc (tname def) of
             Some typeComposer \<Rightarrow>
               (case mergeTypes env (setType sc def) typeComposer (Composer def) plugin createdFrom of
                  Inl e \<Rightarrow> Inl (e, setType sc def)
                | Inr r \<Rightarrow>
                    parseTypes env plugin createdFrom defs acc
                      (addReports (setType (setType sc def) (fst r)) (snd r)))
           | None \<Rightarrow>
               parseTypes env plugin createdFrom defs (acc @ [def]) (setType sc def)))"

text \<open>
  The kind named by a type-builder descriptor; \<open>ILLEGAL\<close> stands for any value that is
  not one of \<open>GatsbyGraphQLTypeKind\<close>.

  Modelled from the spec: \<open>isGatsbyType\<close> of \<open>./types/type-builders\<close>, which is not among
  the sources. The specification gives a descriptor one of the kinds object, input,
  union, interface, enum and scalar (section 6); anything else is no descriptor.
\<close>

datatype builderKind = OBJECT | INPUT_OBJECT | UNION | INTERFACE | ENUM | SCALAR | ILLEGAL

definition isGatsbyType :: "builderKind \<Rightarrow> bool" where
  "isGatsbyType k = (k \<noteq> ILLEGAL)"

text \<open>
  \<open>createTypeComposerFromGatsbyType\<close>: a temporary composer of the kind the descriptor
  names, from its configuration, or \<open>null\<close> with a warning.
\<close>

definition createTypeComposerFromGatsbyType ::
  "env \<Rightarrow> builderKind \<Rightarrow> builderConfig \<Rightarrow> incomingType option \<times> report list" where
  "createTypeComposerFromGatsbyType env k config =
     (case k of
        OBJECT \<Rightarrow> (Some (TempComposer ObjectKind config), [])
      | INPUT_OBJECT \<Rightarrow> (Some (TempComposer InputKind config), [])
      | UNION \<Rightarrow> (Some (TempComposer UnionKind config), [])
      | INTERFACE \<Rightarrow> (Some (TempComposer InterfaceKind config), [])
      | ENUM \<Rightarrow> (Some (TempComposer EnumKind config), [])
      | SCALAR \<Rightarrow> (Some (TempComposer ScalarKind config), [])
      | ILLEGAL \<Rightarrow> (None, [Warn (''Illegal type definition: '' @ stringify env config)]))"

datatype typeSource =
    Document "typeComposer list"
  | GatsbyType builderKind builderConfig
  | NativeType typeComposer

text \<open>What \<open>addTypes\<close> does with a type that is not a document, once it has its name.\<close>

definition addNamedType ::
  "env \<Rightarrow> schemaComposer \<Rightarrow> incomingType \<Rightarrow> string \<Rightarrow> plugin option \<Rightarrow>
   error + schemaComposer" where
  "addNamedType env sc type createdFrom plugin =
     (let typeName = tname (incomingDef type) in
      case checkIsAllowedTypeName typeName of
        Inl e \<Rightarrow> Inl e
      | Inr u \<Rightarrow>
          (case getTC sc typeName of
             Some typeComposer \<Rightarrow>
               (case mergeTypes env sc typeComposer type plugin createdFrom of
                  Inl e \<Rightarrow> Inl e
                | Inr r \<Rightarrow> Inr (addReports (setType sc (fst r)) (snd r)))
           | None \<Rightarrow> processAddedType env sc type createdFrom plugin))"

fun processAddedTypes ::
  "env \<Rightarrow> schemaComposer \<Rightarrow> typeComposer list \<Rightarrow> string \<Rightarrow> plugin option \<Rightarrow>
   error + schemaComposer" where
  "processAddedTypes env sc [] createdFrom plugin = Inr sc"
| "processAddedTypes env sc (t # ts) createdFrom plugin =
     (case processAddedType env sc (Composer t) createdFrom plugin of
        Inl e \<Rightarrow> Inl e
      | Inr sc' \<Rightarrow> processAddedTypes env sc' ts createdFrom plugin)"

text \<open>
  One round of \<open>types.forEach\<close>. The \<open>try\<close> around \<open>parseTypes\<close> catches what is
  thrown there and hands it to \<open>reportParsingError\<close>; were that to return, the round would
  end (\<open>return\<close>) and the next source be taken. A descriptor that \<open>isGatsbyType\<close> does not
  accept is taken for a type object of graphql-js: its \<open>name\<close> is \<open>undefined\<close>, and the
  name check stops at \<open>name.endsWith\<close> with a \<open>TypeError\<close>.
\<close>

definition addType :: "env \<Rightarrow> schemaComposer \<Rightarrow> typeSource \<times> plugin option \<Rightarrow> error + schemaComposer" where
  "addType env sc entry =
     (let plugin = snd entry in
      case fst entry of
        Document doc \<Rightarrow>
          (case parseTypes env plugin ''sdl'' doc [] sc of
             Inl (Panic m, sc') \<Rightarrow> Inl (Panic m)
           | Inl (Thrown m, sc') \<Rightarrow>
               (case reportParsingError m of
                  Some e \<Rightarrow> Inl e
                | None \<Rightarrow> Inr sc')
           | Inr (parsedTypes, sc') \<Rightarrow> processAddedTypes env sc' parsedTypes ''sdl'' plugin)
      | GatsbyType k config \<Rightarrow>
          (if isGatsbyType k then
             (case fst (createTypeComposerFromGatsbyType env k config) of
                None \<Rightarrow> Inr (addReports sc (snd (createTypeComposerFromGatsbyType env k config)))
              | Some type \<Rightarrow> addNamedType env sc type ''typeBuilder'' plugin)
           else Inl (Thrown ''TypeError: Cannot read property endsWith of undefined''))
      | NativeType type \<Rightarrow> addNamedType env sc (GraphQLType type) ''graphql-js'' plugin)"

fun addTypes ::
  "env \<Rightarrow> schemaComposer \<Rightarrow> (typeSource \<times> plugin option) list \<Rightarrow> error + schemaComposer" where
  "addTypes env sc [] = Inr sc"
| "addTypes env sc (entry # entries) =
     (case addType env sc entry of Inl e \<Rightarrow> Inl e | Inr sc' \<Rightarrow> addTypes env sc' entries)"

subsection \<open>checkQueryableInterfaces\<close>

definition extensionTruthy :: "typeComposer \<Rightarrow> string \<Rightarrow> bool" where
  "extensionTruthy tc k = (case getExtension tc k of None \<Rightarrow> False | Some v \<Rightarrow> truthy v)"

definition queryableInterfaces :: "schemaComposer \<Rightarrow> string list" where
  "queryableInterfaces sc =
     map tname (filter (\<lambda>type. tkind type = InterfaceKind \<and> extensionTruthy type ''nodeInterface'')
                  (types sc))"

definition incorrectTypes :: "schemaComposer \<Rightarrow> string list" where
  "incorrectTypes sc =
     map tname
       (filter (\<lambda>type. tkind type = ObjectKind \<and>
                  list_ex (\<lambda>iface. iface \<in> set (queryableInterfaces sc)) (tinterfaces type) \<and>
                  \<not> hasInterface type ''Node'')
          (types sc))"

definition queryableInterfacesPanic :: "string list \<Rightarrow> string" where
  "queryableInterfacesPanic incorrect =
     concat [''Interfaces with the `nodeInterface` extension must only be '',
             ''implemented by types which also implement the `Node` '',
             ''interface. Check the type definition of '',
             joinWith '', '' (map (\<lambda>t. concat [''`'', t, ''`'']) incorrect), ''.'']"

definition checkQueryableInterfaces :: "schemaComposer \<Rightarrow> error + unit" where
  "checkQueryableInterfaces sc =
     (if incorrectTypes sc \<noteq> [] then Inl (Panic (queryableInterfacesPanic (incorrectTypes sc)))
      else Inr ())"

subsection \<open>addCustomResolveFunctions: createResolvers\<close>

text \<open>
  What \<open>createResolvers\<close> is given for a field: \<open>type\<close> is a type name (a string, or a
  type object, read through \<open>toString()\<close>) or an array, \<open>args\<close> and \<open>resolve\<close> as in
  a field configuration.
\<close>

datatype typeArg = TypeName string | TypeArray "typeArg list"

record resolverConfig =
  rtype :: "typeArg option"
  rargs :: "(string \<times> string) list option"
  rresolve :: "resolver option"

fun stringifyArray :: "typeArg list \<Rightarrow> string" where
  "stringifyArray arr =
     concat [''['',
             joinWith '',''
               (map (\<lambda>item. case item of TypeArray a \<Rightarrow> stringifyArray a | TypeName s \<Rightarrow> s) arr),
             '']'']"

text \<open>\<open>fieldConfig.type\<close> is falsy when it is absent or the empty string.\<close>

definition typeArgTruthy :: "typeArg option \<Rightarrow> bool" where
  "typeArgTruthy t = (case t of None \<Rightarrow> False | Some (TypeName s) \<Rightarrow> s \<noteq> [] | Some (TypeArray a) \<Rightarrow> True)"

definition typeArgText :: "typeArg \<Rightarrow> string" where
  "typeArgText t = (case t of TypeArray a \<Rightarrow> stringifyArray a | TypeName s \<Rightarrow> s)"

definition fieldTypeNameOf :: "resolverConfig \<Rightarrow> string option" where
  "fieldTypeNameOf fieldConfig =
     (if typeArgTruthy (rtype fieldConfig) then map_option typeArgText (rtype fieldConfig) else None)"

definition stringFalsy :: "string option \<Rightarrow> bool" where
  "stringFalsy s = (case s of None \<Rightarrow> True | Some t \<Rightarrow> t = [])"

text \<open>\<open>s.replace(/!/g, ``)\<close>\<close>

definition stripNonNull :: "string \<Rightarrow> string" where
  "stripNonNull s = filter (\<lambda>c. c \<noteq> CHR ''!'') s"

definition isThirdParty :: "typeComposer \<Rightarrow> bool" where
  "isThirdParty tc = (getExtension tc ''createdFrom'' = Some (JStr ''thirdPartySchema''))"

definition overrideAccepted :: "typeComposer \<Rightarrow> string option \<Rightarrow> string \<Rightarrow> bool" where
  "overrideAccepted tc fieldTypeName originalTypeName =
     (stringFalsy fieldTypeName \<or>
      stripNonNull (case fieldTypeName of Some s \<Rightarrow> s | None \<Rightarrow> []) = stripNonNull originalTypeName \<or>
      isThirdParty tc)"

text \<open>
  \<open>newConfig\<close>: the keys of the override that are truthy, the resolver wrapped so that
  it is called with \<open>info.originalResolver\<close>; the type is kept in printed form.
\<close>

definition newConfig :: "resolverConfig \<Rightarrow> resolver option \<Rightarrow> fieldConfig" where
  "newConfig fieldConfig originalResolver =
     FieldConfig
       (if typeArgTruthy (rtype fieldConfig) then map_option typeArgText (rtype fieldConfig) else None)
       (rargs fieldConfig)
       (map_option (\<lambda>f. WithOriginal f originalResolver) (rresolve fieldConfig))
       None"

definition overrideWarning :: "string \<Rightarrow> string \<Rightarrow> string \<Rightarrow> string \<Rightarrow> string" where
  "overrideWarning typeName fieldName fieldTypeName originalTypeName =
     concat [''`createResolvers` passed resolvers for field '',
             ''`'', typeName, ''.'', fieldName, ''` with type `'', fieldTypeName, ''`. '',
             ''Such a field with type `'', originalTypeName, ''` already exists '',
             ''on the type. Use `createTypes` to override type fields.'']"

text \<open>
  The branch \<open>tc.hasField(fieldName)\<close>, on the configuration \<open>originalFieldConfig\<close> of
  the field and its printed type. The three changes of the accepted case are all to this
  one field: the \<open>needsResolve\<close> extension, the keys of \<open>newConfig\<close>, and for a type
  from a third-party schema the record of the original configuration.
\<close>

definition overrideExistingField ::
  "typeComposer \<Rightarrow> string \<Rightarrow> string \<Rightarrow> resolverConfig \<Rightarrow> fieldConfig \<Rightarrow> string \<Rightarrow>
   typeComposer \<times> report list" where
  "overrideExistingField tc typeName fieldName fieldConfig originalFieldConfig originalTypeName =
     (let originalResolver = fresolve originalFieldConfig;
          fieldTypeName = fieldTypeNameOf fieldConfig in
      if overrideAccepted tc fieldTypeName originalTypeName then
        (let c1 = (if rresolve fieldConfig \<noteq> None
                   then setFieldExtension originalFieldConfig ''needsResolve'' (JBool True)
                   else originalFieldConfig);
             c2 = extendConfig c1 (newConfig fieldConfig originalResolver);
             c3 = (if isThirdParty tc
                   then setFieldExtension c2 ''originalFieldConfig'' (JConfig originalFieldConfig)
                   else c2)
         in (setField tc fieldName c3, []))
      else if \<not> stringFalsy fieldTypeName then
        (tc, [Warn (overrideWarning typeName fieldName
                      (case fieldTypeName of Some s \<Rightarrow> s | None \<Rightarrow> []) originalTypeName)])
      else (tc, []))"

text \<open>The \<open>else\<close> branch: a field that the type does not have yet.\<close>

definition addResolverField :: "typeComposer \<Rightarrow> string \<Rightarrow> resolverConfig \<Rightarrow> typeComposer" where
  "addResolverField tc fieldName fieldConfig =
     setField tc fieldName
       (setFieldExtension
          (FieldConfig (map_option typeArgText (rtype fieldConfig)) (rargs fieldConfig)
             (rresolve fieldConfig) None)
          ''createdFrom'' (JStr ''createResolvers''))"

text \<open>
  One round of the loop over the fields given for a type. \<open>type.toString()\<close> on a field
  that has no type is a \<open>TypeError\<close>.
\<close>

definition createResolversField ::
  "typeComposer \<Rightarrow> string \<Rightarrow> string \<times> resolverConfig \<Rightarrow> error + (typeComposer \<times> report list)" where
  "createResolversField tc typeName fld =
     (case map_of (tfields tc) (fst fld) of
        Some originalFieldConfig \<Rightarrow>
          (case ftype originalFieldConfig of
             None \<Rightarrow> Inl (Thrown ''TypeError'')
           | Some originalTypeName \<Rightarrow>
               Inr (overrideExistingField tc typeName (fst fld) (snd fld) originalFieldConfig
                      originalTypeName))
      | None \<Rightarrow> Inr (addResolverField tc (fst fld) (snd fld), []))"

fun createResolversFields ::
  "typeComposer \<Rightarrow> string \<Rightarrow> (string \<times> resolverConfig) list \<Rightarrow>
   error + (typeComposer \<times> report list)" where
  "createResolversFields tc typeName [] = Inr (tc, [])"
| "createResolversFields tc typeName (fld # flds) =
     (case createResolversField tc typeName fld of
        Inl e \<Rightarrow> Inl e
      | Inr r \<Rightarrow>
          (case createResolversFields (fst r) typeName flds of
             Inl e \<Rightarrow> Inl e
           | Inr r' \<Rightarrow> Inr (fst r', snd r @ snd r')))"

definition nonexistentTypeWarning :: "string \<Rightarrow> string" where
  "nonexistentTypeWarning typeName =
     concat [''`createResolvers` passed resolvers for type `'', typeName, ''` that '',
             ''doesn'', [CHR 0x27], ''t exist in the schema. Use `createTypes` to add the type '',
             ''before adding resolvers.'']"

text \<open>
  \<open>schemaComposer.getOTC\<close> throws for a name that is registered but not an object type.
\<close>

fun createResolvers ::
  "schemaComposer \<Rightarrow> (string \<times> (string \<times> resolverConfig) list) list \<Rightarrow> bool \<Rightarrow>
   error + schemaComposer" where
  "createResolvers sc [] ignoreNonexistentTypes = Inr sc"
| "createResolvers sc (entry # resolvers) ignoreNonexistentTypes =
     (case getTC sc (fst entry) of
        Some tc \<Rightarrow>
          (if tkind tc \<noteq> ObjectKind then
             Inl (Thrown (''Cannot find ObjectTypeComposer with name '' @ fst entry))
           else
             (case createResolversFields tc (fst entry) (snd entry) of
                Inl e \<Rightarrow> Inl e
              | Inr r \<Rightarrow>
                  createResolvers (addReports (setType sc (fst r)) (snd r)) resolvers
                    ignoreNonexistentTypes))
      | None \<Rightarrow>
          (if \<not> ignoreNonexistentTypes then
             createResolvers (addReports sc [Warn (nonexistentTypeWarning (fst entry))]) resolvers
               ignoreNonexistentTypes
           else createResolvers sc resolvers ignoreNonexistentTypes))"

text \<open>
  What the closure built for an accepted resolver hands on as \<open>info.originalResolver\<close>:
  \<open>originalResolver || context.defaultFieldResolver\<close>.
\<close>

datatype resolverRef = PriorResolver resolver | DefaultFieldResolver

fun originalResolverOf :: "resolver \<Rightarrow> (resolver \<times> resolverRef) option" where
  "originalResolverOf (WithOriginal f orig) =
     Some (f, case orig of Some r \<Rightarrow> PriorResolver r | None \<Rightarrow> DefaultFieldResolver)"
| "originalResolverOf (Fn n) = None"
| "originalResolverOf (ChildrenResolver t) = None"
| "originalResolverOf (ChildResolver t) = None"

subsection \<open>addThirdPartySchemas\<close>

text \<open>
  A third-party schema: its query type (\<open>schema.getQueryType()\<close>) and the values of
  \<open>schema.getTypeMap()\<close> in the order of their keys. A composer made for one of its
  types works on that type object itself, so the record of the type stands for both.
\<close>

record thirdPartySchema =
  queryType :: typeComposer
  typeMap :: "typeComposer list"

text \<open>
  What \<open>addFields\<close> stores for the value found under \<open>originalFieldConfig\<close>: a
  configuration object as it is, a string as the name of a type; any other value defines
  none of the keys kept here.
\<close>

definition asFieldConfig :: "jsval \<Rightarrow> fieldConfig" where
  "asFieldConfig v =
     (case v of
        JConfig c \<Rightarrow> c
      | JStr s \<Rightarrow> FieldConfig (Some s) None None None
      | _ \<Rightarrow> FieldConfig None None None None)"

text \<open>One round of the loop of \<open>resetOverriddenThirdPartyTypeFields\<close>.\<close>

definition resetField :: "typeComposer \<Rightarrow> string \<Rightarrow> typeComposer" where
  "resetField typeComposer fieldName =
     (case map_of (tfields typeComposer) fieldName of
        None \<Rightarrow> typeComposer
      | Some c \<Rightarrow>
          (if map_of (getFieldExtensions c) ''createdFrom'' = Some (JStr ''createResolvers'')
           then removeField typeComposer fieldName
           else
             (case map_of (getFieldExtensions c) ''originalFieldConfig'' of
                None \<Rightarrow> typeComposer
              | Some config \<Rightarrow>
                  (if truthy config
                   then setField (removeField typeComposer fieldName) fieldName (asFieldConfig config)
                   else typeComposer))))"

definition resetOverriddenThirdPartyTypeFields :: "typeComposer \<Rightarrow> typeComposer" where
  "resetOverriddenThirdPartyTypeFields typeComposer =
     foldl resetField typeComposer (map fst (tfields typeComposer))"

text \<open>\<open>fieldType.replace(/[[\]!]/g, ``)\<close>\<close>

definition stripWrappers :: "string \<Rightarrow> string" where
  "stripWrappers s = filter (\<lambda>c. c \<noteq> CHR ''['' \<and> c \<noteq> CHR '']'' \<and> c \<noteq> CHR ''!'') s"

text \<open>\<open>s.replace(pattern, replacement)\<close> with a string pattern: the first occurrence.\<close>

fun replaceFirst :: "string \<Rightarrow> string \<Rightarrow> string \<Rightarrow> string" where
  "replaceFirst [] pat rep = (if pat = [] then rep else [])"
| "replaceFirst (c # cs) pat rep =
     (if prefix pat (c # cs) then rep @ drop (length pat) (c # cs)
      else c # replaceFirst cs pat rep)"

text \<open>
  One round of the second loop of \<open>processThirdPartyTypeFields\<close>, on the configuration
  of the field; \<open>field.type.toString()\<close> is a \<open>TypeError\<close> without a type.
\<close>

definition rewriteQueryType :: "string \<Rightarrow> fieldConfig \<Rightarrow> error + fieldConfig" where
  "rewriteQueryType schemaQueryTypeName field =
     (case ftype field of
        None \<Rightarrow> Inl (Thrown ''TypeError'')
      | Some fieldType \<Rightarrow>
          (if stripWrappers fieldType = schemaQueryTypeName
           then Inr (extendConfig field
                  (FieldConfig (Some (replaceFirst fieldType schemaQueryTypeName ''Query''))
                     None None None))
           else Inr field))"

fun rewriteFields :: "string \<Rightarrow> typeComposer \<Rightarrow> string list \<Rightarrow> error + typeComposer" where
  "rewriteFields q tc [] = Inr tc"
| "rewriteFields q tc (fieldName # fieldNames) =
     (case map_of (tfields tc) fieldName of
        None \<Rightarrow> rewriteFields q tc fieldNames
      | Some field \<Rightarrow>
          (case rewriteQueryType q field of
             Inl e \<Rightarrow> Inl e
           | Inr field' \<Rightarrow> rewriteFields q (setField tc fieldName field') fieldNames))"

definition processThirdPartyTypeFields :: "typeComposer \<Rightarrow> string \<Rightarrow> error + typeComposer" where
  "processThirdPartyTypeFields typeComposer schemaQueryTypeName =
     (let tc = resetOverriddenThirdPartyTypeFields typeComposer in
      rewriteFields schemaQueryTypeName tc (map fst (tfields tc)))"

text \<open>\<open>isSpecifiedScalarType\<close> and \<open>isIntrospectionType\<close> of graphql-js.\<close>

definition isSpecifiedScalarType :: "typeComposer \<Rightarrow> bool" where
  "isSpecifiedScalarType type =
     (tkind type = ScalarKind \<and>
      tname type \<in> set [''String'', ''Int'', ''Float'', ''Boolean'', ''ID''])"

definition isIntrospectionType :: "typeComposer \<Rightarrow> bool" where
  "isIntrospectionType type =
     (tname type \<in> set [''__Schema'', ''__Directive'', ''__DirectiveLocation'', ''__Type'',
                        ''__Field'', ''__InputValue'', ''__EnumValue'', ''__TypeKind''])"

definition isImported :: "typeComposer \<Rightarrow> typeComposer \<Rightarrow> bool" where
  "isImported schemaQueryType type =
     (tname type \<noteq> tname schemaQueryType \<and>
      \<not> isSpecifiedScalarType type \<and>
      \<not> isIntrospectionType type \<and>
      tname type \<noteq> ''Date'' \<and>
      tname type \<noteq> ''JSON'')"

text \<open>The body of the loop over the type map, for a type that passes the test.\<close>

definition importType :: "schemaComposer \<Rightarrow> string \<Rightarrow> typeComposer \<Rightarrow> error + schemaComposer" where
  "importType sc schemaQueryTypeName type =
     (case (if tkind type = ObjectKind \<or> tkind type = InterfaceKind
            then processThirdPartyTypeFields type schemaQueryTypeName else Inr type) of
        Inl e \<Rightarrow> Inl e
      | Inr typeComposer \<Rightarrow>
          Inr (addSchemaMustHaveType
                 (setType sc (setExtension typeComposer ''createdFrom'' (JStr ''thirdPartySchema'')))
                 (tname type)))"

fun importTypes ::
  "schemaComposer \<Rightarrow> typeComposer \<Rightarrow> typeComposer list \<Rightarrow> error + schemaComposer" where
  "importTypes sc schemaQueryType [] = Inr sc"
| "importTypes sc schemaQueryType (type # rest) =
     (if isImported schemaQueryType type then
        (case importType sc (tname schemaQueryType) type of
           Inl e \<Rightarrow> Inl e
         | Inr sc' \<Rightarrow> importTypes sc' schemaQueryType rest)
      else importTypes sc schemaQueryType rest)"

definition addFields :: "typeComposer \<Rightarrow> (string \<times> fieldConfig) list \<Rightarrow> typeComposer" where
  "addFields tc flds = foldl (\<lambda>t fld. setField t (fst fld) (snd fld)) tc flds"

text \<open>
  \<open>schemaComposer.Query\<close>: the object type registered as \<open>Query\<close>, made and registered
  when there is none.
\<close>

definition getQuery :: "schemaComposer \<Rightarrow> error + typeComposer" where
  "getQuery sc =
     (case getTC sc ''Query'' of
        None \<Rightarrow> Inr \<lparr>tname = ''Query'', tkind = ObjectKind, tfields = [], tinterfaces = [],
                     textensions = [], tresolveType = False\<rparr>
      | Some tc \<Rightarrow>
          (if tkind tc = ObjectKind then Inr tc
           else Inl (Thrown ''Cannot find ObjectTypeComposer with name Query'')))"

text \<open>
  The first half of a round of \<open>thirdPartySchemas.forEach\<close>: the fields of the query
  type of the schema, reset and rewritten, are added to \<open>Query\<close>.
\<close>

definition rehomeQueryFields :: "schemaComposer \<Rightarrow> typeComposer \<Rightarrow> error + schemaComposer" where
  "rehomeQueryFields sc schemaQueryType =
     (case processThirdPartyTypeFields schemaQueryType (tname schemaQueryType) of
        Inl e \<Rightarrow> Inl e
      | Inr queryTC \<Rightarrow>
          (case getQuery sc of
             Inl e \<Rightarrow> Inl e
           | Inr query \<Rightarrow> Inr (setType sc (addFields query (tfields queryTC)))))"

definition addThirdPartySchema :: "schemaComposer \<Rightarrow> thirdPartySchema \<Rightarrow> error + schemaComposer" where
  "addThirdPartySchema sc schema =
     (case rehomeQueryFields sc (queryType schema) of
        Inl e \<Rightarrow> Inl e
      | Inr sc' \<Rightarrow> importTypes sc' (queryType schema) (typeMap schema))"

fun addThirdPartySchemas ::
  "schemaComposer \<Rightarrow> thirdPartySchema list \<Rightarrow> error + schemaComposer" where
  "addThirdPartySchemas sc [] = Inr sc"
| "addThirdPartySchemas sc (schema # schemas) =
     (case addThirdPartySchema sc schema of
        Inl e \<Rightarrow> Inl e
      | Inr sc' \<Rightarrow> addThirdPartySchemas sc' schemas)"

subsection \<open>addImplicitConvenienceChildrenFields\<close>

text \<open>
  A node of the store, with the properties read here: \<open>id\<close>, \<open>parent\<close> (an id or
  \<open>null\<close>), \<open>children\<close> (an array of ids, or absent) and \<open>internal.type\<close>
  (\<open>internal\<close> may be absent, and so may its \<open>type\<close>).
\<close>

record node =
  nid :: string
  nparent :: "string option"
  nchildren :: "string list option"
  ninternal :: "string option option"

text \<open>
  What comes from outside \<open>schema.js\<close>: \<open>getNodesByType\<close> and \<open>getNode\<close> of
  \<open>../redux/nodes\<close>, and \<open>_.camelCase\<close> of lodash.
\<close>

record nodeStore =
  getNodesByType :: "string \<Rightarrow> node list"
  getNode :: "string \<Rightarrow> node option"
  camelCase :: "string \<Rightarrow> string"

text \<open>
  \<open>Object.keys\<close> and \<open>_.values\<close> visit the keys that are array indices first, in
  ascending numeric order, and then the other keys in the order of their insertion. An
  array index is the decimal form, without leading zero, of a number below \<open>2^32 - 1\<close>.
\<close>

definition isDigit :: "char \<Rightarrow> bool" where
  "isDigit c = (c \<in> set ''0123456789'')"

definition natOfDigits :: "string \<Rightarrow> nat" where
  "natOfDigits s = foldl (\<lambda>n c. 10 * n + (of_char c - 48)) 0 s"

definition isArrayIndex :: "string \<Rightarrow> bool" where
  "isArrayIndex s =
     (s \<noteq> [] \<and> list_all isDigit s \<and> (s = ''0'' \<or> hd s \<noteq> CHR ''0'') \<and>
      natOfDigits s < 4294967295)"

definition objectEntries :: "(string \<times> 'v) list \<Rightarrow> (string \<times> 'v) list" where
  "objectEntries obj =
     sort_key (\<lambda>p. natOfDigits (fst p)) (filter (\<lambda>p. isArrayIndex (fst p)) obj) @
     filter (\<lambda>p. \<not> isArrayIndex (fst p)) obj"

text \<open>
  \<open>_.groupBy(xs, key)\<close>: an object from each key to the array of the elements with that
  key, in their order.
\<close>

definition groupBy :: "('a \<Rightarrow> string) \<Rightarrow> 'a list \<Rightarrow> (string \<times> 'a list) list" where
  "groupBy key xs =
     foldl (\<lambda>result x.
              aset (key x) ((case map_of result (key x) of None \<Rightarrow> [] | Some g \<Rightarrow> g) @ [x]) result)
           [] xs"

text \<open>
  \<open>_.maxBy(xs, f)\<close>: the first element at which \<open>f\<close> is greatest, \<open>undefined\<close> for an
  empty array.
\<close>

fun maxBy :: "('a \<Rightarrow> nat) \<Rightarrow> 'a list \<Rightarrow> 'a option" where
  "maxBy f [] = None"
| "maxBy f (x # xs) = Some (foldl (\<lambda>best y. if f best < f y then y else best) x xs)"

text \<open>\<open>(node.children || []).map(getNode).filter(Boolean)\<close>\<close>

definition childNodes :: "nodeStore \<Rightarrow> node \<Rightarrow> node list" where
  "childNodes st node =
     List.map_filter (getNode st) (case nchildren node of None \<Rightarrow> [] | Some ids \<Rightarrow> ids)"

text \<open>
  The keys under which \<open>groupBy\<close> files a node: \<open>node.internal ? node.internal.type :
  undefined\<close> and \<open>c.parent\<close>, as property names.
\<close>

definition typeKey :: "node \<Rightarrow> string" where
  "typeKey node = (case ninternal node of Some (Some t) \<Rightarrow> t | _ \<Rightarrow> ''undefined'')"

definition parentKey :: "node \<Rightarrow> string" where
  "parentKey c = (case nparent c of Some p \<Rightarrow> p | None \<Rightarrow> ''null'')"

definition groupChildNodesByType :: "nodeStore \<Rightarrow> node list \<Rightarrow> (string \<times> node list) list" where
  "groupChildNodesByType st nodes = groupBy typeKey (concat (map (childNodes st) nodes))"

text \<open>
  \<open>_.maxBy(_.values(_.groupBy(typeChildren, c => c.parent)), g => g.length).length\<close>;
  the length of \<open>undefined\<close> is a \<open>TypeError\<close>.
\<close>

definition maxChildCount :: "node list \<Rightarrow> error + nat" where
  "maxChildCount typeChildren =
     (case maxBy length (map snd (objectEntries (groupBy parentKey typeChildren))) of
        None \<Rightarrow> Inl (Thrown ''TypeError'')
      | Some g \<Rightarrow> Inr (length g))"

definition convenienceChild :: "nodeStore \<Rightarrow> string \<Rightarrow> string" where
  "convenienceChild st typeName = camelCase st (''child '' @ typeName)"

definition convenienceChildren :: "nodeStore \<Rightarrow> string \<Rightarrow> string" where
  "convenienceChildren st typeName = camelCase st (''children '' @ typeName)"

text \<open>
  The two field maps. The type \<open>() => [typeName]\<close> is the list of the named type, printed
  \<open>[typeName]\<close>.
\<close>

definition createChildrenField :: "nodeStore \<Rightarrow> string \<Rightarrow> (string \<times> fieldConfig) list" where
  "createChildrenField st typeName =
     [(convenienceChildren st typeName,
       FieldConfig (Some (''['' @ typeName @ '']'')) None (Some (ChildrenResolver typeName)) None)]"

definition createChildField :: "nodeStore \<Rightarrow> string \<Rightarrow> (string \<times> fieldConfig) list" where
  "createChildField st typeName =
     [(convenienceChild st typeName,
       FieldConfig (Some typeName) None (Some (ChildResolver typeName)) None)]"

text \<open>
  What the two resolvers return for a source node, given \<open>context.nodeModel.getNodesByIds\<close>
  as a function of the ids and the type (its result may be \<open>null\<close>): the plural one
  returns that result, the singular one its first element or \<open>null\<close>.
\<close>

datatype resolved = NodeList "node list option" | OneNode "node option"

fun resolveConvenience ::
  "(string list option \<Rightarrow> string \<Rightarrow> node list option) \<Rightarrow> resolver \<Rightarrow> node \<Rightarrow> resolved option" where
  "resolveConvenience getNodesByIds (ChildrenResolver typeName) source =
     Some (NodeList (getNodesByIds (nchildren source) typeName))"
| "resolveConvenience getNodesByIds (ChildResolver typeName) source =
     Some (OneNode (case getNodesByIds (nchildren source) typeName of
                      Some (r # rs) \<Rightarrow> Some r
                    | _ \<Rightarrow> None))"
| "resolveConvenience getNodesByIds (Fn f) source = None"
| "resolveConvenience getNodesByIds (WithOriginal f orig) source = None"

definition implicitChildWarning :: "string \<Rightarrow> string \<Rightarrow> string" where
  "implicitChildWarning parentTypeName fieldName =
     concat [''The type `'', parentTypeName, ''` does not explicitly define '',
             ''the field `'', fieldName, ''`.'', [CHR 0x0A],
             ''On types with the `@dontInfer` directive, or with the `infer` '',
             ''extension set to `false`, automatically adding fields for '',
             ''children types is deprecated.'', [CHR 0x0A],
             ''In Gatsby v3, only children fields explicitly set with the '',
             ''`childOf` extension will be added.'', [CHR 0x0A]]"

text \<open>
  \<open>childOfExtension.types.includes(parentTypeName)\<close>: membership for an array,
  containment for a string, a \<open>TypeError\<close> when \<open>types\<close> is anything else or the
  extension is not an object with that key.
\<close>

definition childOfIncludes :: "jsval \<Rightarrow> string \<Rightarrow> error + bool" where
  "childOfIncludes childOfExtension parentTypeName =
     (case childOfExtension of
        JObj kvs \<Rightarrow>
          (case map_of kvs ''types'' of
             Some (JArr ts) \<Rightarrow> Inr (JStr parentTypeName \<in> set ts)
           | Some (JStr s) \<Rightarrow> Inr (sublist parentTypeName s)
           | _ \<Rightarrow> Inl (Thrown ''TypeError''))
      | _ \<Rightarrow> Inl (Thrown ''TypeError''))"

definition childOfMany :: "jsval \<Rightarrow> bool" where
  "childOfMany childOfExtension =
     (case childOfExtension of
        JObj kvs \<Rightarrow> (case map_of kvs ''many'' of Some v \<Rightarrow> truthy v | None \<Rightarrow> False)
      | _ \<Rightarrow> False)"

text \<open>
  The body of \<open>if (shouldInfer === false)\<close>. \<open>schemaComposer.getAnyTC\<close> throws for a
  name that is not registered. The condition is \<open>!childOfExtension ||
  !childOfExtension.types.includes(parentTypeName) || !childOfExtension.many === many\<close>,
  the last part being \<open>(!childOfExtension.many) === many\<close>.
\<close>

definition dontInferCheck ::
  "nodeStore \<Rightarrow> schemaComposer \<Rightarrow> string \<Rightarrow> string \<Rightarrow> nat \<Rightarrow> error + report list" where
  "dontInferCheck st sc parentTypeName typeName maxCount =
     (case getTC sc typeName of
        None \<Rightarrow> Inl (Thrown (''Cannot find type with name '' @ typeName))
      | Some childTypeComposer \<Rightarrow>
          (let childOfExtension = getExtension childTypeComposer ''childOf'';
               many = (1 < maxCount);
               fieldName = (if many then convenienceChildren st typeName
                            else convenienceChild st typeName);
               warning = [Warn (implicitChildWarning parentTypeName fieldName)]
           in case childOfExtension of
                None \<Rightarrow> Inr warning
              | Some ext \<Rightarrow>
                  (if \<not> truthy ext then Inr warning
                   else (case childOfIncludes ext parentTypeName of
                           Inl e \<Rightarrow> Inl e
                         | Inr included \<Rightarrow>
                             Inr (if \<not> included \<or> ((\<not> childOfMany ext) = many)
                                  then warning else [])))))"

text \<open>
  One round of \<open>Object.keys(childNodesByType).forEach\<close>. The composer is one of those of
  the registry and only its fields change, so every round reads the registry as given.
\<close>

definition convenienceStep ::
  "nodeStore \<Rightarrow> schemaComposer \<Rightarrow> jsval option \<Rightarrow> string \<Rightarrow> typeComposer \<times> report list \<Rightarrow>
   string \<times> node list \<Rightarrow> error + (typeComposer \<times> report list)" where
  "convenienceStep st sc shouldInfer parentTypeName acc entry =
     (case maxChildCount (snd entry) of
        Inl e \<Rightarrow> Inl e
      | Inr maxCount \<Rightarrow>
          (case (if shouldInfer = Some (JBool False)
                 then dontInferCheck st sc parentTypeName (fst entry) maxCount
                 else Inr []) of
             Inl e \<Rightarrow> Inl e
           | Inr warnings \<Rightarrow>
               Inr (addFields (fst acc)
                      (if 1 < maxCount then createChildrenField st (fst entry)
                       else createChildField st (fst entry)),
                    snd acc @ warnings)))"

fun convenienceSteps ::
  "nodeStore \<Rightarrow> schemaComposer \<Rightarrow> jsval option \<Rightarrow> string \<Rightarrow> typeComposer \<times> report list \<Rightarrow>
   (string \<times> node list) list \<Rightarrow> error + (typeComposer \<times> report list)" where
  "convenienceSteps st sc shouldInfer parentTypeName acc [] = Inr acc"
| "convenienceSteps st sc shouldInfer parentTypeName acc (entry # entries) =
     (case convenienceStep st sc shouldInfer parentTypeName acc entry of
        Inl e \<Rightarrow> Inl e
      | Inr acc' \<Rightarrow> convenienceSteps st sc shouldInfer parentTypeName acc' entries)"

definition addImplicitConvenienceChildrenFields ::
  "nodeStore \<Rightarrow> schemaComposer \<Rightarrow> typeComposer \<Rightarrow> error + (typeComposer \<times> report list)" where
  "addImplicitConvenienceChildrenFields st schemaComposer typeComposer =
     (let shouldInfer = getExtension typeComposer ''infer'';
          parentTypeName = tname typeComposer;
          nodes = getNodesByType st parentTypeName;
          childNodesByType = groupChildNodesByType st nodes
      in convenienceSteps st schemaComposer shouldInfer parentTypeName (typeComposer, [])
           (objectEntries childNodesByType))"

subsection \<open>Notions used to state the properties\<close>

text \<open>
  The names the name check is said to reject: the reserved name \<open>Node\<close>, a name ending
  in \<open>FilterInput\<close> or \<open>SortInput\<close>, the name of a built-in scalar, and a name that is
  not an identifier.
\<close>

definition reservedOrInvalidName :: "string \<Rightarrow> bool" where
  "reservedOrInvalidName name =
     (name = ''Node'' \<or> suffix ''FilterInput'' name \<or> suffix ''SortInput'' name \<or>
      name \<in> set builtInScalarNames \<or> \<not> matchesNameRx name)"

text \<open>
  A source that brings a type of a given name: a document with a definition of that name,
  a type-builder descriptor whose configuration has the name, a type object of that name.
\<close>

definition declaresType :: "typeSource \<Rightarrow> string \<Rightarrow> bool" where
  "declaresType src name =
     (case src of
        Document doc \<Rightarrow> list_ex (\<lambda>d. tname d = name) doc
      | GatsbyType k config \<Rightarrow> isGatsbyType k \<and> cname config = name
      | NativeType t \<Rightarrow> tname t = name)"

text \<open>The type, the arguments and the resolver of a field, and those of every field of a type.\<close>

definition fieldCore ::
  "fieldConfig \<Rightarrow> string option \<times> (string \<times> string) list option \<times> resolver option" where
  "fieldCore c = (ftype c, fargs c, fresolve c)"

definition fieldCores ::
  "typeComposer \<Rightarrow>
   (string \<times> string option \<times> (string \<times> string) list option \<times> resolver option) list" where
  "fieldCores tc = map (\<lambda>fld. (fst fld, fieldCore (snd fld))) (tfields tc)"

text \<open>The composer after the two \<open>setExtension\<close> calls that open \<open>addExtensions\<close>.\<close>

definition stamped :: "plugin option \<Rightarrow> string \<Rightarrow> typeComposer \<Rightarrow> typeComposer" where
  "stamped plugin cf tc =
     setExtension (setExtension tc ''createdFrom'' (JStr cf)) ''plugin'' (pluginValue plugin)"

subsection \<open>Concrete inputs\<close>

definition newType ::
  "string \<Rightarrow> kind \<Rightarrow> (string \<times> fieldConfig) list \<Rightarrow> string list \<Rightarrow> (string \<times> jsval) list \<Rightarrow>
   typeComposer" where
  "newType name k flds ifaces exts =
     \<lparr>tname = name, tkind = k, tfields = flds, tinterfaces = ifaces, textensions = exts,
      tresolveType = False\<rparr>"

definition builder ::
  "string \<Rightarrow> (string \<times> fieldDef) list \<Rightarrow> interfaceRef list option \<Rightarrow> builderConfig" where
  "builder name flds ifaces =
     \<lparr>cname = name, cfields = flds, cinterfaces = ifaces, cextensions = [], cresolveType = False\<rparr>"

definition emptyRegistry :: schemaComposer where
  "emptyRegistry = \<lparr>types = [], mustHave = [], reports = []\<rparr>"

text \<open>An environment in which no field extension is found faulty.\<close>

definition specEnv :: env where
  "specEnv = \<lparr>validateFieldExtensions = (\<lambda>typeName fieldName e. (e, [])),
              stringify = cname\<rparr>"

definition existingFoo :: typeComposer where
  "existingFoo = newType ''Foo'' ObjectKind
     [(''bar'', FieldConfig (Some ''String'') (Some [(''limit'', ''Int'')]) (Some (Fn ''resolveBar'')) None),
      (''old'', FieldConfig (Some ''Int'') None None None)]
     [''Node''] [(''plugin'', JStr ''gatsby-source-a'')]"

definition incomingFoo :: typeComposer where
  "incomingFoo = newType ''Foo'' ObjectKind
     [(''bar'', FieldConfig (Some ''Int'') (Some []) None None),
      (''new'', FieldConfig (Some ''Boolean'') None None None)]
     [''Node'', ''Tagged''] []"

text \<open>
  The same incoming type as the configuration of a type builder, with one more field given
  in shorthand and its interfaces given by name, and a registry that has those interfaces.
\<close>

definition builtFoo :: builderConfig where
  "builtFoo = builder ''Foo''
     [(''bar'', FieldObject (FieldConfig (Some ''Int'') (Some []) None None)),
      (''new'', FieldObject (FieldConfig (Some ''Boolean'') None None None)),
      (''short'', TypeString ''Date'')]
     (Some [InterfaceName ''Node'', InterfaceName ''Tagged''])"

definition taggedRegistry :: schemaComposer where
  "taggedRegistry =
     \<lparr>types = [newType ''Node'' InterfaceKind [] [] [], newType ''Tagged'' InterfaceKind [] [] []],
      mustHave = [], reports = []\<rparr>"

text \<open>A registry that has the interface \<open>Node\<close> and no interface \<open>Tagged\<close>.\<close>

definition nodeRegistry :: schemaComposer where
  "nodeRegistry =
     \<lparr>types = [newType ''Node'' InterfaceKind [] [] []], mustHave = [], reports = []\<rparr>"

definition taggable :: "string \<Rightarrow> kind \<Rightarrow> typeComposer" where
  "taggable idType k = newType ''Taggable'' k
     [(''id'', FieldConfig (Some idType) (Some []) None None)] []
     [(''directives'', JDirectives [(''infer'', []), (''nodeInterface'', [])])]"

text \<open>
  An object type of the registry that implements a queryable interface (an interface of
  the registry whose \<open>nodeInterface\<close> extension is set) without implementing \<open>Node\<close>.
\<close>

definition violatesQueryable :: "schemaComposer \<Rightarrow> typeComposer \<Rightarrow> bool" where
  "violatesQueryable sc t =
     (tkind t = ObjectKind \<and>
      (\<exists>i\<in>set (types sc). tkind i = InterfaceKind \<and> extensionTruthy i ''nodeInterface'' \<and>
                           tname i \<in> set (tinterfaces t)) \<and>
      ''Node'' \<notin> set (tinterfaces t))"

definition queryableRegistry :: schemaComposer where
  "queryableRegistry =
     \<lparr>types = [newType ''I'' InterfaceKind [] [] [(''nodeInterface'', JBool True)],
               newType ''A'' ObjectKind [] [''Node'', ''I''] [],
               newType ''B'' ObjectKind [] [''I''] [],
               newType ''C'' ObjectKind [] [''I''] []],
      mustHave = [], reports = []\<rparr>"

text \<open>
  The condition under which an override of an existing field is said to be applied: it
  gives no return type, or the type it gives is the existing one once the non-null marks
  are taken away, or the target type comes from a third-party schema.
\<close>

definition overrideAllowed :: "typeComposer \<Rightarrow> resolverConfig \<Rightarrow> string \<Rightarrow> bool" where
  "overrideAllowed tc fieldConfig originalTypeName =
     (\<not> typeArgTruthy (rtype fieldConfig) \<or>
      (\<exists>given. rtype fieldConfig = Some given \<and>
               stripNonNull (typeArgText given) = stripNonNull originalTypeName) \<or>
      getExtension tc ''createdFrom'' = Some (JStr ''thirdPartySchema''))"

definition fooWithBar :: "string \<Rightarrow> typeComposer" where
  "fooWithBar barType = newType ''Foo'' ObjectKind
     [(''bar'', FieldConfig (Some barType) (Some []) None None)] [] []"

definition stringOverride :: resolverConfig where
  "stringOverride = \<lparr>rtype = Some (TypeName ''String''), rargs = None, rresolve = Some (Fn ''fn'')\<rparr>"

definition overriddenConfig :: "typeComposer \<Rightarrow> resolverConfig \<Rightarrow> fieldConfig \<Rightarrow> fieldConfig" where
  "overriddenConfig tc fc c =
     (let c1 = (if rresolve fc \<noteq> None then setFieldExtension c ''needsResolve'' (JBool True) else c);
          c2 = extendConfig c1 (newConfig fc (fresolve c))
      in if isThirdParty tc then setFieldExtension c2 ''originalFieldConfig'' (JConfig c) else c2)"

text \<open>
  GraphQL types as they are printed: a named type, a list of a type, a non-null type.
  \<open>renamed n t\<close> is \<open>t\<close> with \<open>n\<close> as its named type, under the same wrappers. A plain
  name is non-empty and has none of the characters of the wrappers.
\<close>

datatype gtype = Named string | ListOf gtype | NonNull gtype

fun printType :: "gtype \<Rightarrow> string" where
  "printType (Named n) = n"
| "printType (ListOf t) = ''['' @ printType t @ '']''"
| "printType (NonNull t) = printType t @ ''!''"

fun namedType :: "gtype \<Rightarrow> string" where
  "namedType (Named n) = n"
| "namedType (ListOf t) = namedType t"
| "namedType (NonNull t) = namedType t"

fun renamed :: "string \<Rightarrow> gtype \<Rightarrow> gtype" where
  "renamed m (Named n) = Named m"
| "renamed m (ListOf t) = ListOf (renamed m t)"
| "renamed m (NonNull t) = NonNull (renamed m t)"

definition plainName :: "string \<Rightarrow> bool" where
  "plainName n = (n \<noteq> [] \<and> stripWrappers n = n)"

text \<open>
  The field configuration that \<open>processThirdPartyTypeFields\<close> leaves for a field that
  has a type.
\<close>

definition rewriteTyped :: "string \<Rightarrow> fieldConfig \<Rightarrow> fieldConfig" where
  "rewriteTyped q c = (case rewriteQueryType q c of Inr c' \<Rightarrow> c' | Inl e \<Rightarrow> c)"

text \<open>
  A type of a third-party schema as graphql-js builds it: its field names are distinct and
  every field that stays after the reset has a type. A schema: the names of its type map
  are distinct, its query type is an object type and its types are of that form.
\<close>

definition wellFormedType :: "typeComposer \<Rightarrow> bool" where
  "wellFormedType t =
     (distinct (map fst (tfields t)) \<and>
      list_all (\<lambda>fld. ftype (snd fld) \<noteq> None) (tfields (resetOverriddenThirdPartyTypeFields t)))"

definition wellFormedSchema :: "thirdPartySchema \<Rightarrow> bool" where
  "wellFormedSchema schema =
     (distinct (map tname (typeMap schema)) \<and> tkind (queryType schema) = ObjectKind \<and>
      wellFormedType (queryType schema) \<and> list_all wellFormedType (typeMap schema))"

text \<open>
  What the reset does with one field: \<open>None\<close> when the field is removed, the recorded
  configuration when there is one, the field itself otherwise.
\<close>

definition taggedCreateResolvers :: "fieldConfig \<Rightarrow> bool" where
  "taggedCreateResolvers c =
     (map_of (getFieldExtensions c) ''createdFrom'' = Some (JStr ''createResolvers''))"

definition resetConfig :: "fieldConfig \<Rightarrow> fieldConfig option" where
  "resetConfig c =
     (if taggedCreateResolvers c then None
      else (case map_of (getFieldExtensions c) ''originalFieldConfig'' of
              None \<Rightarrow> Some c
            | Some config \<Rightarrow> if truthy config then Some (asFieldConfig config) else Some c))"

text \<open>
  The types of a third-party schema that are not imported: its query type, the specified
  scalars (\<open>String\<close>, \<open>Int\<close>, \<open>Float\<close>, \<open>Boolean\<close>, \<open>ID\<close>), the introspection types,
  and any type named \<open>Date\<close> or \<open>JSON\<close>.
\<close>

definition exceptedType :: "typeComposer \<Rightarrow> typeComposer \<Rightarrow> bool" where
  "exceptedType queryRoot t =
     (tname t = tname queryRoot \<or>
      (tkind t = ScalarKind \<and> tname t \<in> set [''String'', ''Int'', ''Float'', ''Boolean'', ''ID'']) \<or>
      tname t \<in> set [''__Schema'', ''__Directive'', ''__DirectiveLocation'', ''__Type'',
                      ''__Field'', ''__InputValue'', ''__EnumValue'', ''__TypeKind''] \<or>
      tname t = ''Date'' \<or> tname t = ''JSON'')"

text \<open>
  The composer that the import registers for a type of a third-party schema whose query
  type is named \<open>q\<close>.
\<close>

definition processedType :: "string \<Rightarrow> typeComposer \<Rightarrow> typeComposer" where
  "processedType q t =
     (if tkind t = ObjectKind \<or> tkind t = InterfaceKind
      then (case processThirdPartyTypeFields t q of Inr tc \<Rightarrow> tc | Inl e \<Rightarrow> t)
      else t)"

definition importedType :: "string \<Rightarrow> typeComposer \<Rightarrow> typeComposer" where
  "importedType q t = setExtension (processedType q t) ''createdFrom'' (JStr ''thirdPartySchema'')"

definition rootType :: typeComposer where
  "rootType = newType ''Root'' ObjectKind
     [(''users'', FieldConfig (Some ''[User!]!'') (Some []) None None)] [] []"

definition userType :: typeComposer where
  "userType = newType ''User'' ObjectKind
     [(''name'', FieldConfig (Some ''String'') (Some []) None None),
      (''viewer'', FieldConfig (Some ''[Root!]!'') (Some []) (Some (Fn ''viewer'')) None)] [] []"

definition exampleSchema :: thirdPartySchema where
  "exampleSchema =
     \<lparr>queryType = rootType,
      typeMap = [rootType, userType, newType ''String'' ScalarKind [] [] [],
                 newType ''__Schema'' ObjectKind [] [] [], newType ''JSON'' ObjectKind [] [] []]\<rparr>"

text \<open>
  The configuration that \<open>createResolvers\<close> stores for a field that the type did not have.
\<close>

definition addedConfig :: "resolverConfig \<Rightarrow> fieldConfig" where
  "addedConfig fc =
     setFieldExtension
       (FieldConfig (map_option typeArgText (rtype fc)) (rargs fc) (rresolve fc) None)
       ''createdFrom'' (JStr ''createResolvers'')"

text \<open>
  A type of a third-party schema that no \<open>createResolvers\<close> has touched: an object type
  with distinct field names, each field with a type, none tagged \<open>createResolvers\<close> and
  none with a recorded original configuration.
\<close>

definition untouchedField :: "fieldConfig \<Rightarrow> bool" where
  "untouchedField c =
     (ftype c \<noteq> None \<and> \<not> taggedCreateResolvers c \<and>
      map_of (getFieldExtensions c) ''originalFieldConfig'' = None)"

definition untouchedType :: "typeComposer \<Rightarrow> bool" where
  "untouchedType t =
     (tkind t = ObjectKind \<and> distinct (map fst (tfields t)) \<and>
      list_all (\<lambda>fld. untouchedField (snd fld)) (tfields t))"

text \<open>
  The type \<open>User\<close> of the example schema after its import and one call of
  \<open>createResolvers\<close> that gives the field \<open>name\<close> the resolver \<open>f\<close>, and after a
  second call in the same build that gives it the resolver \<open>g\<close>.
\<close>

definition fnOverride :: "string \<Rightarrow> resolverConfig" where
  "fnOverride f = \<lparr>rtype = None, rargs = None, rresolve = Some (Fn f)\<rparr>"

definition overriddenOnce :: typeComposer where
  "overriddenOnce =
     (case createResolversFields (importedType ''Root'' userType) ''User''
             [(''name'', fnOverride ''f'')] of
        Inr r \<Rightarrow> fst r
      | Inl e \<Rightarrow> userType)"

definition overriddenTwice :: typeComposer where
  "overriddenTwice =
     (case createResolversFields overriddenOnce ''User'' [(''name'', fnOverride ''g'')] of
        Inr r \<Rightarrow> fst r
      | Inl e \<Rightarrow> userType)"

text \<open>
  The notions of the statement about convenience fields, for a parent type \<open>P\<close>: the
  children found through the \<open>children\<close> lists of its instances, the child types
  observed among them, the observed children of a type \<open>C\<close>, how many of these name the
  node \<open>k\<close> as their \<open>parent\<close>, whether some node is named as parent by more than one of
  them, and the name of the convenience field chosen accordingly.
\<close>

definition observedChildren :: "nodeStore \<Rightarrow> string \<Rightarrow> node list" where
  "observedChildren st P = concat (map (childNodes st) (getNodesByType st P))"

definition observedChildTypes :: "nodeStore \<Rightarrow> string \<Rightarrow> string list" where
  "observedChildTypes st P = remdups (map typeKey (observedChildren st P))"

definition childrenOfType :: "nodeStore \<Rightarrow> string \<Rightarrow> string \<Rightarrow> node list" where
  "childrenOfType st P C = filter (\<lambda>c. typeKey c = C) (observedChildren st P)"

definition sharingParent :: "nodeStore \<Rightarrow> string \<Rightarrow> string \<Rightarrow> string \<Rightarrow> nat" where
  "sharingParent st P C k = length (filter (\<lambda>c. parentKey c = k) (childrenOfType st P C))"

definition pluralFor :: "nodeStore \<Rightarrow> string \<Rightarrow> string \<Rightarrow> bool" where
  "pluralFor st P C =
     list_ex (\<lambda>c. 1 < sharingParent st P C (parentKey c)) (childrenOfType st P C)"

definition convenienceName :: "nodeStore \<Rightarrow> string \<Rightarrow> string \<Rightarrow> string" where
  "convenienceName st P C =
     (if pluralFor st P C then convenienceChildren st C else convenienceChild st C)"

text \<open>
  The number of children of type \<open>C\<close> under one parent instance, and a store in which
  the instances \<open>nodes\<close> have distinct ids and every child names as its \<open>parent\<close> the
  instance that lists it.
\<close>

definition childCount :: "nodeStore \<Rightarrow> string \<Rightarrow> node \<Rightarrow> nat" where
  "childCount st C parent = length (filter (\<lambda>c. typeKey c = C) (childNodes st parent))"

definition storeConsistent :: "nodeStore \<Rightarrow> node list \<Rightarrow> bool" where
  "storeConsistent st nodes =
     (distinct (map nid nodes) \<and>
      list_all (\<lambda>n. list_all (\<lambda>c. nparent c = Some (nid n)) (childNodes st n)) nodes)"

text \<open>
  A child type on which the check made for a parent type with \<open>infer\<close> set to \<open>false\<close>
  does not throw: it is registered, and its \<open>childOf\<close> extension, when truthy, has
  \<open>types\<close>.
\<close>

definition childOfReadable :: "schemaComposer \<Rightarrow> string \<Rightarrow> string \<Rightarrow> bool" where
  "childOfReadable sc parentTypeName C =
     (case getTC sc C of
        None \<Rightarrow> False
      | Some t \<Rightarrow>
          (case getExtension t ''childOf'' of
             None \<Rightarrow> True
           | Some ext \<Rightarrow> \<not> truthy ext \<or> \<not> isl (childOfIncludes ext parentTypeName)))"

text \<open>The field map that a round of the loop adds.\<close>

definition chosenFields :: "nodeStore \<Rightarrow> string \<times> node list \<Rightarrow> (string \<times> fieldConfig) list" where
  "chosenFields st entry =
     (case maxChildCount (snd entry) of
        Inl e \<Rightarrow> []
      | Inr m \<Rightarrow> if 1 < m then createChildrenField st (fst entry)
                 else createChildField st (fst entry))"

text \<open>
  Two stores of nodes, with \<open>_.camelCase\<close> as it is on the names used here (the words
  joined). In \<open>familyStore\<close> the parent type \<open>P\<close> has three instances, with none, one and
  two children of type \<open>C\<close>, and one child of type \<open>D\<close>; every child names its parent.
  In \<open>orphanStore\<close> the parent type \<open>P\<close> has two instances with one child of type \<open>C\<close>
  each, and neither child has a \<open>parent\<close>.
\<close>

definition typedNode :: "string \<Rightarrow> string \<Rightarrow> string option \<Rightarrow> string list \<Rightarrow> node" where
  "typedNode t i p cs = \<lparr>nid = i, nparent = p, nchildren = Some cs, ninternal = Some (Some t)\<rparr>"

definition storeOf :: "node list \<Rightarrow> nodeStore" where
  "storeOf ns =
     \<lparr>getNodesByType = (\<lambda>t. filter (\<lambda>n. ninternal n = Some (Some t)) ns),
      getNode = (\<lambda>i. find (\<lambda>n. nid n = i) ns),
      camelCase = filter (\<lambda>c. c \<noteq> CHR '' '')\<rparr>"

definition familyStore :: nodeStore where
  "familyStore = storeOf
     [typedNode ''P'' ''p0'' None [],
      typedNode ''P'' ''p1'' None [''a'', ''d''],
      typedNode ''P'' ''p2'' None [''b'', ''c''],
      typedNode ''C'' ''a'' (Some ''p1'') [],
      typedNode ''C'' ''b'' (Some ''p2'') [],
      typedNode ''C'' ''c'' (Some ''p2'') [],
      typedNode ''D'' ''d'' (Some ''p1'') []]"

definition orphanStore :: nodeStore where
  "orphanStore = storeOf
     [typedNode ''P'' ''p1'' None [''a''],
      typedNode ''P'' ''p2'' None [''b''],
      typedNode ''C'' ''a'' None [],
      typedNode ''C'' ''b'' None []]"

definition parentP :: typeComposer where
  "parentP = newType ''P'' ObjectKind [] [''Node''] []"

section \<open>Properties\<close>

subsection \<open>Association lists and strings\<close>

lemma map_of_aset: "map_of (aset k v ps) = (map_of ps)(k \<mapsto> v)"
  by (induction ps) (auto simp: fun_eq_iff)

lemma aspread_Nil [simp]: "aspread base [] = base"
  by (simp add: aspread_def)

lemma map_of_aspread:
  "map_of (aspread base over) k =
     (case map_of (rev over) k of Some v \<Rightarrow> Some v | None \<Rightarrow> map_of base k)"
  unfolding aspread_def
proof (induction over arbitrary: base)
  case Nil
  then show ?case by simp
next
  case (Cons p over)
  show ?case
    by (simp add: Cons.IH map_of_aset map_add_def[symmetric] split: option.splits)
       (auto simp: map_add_def split: option.splits)
qed

lemma map_of_map_snd:
  "map_of (map (\<lambda>fld. (fst fld, g (snd fld))) l) f = map_option g (map_of l f)"
  by (induction l) auto

lemma sublist_here: "sublist xs (xs @ ss)"
  by (metis append_Nil sublist_appendI)

lemma sublist_skip: "sublist xs ys \<Longrightarrow> sublist xs (z # ys)"
  by (metis sublist_Cons_right)

subsection \<open>The name check\<close>

lemma assertValidName_names:
  "assertValidName name = Inl e \<Longrightarrow> \<exists>msg. e = Thrown msg \<and> sublist name msg"
  unfolding assertValidName_def
  by (auto split: if_splits intro!: sublist_skip sublist_here)

lemma assertValidName_invalid:
  "\<not> matchesNameRx name \<Longrightarrow> \<exists>msg. assertValidName name = Inl (Thrown msg)"
  unfolding assertValidName_def by auto

lemma node_msg: "sublist ''Node'' ''The GraphQL type `Node` is reserved for internal use.''"
  by code_simp

lemma check_names:
  "checkIsAllowedTypeName name = Inl e \<Longrightarrow> \<exists>msg. e = Thrown msg \<and> sublist name msg"
  unfolding checkIsAllowedTypeName_def
  using node_msg
  by (auto split: if_splits intro!: sublist_skip sublist_here dest: assertValidName_names)

lemma check_reserved:
  "reservedOrInvalidName name \<Longrightarrow> \<exists>e. checkIsAllowedTypeName name = Inl e"
  unfolding checkIsAllowedTypeName_def reservedOrInvalidName_def
  using assertValidName_invalid[of name]
  by (auto split: if_splits)

subsection \<open>Extensions of a type\<close>

lemma setExtension_keeps [simp]:
  "tname (setExtension tc k v) = tname tc" "tkind (setExtension tc k v) = tkind tc"
  "tfields (setExtension tc k v) = tfields tc" "tinterfaces (setExtension tc k v) = tinterfaces tc"
  by (simp_all add: setExtension_def)

lemma getExtension_setExtension:
  "getExtension (setExtension tc k v) k' = (if k' = k then Some v else getExtension tc k')"
  by (simp add: getExtension_def setExtension_def map_of_aset)

lemma nodeInterfaceIdOk_cong: "tfields a = tfields b \<Longrightarrow> nodeInterfaceIdOk a = nodeInterfaceIdOk b"
  by (simp add: nodeInterfaceIdOk_def hasField_def)

lemma nodeInterfaceIdOk_iff:
  "nodeInterfaceIdOk tc = (\<exists>c. map_of (tfields tc) ''id'' = Some c \<and> ftype c = Some ''ID!'')"
  by (auto simp: nodeInterfaceIdOk_def hasField_def split: option.splits)

text \<open>The five shapes of a directive step.\<close>

lemma directiveStep_cases:
  "directiveStep tc d = Inl (Panic (nodeInterfacePanic (tname tc))) \<and>
     fst d = ''nodeInterface'' \<and> tkind tc = InterfaceKind \<and> \<not> nodeInterfaceIdOk tc
   \<or> directiveStep tc d = Inr (setExtension tc ''nodeInterface'' (JBool True)) \<and>
     fst d = ''nodeInterface'' \<and> tkind tc = InterfaceKind \<and> nodeInterfaceIdOk tc
   \<or> directiveStep tc d = Inr tc \<and> (fst d = ''nodeInterface'' \<longrightarrow> tkind tc \<noteq> InterfaceKind)
   \<or> (\<exists>k v. directiveStep tc d = Inr (setExtension tc k v) \<and> k \<noteq> ''nodeInterface'' \<and>
        fst d \<noteq> ''nodeInterface'')
   \<or> (\<exists>k v k' v'. directiveStep tc d = Inr (setExtension (setExtension tc k v) k' v') \<and>
        k \<noteq> ''nodeInterface'' \<and> k' \<noteq> ''nodeInterface'' \<and> fst d \<noteq> ''nodeInterface'')"
proof -
  consider (inf) "fst d = ''infer'' \<or> fst d = ''dontInfer''"
    | (mime) "fst d = ''mimeTypes''" | (child) "fst d = ''childOf''"
    | (ni) "fst d = ''nodeInterface''"
    | (other) "fst d \<noteq> ''infer''" "fst d \<noteq> ''dontInfer''" "fst d \<noteq> ''mimeTypes''"
        "fst d \<noteq> ''childOf''" "fst d \<noteq> ''nodeInterface''"
    by blast
  then show ?thesis
  proof cases
    case inf
    show ?thesis
    proof (cases "map_of (snd d) ''noDefaultResolvers''")
      case None
      with inf have "directiveStep tc d = Inr (setExtension tc ''infer'' (JBool (fst d = ''infer'')))"
        by (auto simp: directiveStep_def Let_def)
      moreover have "fst d \<noteq> ''nodeInterface''" using inf by auto
      ultimately show ?thesis by blast
    next
      case (Some v)
      show ?thesis
      proof (cases "v = JNull")
        case True
        with inf Some have "directiveStep tc d = Inr (setExtension tc ''infer'' (JBool (fst d = ''infer'')))"
          by (auto simp: directiveStep_def Let_def)
        moreover have "fst d \<noteq> ''nodeInterface''" using inf by auto
        ultimately show ?thesis by blast
      next
        case False
        with inf Some have "directiveStep tc d =
           Inr (setExtension (setExtension tc ''infer'' (JBool (fst d = ''infer'')))
                  ''addDefaultResolvers'' (JBool (\<not> truthy v)))"
          by (cases v) (auto simp: directiveStep_def Let_def)
        moreover have "fst d \<noteq> ''nodeInterface''" using inf by auto
        ultimately show ?thesis by blast
      qed
    qed
  next
    case mime
    then have "directiveStep tc d = Inr (setExtension tc ''mimeTypes'' (JObj (snd d)))"
      by (simp add: directiveStep_def Let_def)
    moreover have "fst d \<noteq> ''nodeInterface''" using mime by auto
    ultimately show ?thesis by blast
  next
    case child
    then have "directiveStep tc d = Inr (setExtension tc ''childOf'' (JObj (snd d)))"
      by (simp add: directiveStep_def Let_def)
    moreover have "fst d \<noteq> ''nodeInterface''" using child by auto
    ultimately show ?thesis by blast
  next
    case ni
    then show ?thesis by (simp add: directiveStep_def Let_def)
  next
    case other
    then show ?thesis by (simp add: directiveStep_def Let_def)
  qed
qed

lemma directiveStep_keeps:
  assumes "directiveStep tc d = Inr tc'"
  shows "tname tc' = tname tc \<and> tkind tc' = tkind tc \<and> tfields tc' = tfields tc \<and>
         tinterfaces tc' = tinterfaces tc"
  using directiveStep_cases[of tc d] assms by auto

lemma directiveStep_fails_iff:
  "(\<exists>e. directiveStep tc d = Inl e) =
     (fst d = ''nodeInterface'' \<and> tkind tc = InterfaceKind \<and> \<not> nodeInterfaceIdOk tc)"
  using directiveStep_cases[of tc d] by auto

lemma directiveStep_panic:
  "directiveStep tc d = Inl e \<Longrightarrow> e = Panic (nodeInterfacePanic (tname tc))"
  using directiveStep_cases[of tc d] by auto

lemma processDirectives_Inr_Cons:
  "processDirectives tc (d # ds) = Inr tc' \<Longrightarrow>
   \<exists>tc1. directiveStep tc d = Inr tc1 \<and> processDirectives tc1 ds = Inr tc'"
  by (cases "directiveStep tc d") simp_all

lemma processDirectives_keeps:
  "processDirectives tc ds = Inr tc' \<Longrightarrow>
   tname tc' = tname tc \<and> tkind tc' = tkind tc \<and> tfields tc' = tfields tc \<and>
   tinterfaces tc' = tinterfaces tc"
proof (induction ds arbitrary: tc)
  case Nil
  then show ?case by simp
next
  case (Cons d ds)
  from processDirectives_Inr_Cons[OF Cons.prems] obtain tc1
    where s: "directiveStep tc d = Inr tc1" and r: "processDirectives tc1 ds = Inr tc'"
    by blast
  from Cons.IH[OF r] directiveStep_keeps[OF s] show ?case by simp
qed

lemma processDirectives_fails_iff:
  "(\<exists>e. processDirectives tc ds = Inl e) =
     (''nodeInterface'' \<in> fst ` set ds \<and> tkind tc = InterfaceKind \<and> \<not> nodeInterfaceIdOk tc)"
proof (induction ds arbitrary: tc)
  case Nil
  then show ?case by simp
next
  case (Cons d ds)
  show ?case
  proof (cases "directiveStep tc d")
    case (Inl e)
    then have "fst d = ''nodeInterface'' \<and> tkind tc = InterfaceKind \<and> \<not> nodeInterfaceIdOk tc"
      using directiveStep_fails_iff[of tc d] by blast
    with Inl show ?thesis by simp
  next
    case (Inr tc')
    have k: "tkind tc' = tkind tc" "nodeInterfaceIdOk tc' = nodeInterfaceIdOk tc"
      using directiveStep_keeps[OF Inr] nodeInterfaceIdOk_cong[of tc' tc] by simp_all
    have nf: "\<not> (fst d = ''nodeInterface'' \<and> tkind tc = InterfaceKind \<and> \<not> nodeInterfaceIdOk tc)"
      using directiveStep_fails_iff[of tc d] Inr by simp
    have "(\<exists>e. processDirectives tc (d # ds) = Inl e) = (\<exists>e. processDirectives tc' ds = Inl e)"
      using Inr by simp
    also have "\<dots> = (''nodeInterface'' \<in> fst ` set ds \<and> tkind tc = InterfaceKind \<and> \<not> nodeInterfaceIdOk tc)"
      using Cons.IH[of tc'] k by simp
    finally show ?thesis using nf by auto
  qed
qed

lemma processDirectives_panic:
  "processDirectives tc ds = Inl e \<Longrightarrow> e = Panic (nodeInterfacePanic (tname tc))"
proof (induction ds arbitrary: tc)
  case Nil
  then show ?case by simp
next
  case (Cons d ds)
  show ?case
  proof (cases "directiveStep tc d")
    case (Inl e')
    with Cons.prems have "e' = e" by simp
    with directiveStep_panic[OF Inl] show ?thesis by simp
  next
    case (Inr tc')
    with Cons.prems have "processDirectives tc' ds = Inl e" by simp
    from Cons.IH[OF this] directiveStep_keeps[OF Inr] show ?thesis by simp
  qed
qed

lemma directiveStep_keeps_ni:
  assumes "directiveStep tc d = Inr tc'"
    and "getExtension tc ''nodeInterface'' = Some (JBool True)"
  shows "getExtension tc' ''nodeInterface'' = Some (JBool True)"
  using directiveStep_cases[of tc d] assms
  by (auto simp: getExtension_setExtension)

lemma directiveStep_sets_ni:
  assumes "directiveStep tc d = Inr tc'" and "fst d = ''nodeInterface''"
    and "tkind tc = InterfaceKind"
  shows "getExtension tc' ''nodeInterface'' = Some (JBool True)"
  using directiveStep_cases[of tc d] assms
  by (auto simp: getExtension_setExtension)

lemma directiveStep_non_interface_ni:
  assumes "directiveStep tc d = Inr tc'" and "tkind tc \<noteq> InterfaceKind"
  shows "getExtension tc' ''nodeInterface'' = getExtension tc ''nodeInterface''"
  using directiveStep_cases[of tc d] assms
  by (auto simp: getExtension_setExtension)

lemma processDirectives_sets_ni:
  "processDirectives tc ds = Inr tc' \<Longrightarrow>
   getExtension tc ''nodeInterface'' = Some (JBool True) \<or>
     (''nodeInterface'' \<in> fst ` set ds \<and> tkind tc = InterfaceKind) \<Longrightarrow>
   getExtension tc' ''nodeInterface'' = Some (JBool True)"
proof (induction ds arbitrary: tc)
  case Nil
  then show ?case by simp
next
  case (Cons d ds)
  from processDirectives_Inr_Cons[OF Cons.prems(1)] obtain tc1
    where s: "directiveStep tc d = Inr tc1" and r: "processDirectives tc1 ds = Inr tc'"
    by blast
  have "getExtension tc1 ''nodeInterface'' = Some (JBool True) \<or>
     (''nodeInterface'' \<in> fst ` set ds \<and> tkind tc1 = InterfaceKind)"
  proof (cases "getExtension tc ''nodeInterface'' = Some (JBool True)")
    case True
    then show ?thesis using directiveStep_keeps_ni[OF s] by simp
  next
    case False
    with Cons.prems(2) have in_ds: "''nodeInterface'' \<in> fst ` set (d # ds)"
      and kd: "tkind tc = InterfaceKind" by simp_all
    show ?thesis
    proof (cases "fst d = ''nodeInterface''")
      case True
      then show ?thesis using directiveStep_sets_ni[OF s True kd] by simp
    next
      case False
      with in_ds have "''nodeInterface'' \<in> fst ` set ds" by auto
      then show ?thesis using kd directiveStep_keeps[OF s] by simp
    qed
  qed
  from Cons.IH[OF r this] show ?case .
qed

lemma processDirectives_non_interface_ni:
  "processDirectives tc ds = Inr tc' \<Longrightarrow> tkind tc \<noteq> InterfaceKind \<Longrightarrow>
   getExtension tc' ''nodeInterface'' = getExtension tc ''nodeInterface''"
proof (induction ds arbitrary: tc)
  case Nil
  then show ?case by simp
next
  case (Cons d ds)
  from processDirectives_Inr_Cons[OF Cons.prems(1)] obtain tc1
    where s: "directiveStep tc d = Inr tc1" and r: "processDirectives tc1 ds = Inr tc'"
    by blast
  have "tkind tc1 \<noteq> InterfaceKind" using directiveStep_keeps[OF s] Cons.prems(2) by simp
  from Cons.IH[OF r this] directiveStep_non_interface_ni[OF s Cons.prems(2)]
  show ?case by simp
qed

lemma directiveStep_ignored:
  "tkind tc \<noteq> InterfaceKind \<Longrightarrow> directiveStep tc (''nodeInterface'', args) = Inr tc"
  by (simp add: directiveStep_def)

lemma processDirectives_filter:
  "tkind tc \<noteq> InterfaceKind \<Longrightarrow>
   processDirectives tc ds = processDirectives tc (filter (\<lambda>d. fst d \<noteq> ''nodeInterface'') ds)"
proof (induction ds arbitrary: tc)
  case Nil
  then show ?case by simp
next
  case (Cons d ds)
  show ?case
  proof (cases "fst d = ''nodeInterface''")
    case True
    then have "d = (''nodeInterface'', snd d)" by (cases d) simp
    then have "directiveStep tc d = Inr tc"
      using directiveStep_ignored[OF Cons.prems, of "snd d"] by simp
    with True Cons.IH[OF Cons.prems] show ?thesis by simp
  next
    case False
    show ?thesis
    proof (cases "directiveStep tc d")
      case (Inl e)
      with False show ?thesis by simp
    next
      case (Inr tc1)
      have "tkind tc1 \<noteq> InterfaceKind" using directiveStep_keeps[OF Inr] Cons.prems by simp
      from Cons.IH[OF this] Inr False show ?thesis by simp
    qed
  qed
qed

subsection \<open>addExtensions\<close>

lemma getDirectives_aset:
  "k \<noteq> ''directives'' \<Longrightarrow> getDirectives (aset k v e) = getDirectives e"
  by (simp add: getDirectives_def map_of_aset)

lemma stamped_keeps [simp]:
  "tname (stamped plugin cf tc) = tname tc" "tkind (stamped plugin cf tc) = tkind tc"
  "tfields (stamped plugin cf tc) = tfields tc" "tinterfaces (stamped plugin cf tc) = tinterfaces tc"
  "getDirectives (textensions (stamped plugin cf tc)) = getDirectives (textensions tc)"
  "getExtension (stamped plugin cf tc) ''nodeInterface'' = getExtension tc ''nodeInterface''"
  by (simp_all add: stamped_def getExtension_setExtension)
     (simp add: setExtension_def getDirectives_aset)

lemma addTypeExtensions_alt:
  "addTypeExtensions plugin cf tc =
     (if cf = ''sdl''
      then processDirectives (stamped plugin cf tc) (getDirectives (textensions tc))
      else Inr (stamped plugin cf tc))"
  by (simp add: addTypeExtensions_def Let_def stamped_def[symmetric])

lemma addTypeExtensions_keeps:
  assumes "addTypeExtensions plugin cf tc = Inr tc'"
  shows "tname tc' = tname tc \<and> tkind tc' = tkind tc \<and> tfields tc' = tfields tc \<and>
         tinterfaces tc' = tinterfaces tc"
proof (cases "cf = ''sdl''")
  case True
  with assms have "processDirectives (stamped plugin cf tc) (getDirectives (textensions tc)) = Inr tc'"
    by (simp add: addTypeExtensions_alt)
  from processDirectives_keeps[OF this] show ?thesis by simp
next
  case False
  with assms have "tc' = stamped plugin cf tc" by (simp add: addTypeExtensions_alt)
  then show ?thesis by simp
qed

lemma addTypeExtensions_fails_iff:
  "(\<exists>e. addTypeExtensions plugin cf tc = Inl e) =
     (cf = ''sdl'' \<and> ''nodeInterface'' \<in> fst ` set (getDirectives (textensions tc)) \<and>
      tkind tc = InterfaceKind \<and> \<not> nodeInterfaceIdOk tc)"
proof (cases "cf = ''sdl''")
  case True
  have "nodeInterfaceIdOk (stamped plugin cf tc) = nodeInterfaceIdOk tc"
    by (rule nodeInterfaceIdOk_cong) simp
  with True show ?thesis
    by (simp add: addTypeExtensions_alt processDirectives_fails_iff)
next
  case False
  then show ?thesis by (simp add: addTypeExtensions_alt)
qed

lemma addTypeExtensions_panic:
  assumes "addTypeExtensions plugin cf tc = Inl e"
  shows "e = Panic (nodeInterfacePanic (tname tc))"
proof (cases "cf = ''sdl''")
  case True
  with assms have "processDirectives (stamped plugin cf tc) (getDirectives (textensions tc)) = Inl e"
    by (simp add: addTypeExtensions_alt)
  from processDirectives_panic[OF this] show ?thesis by simp
next
  case False
  with assms show ?thesis by (simp add: addTypeExtensions_alt)
qed

lemma addExtensions_Inr:
  "addExtensions env plugin cf tc = Inr r \<Longrightarrow>
   \<exists>tc3. addTypeExtensions plugin cf tc = Inr tc3 \<and> r = addFieldsExtensions env plugin cf tc3"
  by (cases "addTypeExtensions plugin cf tc") (simp_all add: addExtensions_def)

lemma addExtensions_Inl:
  "addExtensions env plugin cf tc = Inl e \<Longrightarrow> addTypeExtensions plugin cf tc = Inl e"
  by (cases "addTypeExtensions plugin cf tc") (simp_all add: addExtensions_def)

lemma addExtensions_fails_iff:
  "(\<exists>e. addExtensions env plugin cf tc = Inl e) =
     (cf = ''sdl'' \<and> ''nodeInterface'' \<in> fst ` set (getDirectives (textensions tc)) \<and>
      tkind tc = InterfaceKind \<and> \<not> nodeInterfaceIdOk tc)"
proof -
  have "(\<exists>e. addExtensions env plugin cf tc = Inl e) = (\<exists>e. addTypeExtensions plugin cf tc = Inl e)"
    by (cases "addTypeExtensions plugin cf tc") (simp_all add: addExtensions_def)
  then show ?thesis by (simp add: addTypeExtensions_fails_iff)
qed

lemma addExtensions_panic:
  "addExtensions env plugin cf tc = Inl e \<Longrightarrow> e = Panic (nodeInterfacePanic (tname tc))"
  using addTypeExtensions_panic[OF addExtensions_Inl] .

lemma addFieldsExtensions_keeps [simp]:
  "tname (fst (addFieldsExtensions env plugin cf tc)) = tname tc"
  "tkind (fst (addFieldsExtensions env plugin cf tc)) = tkind tc"
  "tinterfaces (fst (addFieldsExtensions env plugin cf tc)) = tinterfaces tc"
  "textensions (fst (addFieldsExtensions env plugin cf tc)) = textensions tc"
  by (simp_all add: addFieldsExtensions_def Let_def)

lemma fieldCore_setFieldExtension [simp]: "fieldCore (setFieldExtension c k v) = fieldCore c"
  by (simp add: fieldCore_def setFieldExtension_def setFieldExtensions_def)

lemma fieldCore_setFieldExtensions [simp]: "fieldCore (setFieldExtensions c e) = fieldCore c"
  by (simp add: fieldCore_def setFieldExtensions_def)

lemma fieldCore_foldl_ext:
  "fieldCore (foldl (\<lambda>c d. setFieldExtension c (fst d) (JObj (snd d))) c ds) = fieldCore c"
  by (induction ds arbitrary: c) simp_all

lemma addFieldExtensions_core:
  "fst (fst (addFieldExtensions env plugin cf n fld)) = fst fld"
  "fieldCore (snd (fst (addFieldExtensions env plugin cf n fld))) = fieldCore (snd fld)"
  by (simp_all add: addFieldExtensions_def Let_def fieldCore_foldl_ext)

lemma addFieldsExtensions_cores:
  "fieldCores (fst (addFieldsExtensions env plugin cf tc)) = fieldCores tc"
  by (simp add: addFieldsExtensions_def Let_def fieldCores_def addFieldExtensions_core comp_def)

lemma addExtensions_keeps:
  assumes "addExtensions env plugin cf tc = Inr r"
  shows "tname (fst r) = tname tc \<and> tkind (fst r) = tkind tc \<and>
         fieldCores (fst r) = fieldCores tc \<and> tinterfaces (fst r) = tinterfaces tc"
proof -
  from addExtensions_Inr[OF assms] obtain tc3
    where t: "addTypeExtensions plugin cf tc = Inr tc3" and r: "r = addFieldsExtensions env plugin cf tc3"
    by blast
  have "fieldCores tc3 = fieldCores tc"
    using addTypeExtensions_keeps[OF t] by (simp add: fieldCores_def)
  with addTypeExtensions_keeps[OF t] r show ?thesis
    by (simp add: addFieldsExtensions_cores)
qed

lemma map_of_fieldCores:
  "map_of (fieldCores tc) f = map_option fieldCore (map_of (tfields tc) f)"
  unfolding fieldCores_def by (rule map_of_map_snd)


subsection \<open>mergeFields, mergeTypes\<close>

lemma mergeField_fields:
  "map_of (tfields (mergeField tc fld)) f =
     (if f = fst fld
      then (case map_of (tfields tc) f of
              Some prev \<Rightarrow> Some (extendField prev (snd fld))
            | None \<Rightarrow> Some (toFieldConfig (snd fld)))
      else map_of (tfields tc) f)"
  unfolding mergeField_def setField_def
  by (auto simp: map_of_aset split: option.splits)

lemma mergeField_keeps [simp]:
  "tname (mergeField tc fld) = tname tc" "tkind (mergeField tc fld) = tkind tc"
  "tinterfaces (mergeField tc fld) = tinterfaces tc" "textensions (mergeField tc fld) = textensions tc"
  by (simp_all add: mergeField_def setField_def split: option.splits)

lemma foldl_mergeField_keeps [simp]:
  "tname (foldl mergeField tc fs) = tname tc" "tkind (foldl mergeField tc fs) = tkind tc"
  "tinterfaces (foldl mergeField tc fs) = tinterfaces tc"
  "textensions (foldl mergeField tc fs) = textensions tc"
  by (induction fs arbitrary: tc) simp_all

lemma foldl_mergeField_fields:
  assumes "distinct (map fst flds)"
  shows "map_of (tfields (foldl mergeField tc flds)) f =
     (case map_of flds f of
        None \<Rightarrow> map_of (tfields tc) f
      | Some inc \<Rightarrow>
          (case map_of (tfields tc) f of
             Some prev \<Rightarrow> Some (extendField prev inc)
           | None \<Rightarrow> Some (toFieldConfig inc)))"
  using assms
proof (induction flds arbitrary: tc)
  case Nil
  then show ?case by simp
next
  case (Cons fld flds)
  obtain k c where fld: "fld = (k, c)" by (cases fld)
  have d: "distinct (map fst flds)" and nin: "k \<notin> fst ` set flds"
    using Cons.prems fld by auto
  have IH: "map_of (tfields (foldl mergeField (mergeField tc fld) flds)) f =
     (case map_of flds f of
        None \<Rightarrow> map_of (tfields (mergeField tc fld)) f
      | Some inc \<Rightarrow>
          (case map_of (tfields (mergeField tc fld)) f of
             Some prev \<Rightarrow> Some (extendField prev inc)
           | None \<Rightarrow> Some (toFieldConfig inc)))"
    by (rule Cons.IH[OF d])
  show ?case
  proof (cases "f = k")
    case True
    have none: "map_of flds k = None"
      using nin by (simp add: map_of_eq_None_iff)
    show ?thesis
      unfolding foldl_Cons IH
      using True none fld by (simp add: mergeField_fields split: option.splits)
  next
    case False
    have same: "map_of (tfields (mergeField tc fld)) f = map_of (tfields tc) f"
      using False fld by (simp add: mergeField_fields)
    show ?thesis
      unfolding foldl_Cons IH same
      using False fld by simp
  qed
qed

lemma mergeFields_Inr:
  "mergeFields tc flds = Inr m \<Longrightarrow> m = foldl mergeField tc flds"
  by (auto simp: mergeFields_def split: if_splits)

lemma mergeFields_returns:
  "flds = [] \<or> hasFieldMethods (tkind tc) \<Longrightarrow> mergeFields tc flds = Inr (foldl mergeField tc flds)"
  by (auto simp: mergeFields_def)

lemma mergeFields_Inl:
  "mergeFields tc flds = Inl e \<Longrightarrow> flds \<noteq> [] \<and> \<not> hasFieldMethods (tkind tc)"
  by (auto simp: mergeFields_def split: if_splits)

lemma addInterface_keeps [simp]:
  "tname (addInterface tc i) = tname tc" "tkind (addInterface tc i) = tkind tc"
  "tfields (addInterface tc i) = tfields tc" "textensions (addInterface tc i) = textensions tc"
  by (simp_all add: addInterface_def)

lemma addInterfaces_keeps [simp]:
  "tname (foldl addInterface tc is) = tname tc" "tkind (foldl addInterface tc is) = tkind tc"
  "tfields (foldl addInterface tc is) = tfields tc"
  "textensions (foldl addInterface tc is) = textensions tc"
  by (induction "is" arbitrary: tc) simp_all

lemma addInterface_set:
  "set (tinterfaces (addInterface tc i)) = insert i (set (tinterfaces tc))"
  by (auto simp: addInterface_def hasInterface_def)

lemma addInterfaces_set:
  "set (tinterfaces (foldl addInterface tc is)) = set (tinterfaces tc) \<union> set is"
  by (induction "is" arbitrary: tc) (auto simp: addInterface_set)

lemma addInterface_distinct:
  "distinct (tinterfaces tc) \<Longrightarrow> distinct (tinterfaces (addInterface tc i))"
  by (simp add: addInterface_def hasInterface_def)

lemma addInterfaces_distinct:
  "distinct (tinterfaces tc) \<Longrightarrow> distinct (tinterfaces (foldl addInterface tc is))"
  by (induction "is" arbitrary: tc) (simp_all add: addInterface_distinct)

lemma addInterfaces_prefix:
  "prefix (tinterfaces tc) (tinterfaces (foldl addInterface tc is))"
proof (induction "is" arbitrary: tc)
  case Nil
  then show ?case by simp
next
  case (Cons i "is")
  have "prefix (tinterfaces tc) (tinterfaces (addInterface tc i))"
    by (simp add: addInterface_def)
  moreover have "prefix (tinterfaces (addInterface tc i))
                   (tinterfaces (foldl addInterface (addInterface tc i) is))"
    by (rule Cons.IH)
  ultimately show ?case
    using prefix_order.trans by fastforce
qed

lemma addInterfaces_cong:
  "tinterfaces a = tinterfaces b \<Longrightarrow>
   tinterfaces (foldl addInterface a is) = tinterfaces (foldl addInterface b is)"
proof (induction "is" arbitrary: a b)
  case Nil
  then show ?case by simp
next
  case (Cons i "is")
  have "tinterfaces (addInterface a i) = tinterfaces (addInterface b i)"
    using Cons.prems by (simp add: addInterface_def hasInterface_def)
  from Cons.IH[OF this] show ?case by simp
qed

lemma addInterfaces_Inr:
  "addInterfaces tc ifaces = Inr m \<Longrightarrow> m = foldl addInterface tc ifaces"
  by (auto simp: addInterfaces_def split: if_splits)

lemma addInterfaces_Inl:
  "addInterfaces tc ifaces = Inl e \<Longrightarrow> ifaces \<noteq> [] \<and> tkind tc \<noteq> ObjectKind"
  by (auto simp: addInterfaces_def split: if_splits)

lemma addInterfaces_returns:
  "ifaces = [] \<or> tkind tc = ObjectKind \<Longrightarrow>
   addInterfaces tc ifaces = Inr (foldl addInterface tc ifaces)"
  by (auto simp: addInterfaces_def)

text \<open>What the merge of the fields and interfaces leaves when it returns.\<close>

lemma mergeInto_graphql:
  assumes "mergeInto sc tc (GraphQLType t) = Inr m"
  shows "tkind t \<noteq> ObjectKind \<and> tkind t \<noteq> InterfaceKind \<and> m = tc"
  using assms by (auto simp: mergeInto_def defineFieldMapToConfig_def split: if_splits)

lemma mergeInto_composer:
  assumes "\<forall>t. type \<noteq> GraphQLType t"
  shows "mergeInto sc tc type =
     (if incomingKind type = ObjectKind then
        (case mergeFields tc (incomingFields type) of
           Inl e \<Rightarrow> Inl e
         | Inr tc1 \<Rightarrow>
             (case incomingInterfaces sc type of
                Inl e \<Rightarrow> Inl e
              | Inr ifaces \<Rightarrow> addInterfaces tc1 ifaces))
      else if incomingKind type = InterfaceKind then
        mergeFields tc (incomingFields type)
      else Inr tc)"
  using assms by (cases type) (auto simp: mergeInto_def split: sum.splits)

lemma mergeInto_Inr:
  assumes m: "mergeInto sc tc type = Inr m"
    and k: "incomingKind type = ObjectKind \<or> incomingKind type = InterfaceKind"
  shows "(\<forall>t. type \<noteq> GraphQLType t)
       \<and> tfields m = tfields (foldl mergeField tc (incomingFields type))
       \<and> (incomingKind type = ObjectKind \<longrightarrow>
            (\<exists>ifaces. incomingInterfaces sc type = Inr ifaces \<and>
               tinterfaces m = tinterfaces (foldl addInterface tc ifaces)))
       \<and> (incomingKind type = InterfaceKind \<longrightarrow> tinterfaces m = tinterfaces tc)"
proof -
  have ng: "\<forall>t. type \<noteq> GraphQLType t"
  proof (intro allI notI)
    fix t assume "type = GraphQLType t"
    with mergeInto_graphql[of sc tc t m] m k show False by (simp add: incomingKind_def)
  qed
  note c = mergeInto_composer[OF ng, of sc tc]
  show ?thesis
  proof (cases "incomingKind type = ObjectKind")
    case True
    from m c True obtain tc1 ifaces where
      1: "mergeFields tc (incomingFields type) = Inr tc1"
      and 2: "incomingInterfaces sc type = Inr ifaces"
      and 3: "addInterfaces tc1 ifaces = Inr m"
      by (auto split: sum.splits)
    from mergeFields_Inr[OF 1] addInterfaces_Inr[OF 3]
    have mm: "m = foldl addInterface (foldl mergeField tc (incomingFields type)) ifaces" by simp
    have "tinterfaces m = tinterfaces (foldl addInterface tc ifaces)"
      unfolding mm by (rule addInterfaces_cong) simp
    with mm 2 ng True show ?thesis by simp
  next
    case False
    with k have i: "incomingKind type = InterfaceKind" by simp
    from m c i have "mergeFields tc (incomingFields type) = Inr m" by simp
    from mergeFields_Inr[OF this] ng i show ?thesis by simp
  qed
qed

lemma mergeInto_keeps:
  assumes "mergeInto sc tc type = Inr m"
  shows "tname m = tname tc \<and> tkind m = tkind tc \<and> textensions m = textensions tc"
proof (cases "\<exists>t. type = GraphQLType t")
  case True
  then obtain t where "type = GraphQLType t" by blast
  with mergeInto_graphql[of sc tc t m] assms show ?thesis by simp
next
  case False
  then have ng: "\<forall>t. type \<noteq> GraphQLType t" by simp
  show ?thesis
  proof (cases "incomingKind type = ObjectKind \<or> incomingKind type = InterfaceKind")
    case True
    from mergeInto_Inr[OF assms True] have f: "tfields m = tfields (foldl mergeField tc (incomingFields type))"
      by simp
    from assms mergeInto_composer[OF ng, of sc tc] True show ?thesis
      by (auto split: sum.splits if_splits dest!: mergeFields_Inr addInterfaces_Inr)
  next
    case False
    with assms mergeInto_composer[OF ng, of sc tc] show ?thesis by simp
  qed
qed

lemma mergeInto_Inl:
  assumes "mergeInto sc tc type = Inl e"
  shows "(\<exists>t. type = GraphQLType t \<and> (tkind t = ObjectKind \<or> tkind t = InterfaceKind))
       \<or> (incomingFields type \<noteq> [] \<and> \<not> hasFieldMethods (tkind tc))
       \<or> (incomingKind type = ObjectKind \<and> incomingInterfaces sc type = Inl e)
       \<or> (incomingKind type = ObjectKind \<and> tkind tc \<noteq> ObjectKind \<and>
          (\<exists>ifaces. incomingInterfaces sc type = Inr ifaces \<and> ifaces \<noteq> []))"
proof (cases "\<exists>t. type = GraphQLType t")
  case True
  then obtain t where t: "type = GraphQLType t" by blast
  with assms have "tkind t = ObjectKind \<or> tkind t = InterfaceKind"
    by (auto simp: mergeInto_def split: if_splits)
  with t show ?thesis by blast
next
  case False
  then have ng: "\<forall>t. type \<noteq> GraphQLType t" by simp
  from assms mergeInto_composer[OF ng, of sc tc] show ?thesis
    by (auto split: sum.splits if_splits dest!: mergeFields_Inl addInterfaces_Inl mergeFields_Inr)
qed

lemma mergeInto_returns:
  assumes "\<forall>t. type \<noteq> GraphQLType t"
    and "incomingFields type = [] \<or> hasFieldMethods (tkind tc)"
    and "incomingKind type = ObjectKind \<longrightarrow>
           (\<exists>ifaces. incomingInterfaces sc type = Inr ifaces \<and> (ifaces = [] \<or> tkind tc = ObjectKind))"
  shows "\<exists>m. mergeInto sc tc type = Inr m"
proof (cases "incomingKind type = ObjectKind")
  case True
  with assms(3) obtain ifaces where i: "incomingInterfaces sc type = Inr ifaces"
    "ifaces = [] \<or> tkind tc = ObjectKind" by blast
  have "addInterfaces (foldl mergeField tc (incomingFields type)) ifaces =
          Inr (foldl addInterface (foldl mergeField tc (incomingFields type)) ifaces)"
    by (rule addInterfaces_returns) (use i(2) in simp)
  with True i(1) mergeFields_returns[OF assms(2)] show ?thesis
    by (simp add: mergeInto_composer[OF assms(1)])
next
  case False
  with mergeFields_returns[OF assms(2)] show ?thesis
    by (simp add: mergeInto_composer[OF assms(1)])
qed

lemma mergeExtensions_keeps [simp]:
  "tname (mergeExtensions tc type) = tname tc" "tkind (mergeExtensions tc type) = tkind tc"
  "tfields (mergeExtensions tc type) = tfields tc"
  "tinterfaces (mergeExtensions tc type) = tinterfaces tc"
  by (cases type; simp add: mergeExtensions_def extendExtensions_def)+

lemma mergeTypes_Inr:
  "mergeTypes env sc tc type plugin cf = Inr r \<Longrightarrow>
   \<exists>m r'. mergeInto sc tc type = Inr m \<and>
        addExtensions env plugin cf (mergeExtensions m type) = Inr r' \<and>
        r = (fst r', mergeWarnings tc plugin @ snd r')"
  by (auto simp: mergeTypes_def split: sum.splits)

lemma mergeTypes_Inl:
  "mergeTypes env sc tc type plugin cf = Inl e \<Longrightarrow>
   mergeInto sc tc type = Inl e \<or>
   (\<exists>m. mergeInto sc tc type = Inr m \<and>
        addExtensions env plugin cf (mergeExtensions m type) = Inl e)"
  by (auto simp: mergeTypes_def split: sum.splits)

lemma mergeTypes_keeps:
  assumes "mergeTypes env sc tc type plugin cf = Inr r"
  shows "\<exists>m. mergeInto sc tc type = Inr m \<and> tname (fst r) = tname tc \<and> tkind (fst r) = tkind tc \<and>
         fieldCores (fst r) = fieldCores m \<and> tinterfaces (fst r) = tinterfaces m"
proof -
  from mergeTypes_Inr[OF assms] obtain m r'
    where m: "mergeInto sc tc type = Inr m"
      and a: "addExtensions env plugin cf (mergeExtensions m type) = Inr r'"
      and r: "r = (fst r', mergeWarnings tc plugin @ snd r')" by blast
  from addExtensions_keeps[OF a] r mergeInto_keeps[OF m] m show ?thesis
    by (simp add: fieldCores_def)
qed

lemma mergeTypes_name:
  "mergeTypes env sc tc type plugin cf = Inr r \<Longrightarrow> tname (fst r) = tname tc"
  using mergeTypes_keeps by blast

lemma mergeTypes_isl_plugin:
  "isl (mergeTypes env sc tc type plugin cf) = isl (mergeTypes env sc tc type plugin' cf)"
proof (cases "mergeInto sc tc type")
  case (Inl e)
  then show ?thesis by (simp add: mergeTypes_def)
next
  case (Inr m)
  have "\<And>p. isl (mergeTypes env sc tc type p cf) =
        (\<exists>e. addExtensions env p cf (mergeExtensions m type) = Inl e)"
  proof -
    fix p
    show "isl (mergeTypes env sc tc type p cf) =
        (\<exists>e. addExtensions env p cf (mergeExtensions m type) = Inl e)"
      using Inr by (cases "addExtensions env p cf (mergeExtensions m type)")
         (simp_all add: mergeTypes_def)
  qed
  then show ?thesis
    by (simp add: addExtensions_fails_iff)
qed

lemma mergeTypes_returns:
  assumes "mergeInto sc tc type = Inr m"
    and "cf \<noteq> ''sdl'' \<or> tkind tc \<noteq> InterfaceKind"
  shows "\<exists>r. mergeTypes env sc tc type plugin cf = Inr r"
proof -
  from mergeInto_keeps[OF assms(1)] assms(2)
  have "\<not> (\<exists>e. addExtensions env plugin cf (mergeExtensions m type) = Inl e)"
    by (auto simp: addExtensions_fails_iff)
  then obtain r where "addExtensions env plugin cf (mergeExtensions m type) = Inr r"
    by (cases "addExtensions env plugin cf (mergeExtensions m type)") auto
  with assms(1) show ?thesis by (simp add: mergeTypes_def)
qed

subsection \<open>Registry\<close>

lemma find_putTC:
  "find (\<lambda>x. tname x = n) (putTC tc l) =
     (if n = tname tc then Some tc else find (\<lambda>x. tname x = n) l)"
  by (induction l) auto

lemma getTC_setType:
  "getTC (setType sc tc) n = (if n = tname tc then Some tc else getTC sc n)"
  by (simp add: getTC_def setType_def find_putTC)

lemma getTC_addReports [simp]: "getTC (addReports sc rs) n = getTC sc n"
  by (simp add: getTC_def addReports_def)

lemma getTC_mustHave [simp]: "getTC (addSchemaMustHaveType sc m) n = getTC sc n"
  by (simp add: getTC_def addSchemaMustHaveType_def)

lemma find_tname: "find (\<lambda>x. tname x = n) l = Some tc \<Longrightarrow> tname tc = n"
  by (induction l) (auto split: if_splits)

lemma getTC_tname: "getTC sc n = Some tc \<Longrightarrow> tname tc = n"
  unfolding getTC_def by (rule find_tname)

subsection \<open>Intake\<close>

lemma parseTypes_append:
  "parseTypes env plugin cf (xs @ ys) acc sc =
     (case parseTypes env plugin cf xs acc sc of
        Inl e \<Rightarrow> Inl e
      | Inr r \<Rightarrow> parseTypes env plugin cf ys (fst r) (snd r))"
proof (induction xs arbitrary: acc sc)
  case Nil
  then show ?case by simp
next
  case (Cons x xs)
  show ?case
    by (simp add: Cons.IH split: sum.splits option.splits)
qed

lemma parseTypes_offender:
  assumes "reservedOrInvalidName (tname d)"
  shows "\<exists>msg. parseTypes env plugin cf (d # post) acc sc = Inl (Thrown msg, sc) \<and>
               sublist (tname d) msg"
proof -
  obtain e where e: "checkIsAllowedTypeName (tname d) = Inl e"
    using check_reserved[OF assms] by blast
  then obtain msg where "e = Thrown msg" "sublist (tname d) msg"
    using check_names by blast
  with e show ?thesis by simp
qed

lemma addType_document_Inl:
  assumes "parseTypes env plugin ''sdl'' doc [] sc = Inl (e, sc')"
  shows "addType env sc (Document doc, plugin) = Inl e"
  using assms by (cases e) (simp_all add: addType_def reportParsingError_def)

lemma addType_document_offender:
  assumes "reservedOrInvalidName (tname d)"
  shows "(\<exists>e. addType env sc (Document (pre @ d # post), plugin) = Inl e) \<and>
         (\<forall>r. parseTypes env plugin ''sdl'' pre [] sc = Inr r \<longrightarrow>
            (\<exists>msg. addType env sc (Document (pre @ d # post), plugin) = Inl (Thrown msg) \<and>
                   sublist (tname d) msg))"
proof (cases "parseTypes env plugin ''sdl'' pre [] sc")
  case (Inl x)
  obtain e sc' where x: "x = (e, sc')" by (cases x)
  have "parseTypes env plugin ''sdl'' (pre @ d # post) [] sc = Inl (e, sc')"
    using Inl x by (simp add: parseTypes_append)
  from addType_document_Inl[OF this] Inl show ?thesis by simp
next
  case (Inr r)
  from parseTypes_offender[OF assms, of env plugin "''sdl''" post "fst r" "snd r"] obtain msg
    where m: "parseTypes env plugin ''sdl'' (d # post) (fst r) (snd r) = Inl (Thrown msg, snd r)"
      "sublist (tname d) msg" by blast
  have "parseTypes env plugin ''sdl'' (pre @ d # post) [] sc = Inl (Thrown msg, snd r)"
    using Inr m(1) by (simp add: parseTypes_append)
  from addType_document_Inl[OF this] m(2) Inr show ?thesis by auto
qed

lemma addNamedType_reserved:
  assumes "reservedOrInvalidName (tname (incomingDef type))"
  shows "\<exists>msg. addNamedType env sc type cf plugin = Inl (Thrown msg) \<and>
               sublist (tname (incomingDef type)) msg"
proof -
  obtain e where e: "checkIsAllowedTypeName (tname (incomingDef type)) = Inl e"
    using check_reserved[OF assms] by blast
  then obtain msg where "e = Thrown msg" "sublist (tname (incomingDef type)) msg"
    using check_names by blast
  with e show ?thesis by (simp add: addNamedType_def Let_def)
qed

lemma createTypeComposer_name:
  "isGatsbyType k \<Longrightarrow>
   \<exists>type. fst (createTypeComposerFromGatsbyType env k config) = Some type \<and>
          tname (incomingDef type) = cname config"
  by (cases k) (simp_all add: createTypeComposerFromGatsbyType_def isGatsbyType_def incomingDef_def)

lemma addType_builder_reserved:
  assumes "reservedOrInvalidName (cname config)" and "isGatsbyType k"
  shows "\<exists>msg. addType env sc (GatsbyType k config, plugin) = Inl (Thrown msg) \<and>
               sublist (cname config) msg"
proof -
  from createTypeComposer_name[OF assms(2), of env config] obtain type
    where t: "fst (createTypeComposerFromGatsbyType env k config) = Some type"
      "tname (incomingDef type) = cname config" by blast
  with assms(1) have "reservedOrInvalidName (tname (incomingDef type))" by simp
  from addNamedType_reserved[OF this, of env sc "''typeBuilder''" plugin] t assms(2)
  show ?thesis by (auto simp: addType_def)
qed

lemma addType_native_reserved:
  assumes "reservedOrInvalidName (tname t)"
  shows "\<exists>msg. addType env sc (NativeType t, plugin) = Inl (Thrown msg) \<and> sublist (tname t) msg"
proof -
  have "reservedOrInvalidName (tname (incomingDef (GraphQLType t)))"
    using assms by (simp add: incomingDef_def)
  from addNamedType_reserved[OF this, of env sc "''graphql-js''" plugin]
  show ?thesis by (auto simp: addType_def incomingDef_def)
qed

lemma addType_declares_reserved:
  assumes "reservedOrInvalidName name" and "declaresType src name"
  shows "\<exists>e. addType env sc (src, plugin) = Inl e"
proof (cases src)
  case (Document doc)
  with assms(2) have "\<exists>d\<in>set doc. tname d = name" by (simp add: declaresType_def list_ex_iff)
  then obtain pre d post where s: "doc = pre @ d # post" "tname d = name"
    by (auto dest: split_list)
  from addType_document_offender[of d env sc pre post plugin] assms(1) s Document
  show ?thesis by simp
next
  case (GatsbyType k config)
  with assms(2) have "isGatsbyType k" "cname config = name" by (simp_all add: declaresType_def)
  with addType_builder_reserved[of config k env sc plugin] assms(1) GatsbyType
  show ?thesis by auto
next
  case (NativeType t)
  with assms(2) have "tname t = name" by (simp add: declaresType_def)
  with addType_native_reserved[of t env sc plugin] assms(1) NativeType
  show ?thesis by auto
qed

lemma addTypes_aborts:
  assumes "\<And>sc'. \<exists>e. addType env sc' entry = Inl e"
  shows "isl (addTypes env sc (before @ entry # rest))"
proof (induction before arbitrary: sc)
  case Nil
  from assms[of sc] show ?case by auto
next
  case (Cons b before)
  show ?case
  proof (cases "addType env sc b")
    case (Inl e)
    then show ?thesis by simp
  next
    case (Inr sc1)
    with Cons.IH[of sc1] show ?thesis by simp
  qed
qed

text \<open>
  Claim C2. A name that is \<open>Node\<close>, ends in \<open>FilterInput\<close> or \<open>SortInput\<close>, is the name of
  a built-in scalar or is not an identifier makes \<open>checkIsAllowedTypeName\<close> throw an error
  whose message contains the name. For a type from a type builder and for a type object of
  graphql-js, \<open>addTypes\<close> ends with that error. For a document with a definition of that
  name \<open>addTypes\<close> ends with an error as well, and with the error that names the type
  when the definitions before it in the document were taken without an error. Whatever
  sources come before and after a source that brings such a type, \<open>addTypes\<close> returns no
  registry: the type is not registered and the build does not go on.
\<close>

theorem reserved_names_rejected:
  assumes "reservedOrInvalidName name"
  shows "(\<exists>msg. checkIsAllowedTypeName name = Inl (Thrown msg) \<and> sublist name msg)
    \<and> (\<forall>env sc k config plugin rest. isGatsbyType k \<and> cname config = name \<longrightarrow>
         (\<exists>msg. addTypes env sc ((GatsbyType k config, plugin) # rest) = Inl (Thrown msg) \<and>
                sublist name msg))
    \<and> (\<forall>env sc t plugin rest. tname t = name \<longrightarrow>
         (\<exists>msg. addTypes env sc ((NativeType t, plugin) # rest) = Inl (Thrown msg) \<and>
                sublist name msg))
    \<and> (\<forall>env sc pre d post plugin rest. tname d = name \<longrightarrow>
          (\<exists>e. addTypes env sc ((Document (pre @ d # post), plugin) # rest) = Inl e) \<and>
          (\<forall>r. parseTypes env plugin ''sdl'' pre [] sc = Inr r \<longrightarrow>
             (\<exists>msg. addTypes env sc ((Document (pre @ d # post), plugin) # rest) = Inl (Thrown msg) \<and>
                    sublist name msg)))
    \<and> (\<forall>env sc before src plugin rest. declaresType src name \<longrightarrow>
          isl (addTypes env sc (before @ (src, plugin) # rest)))"
proof (intro conjI allI impI)
  obtain e where e: "checkIsAllowedTypeName name = Inl e"
    using check_reserved[OF assms] by blast
  then obtain msg where "e = Thrown msg" "sublist name msg"
    using check_names by blast
  with e show "\<exists>msg. checkIsAllowedTypeName name = Inl (Thrown msg) \<and> sublist name msg"
    by blast
next
  fix env :: env and sc :: schemaComposer and k and config :: builderConfig
    and plugin :: "plugin option" and rest :: "(typeSource \<times> plugin option) list"
  assume a: "isGatsbyType k \<and> cname config = name"
  with addType_builder_reserved[of config k env sc plugin] assms
  show "\<exists>msg. addTypes env sc ((GatsbyType k config, plugin) # rest) = Inl (Thrown msg) \<and>
              sublist name msg"
    by auto
next
  fix env :: env and sc :: schemaComposer and t :: typeComposer
    and plugin :: "plugin option" and rest :: "(typeSource \<times> plugin option) list"
  assume a: "tname t = name"
  with addType_native_reserved[of t env sc plugin] assms
  show "\<exists>msg. addTypes env sc ((NativeType t, plugin) # rest) = Inl (Thrown msg) \<and>
              sublist name msg"
    by auto
next
  fix env :: env and sc :: schemaComposer and pre :: "typeComposer list" and d :: typeComposer
    and post :: "typeComposer list"
    and plugin :: "plugin option" and rest :: "(typeSource \<times> plugin option) list"
  assume a: "tname d = name"
  with addType_document_offender[of d env sc pre post plugin] assms
  show "\<exists>e. addTypes env sc ((Document (pre @ d # post), plugin) # rest) = Inl e"
    by auto
next
  fix env :: env and sc :: schemaComposer and pre :: "typeComposer list" and d :: typeComposer
    and post :: "typeComposer list"
    and plugin :: "plugin option" and rest :: "(typeSource \<times> plugin option) list"
    and r
  assume a: "tname d = name" and p: "parseTypes env plugin ''sdl'' pre [] sc = Inr r"
  with addType_document_offender[of d env sc pre post plugin] assms
  show "\<exists>msg. addTypes env sc ((Document (pre @ d # post), plugin) # rest) = Inl (Thrown msg) \<and>
              sublist name msg"
    by auto
next
  fix env :: env and sc :: schemaComposer and before :: "(typeSource \<times> plugin option) list"
    and src :: typeSource
    and plugin :: "plugin option" and rest :: "(typeSource \<times> plugin option) list"
  assume d: "declaresType src name"
  show "isl (addTypes env sc (before @ (src, plugin) # rest))"
    by (rule addTypes_aborts) (rule addType_declares_reserved[OF assms d])
qed

theorem reserved_names_rejected_witness:
  "reservedOrInvalidName ''PostFilterInput''
   \<and> (\<exists>msg. addTypes specEnv emptyRegistry
          [(GatsbyType OBJECT (builder ''PostFilterInput'' [] None), None)] = Inl (Thrown msg)
        \<and> sublist ''PostFilterInput'' msg)
   \<and> (\<exists>msg. addTypes specEnv emptyRegistry
          [(NativeType (newType ''PostFilterInput'' ObjectKind [] [] []), None)] = Inl (Thrown msg)
        \<and> sublist ''PostFilterInput'' msg)
   \<and> (\<exists>msg. addTypes specEnv emptyRegistry
          [(Document ([newType ''Post'' ObjectKind [] [] []] @
                       newType ''PostFilterInput'' ObjectKind [] [] [] # []), None),
           (NativeType (newType ''Later'' ObjectKind [] [] []), None)] = Inl (Thrown msg)
        \<and> sublist ''PostFilterInput'' msg)
   \<and> isl (addTypes specEnv emptyRegistry
          ([(NativeType (newType ''Post'' ObjectKind [] [] []), None)] @
           (Document [newType ''PostFilterInput'' ObjectKind [] [] []], None) #
           [(NativeType (newType ''Later'' ObjectKind [] [] []), None)]))"
proof -
  have h: "reservedOrInvalidName ''PostFilterInput''" by code_simp
  have n: "tname (newType ''PostFilterInput'' ObjectKind [] [] []) = ''PostFilterInput''"
    by (simp add: newType_def)
  have g: "isGatsbyType OBJECT \<and> cname (builder ''PostFilterInput'' [] None) = ''PostFilterInput''"
    by (simp add: isGatsbyType_def builder_def)
  have p: "parseTypes specEnv None ''sdl'' [newType ''Post'' ObjectKind [] [] []] [] emptyRegistry =
     Inr ([newType ''Post'' ObjectKind [] [] []],
          setType emptyRegistry (newType ''Post'' ObjectKind [] [] []))"
    by code_simp
  have dt: "declaresType (Document [newType ''PostFilterInput'' ObjectKind [] [] []]) ''PostFilterInput''"
    by code_simp
  note t = reserved_names_rejected[OF h]
  have a: "\<exists>msg. addTypes specEnv emptyRegistry
          [(GatsbyType OBJECT (builder ''PostFilterInput'' [] None), None)] = Inl (Thrown msg)
        \<and> sublist ''PostFilterInput'' msg"
    by (rule t[THEN conjunct2, THEN conjunct1, rule_format, OF g])
  have b: "\<exists>msg. addTypes specEnv emptyRegistry
          [(NativeType (newType ''PostFilterInput'' ObjectKind [] [] []), None)] = Inl (Thrown msg)
        \<and> sublist ''PostFilterInput'' msg"
    by (rule t[THEN conjunct2, THEN conjunct2, THEN conjunct1, rule_format, OF n])
  have c: "\<exists>msg. addTypes specEnv emptyRegistry
          [(Document ([newType ''Post'' ObjectKind [] [] []] @
                       newType ''PostFilterInput'' ObjectKind [] [] [] # []), None),
           (NativeType (newType ''Later'' ObjectKind [] [] []), None)] = Inl (Thrown msg)
        \<and> sublist ''PostFilterInput'' msg"
    by (rule t[THEN conjunct2, THEN conjunct2, THEN conjunct2, THEN conjunct1, rule_format,
          OF n, THEN conjunct2, rule_format, OF p])
  have d: "isl (addTypes specEnv emptyRegistry
          ([(NativeType (newType ''Post'' ObjectKind [] [] []), None)] @
           (Document [newType ''PostFilterInput'' ObjectKind [] [] []], None) #
           [(NativeType (newType ''Later'' ObjectKind [] [] []), None)]))"
    by (rule t[THEN conjunct2, THEN conjunct2, THEN conjunct2, THEN conjunct2, rule_format, OF dt])
  from h a b c d show ?thesis by (intro conjI)
qed

subsection \<open>What a merge leaves\<close>

lemma fieldCore_extendField:
  "fieldCore (extendField prev (FieldObject inc)) =
     (orElse (ftype inc) (ftype prev), orElse (fargs inc) (fargs prev),
      orElse (fresolve inc) (fresolve prev))"
  "fieldCore (extendField prev (TypeString t)) = fieldCore prev"
  by (simp_all add: extendField_def extendConfig_def fieldCore_def orElse_def)

lemma fieldCore_toFieldConfig:
  "fieldCore (toFieldConfig (FieldObject c)) = fieldCore c"
  "fieldCore (toFieldConfig (TypeString t)) = (Some t, None, None)"
  by (simp_all add: toFieldConfig_def fieldCore_def)

lemma mergeTypes_fields:
  assumes r: "mergeTypes env sc tc type plugin cf = Inr r"
    and k: "incomingKind type = ObjectKind \<or> incomingKind type = InterfaceKind"
    and d: "distinct (map fst (incomingFields type))"
  shows "map_of (fieldCores (fst r)) f =
           (case map_of (incomingFields type) f of
              None \<Rightarrow> map_of (fieldCores tc) f
            | Some (FieldObject inc) \<Rightarrow>
                (case map_of (tfields tc) f of
                   None \<Rightarrow> Some (fieldCore inc)
                 | Some prev \<Rightarrow>
                     Some (orElse (ftype inc) (ftype prev), orElse (fargs inc) (fargs prev),
                           orElse (fresolve inc) (fresolve prev)))
            | Some (TypeString t) \<Rightarrow>
                (case map_of (tfields tc) f of
                   None \<Rightarrow> Some (Some t, None, None)
                 | Some prev \<Rightarrow> Some (fieldCore prev)))"
proof -
  from mergeTypes_keeps[OF r] obtain m where m: "mergeInto sc tc type = Inr m"
    and c: "fieldCores (fst r) = fieldCores m" by blast
  from mergeInto_Inr[OF m k] have f: "tfields m = tfields (foldl mergeField tc (incomingFields type))"
    by simp
  have "map_of (fieldCores (fst r)) f =
          map_option fieldCore (map_of (tfields (foldl mergeField tc (incomingFields type))) f)"
    unfolding c by (simp add: map_of_fieldCores f)
  also have "\<dots> = map_option fieldCore
     (case map_of (incomingFields type) f of
        None \<Rightarrow> map_of (tfields tc) f
      | Some inc \<Rightarrow>
          (case map_of (tfields tc) f of
             Some prev \<Rightarrow> Some (extendField prev inc)
           | None \<Rightarrow> Some (toFieldConfig inc)))"
    by (simp only: foldl_mergeField_fields[OF d])
  also have "\<dots> = (case map_of (incomingFields type) f of
              None \<Rightarrow> map_of (fieldCores tc) f
            | Some (FieldObject inc) \<Rightarrow>
                (case map_of (tfields tc) f of
                   None \<Rightarrow> Some (fieldCore inc)
                 | Some prev \<Rightarrow>
                     Some (orElse (ftype inc) (ftype prev), orElse (fargs inc) (fargs prev),
                           orElse (fresolve inc) (fresolve prev)))
            | Some (TypeString t) \<Rightarrow>
                (case map_of (tfields tc) f of
                   None \<Rightarrow> Some (Some t, None, None)
                 | Some prev \<Rightarrow> Some (fieldCore prev)))"
    by (simp add: map_of_fieldCores fieldCore_extendField fieldCore_toFieldConfig
        split: option.splits fieldDef.splits)
  finally show ?thesis .
qed

lemma mergeTypes_interfaces:
  assumes r: "mergeTypes env sc tc type plugin cf = Inr r"
    and k: "incomingKind type = ObjectKind \<or> incomingKind type = InterfaceKind"
  shows "(incomingKind type = ObjectKind \<longrightarrow>
            (\<exists>ifaces. incomingInterfaces sc type = Inr ifaces \<and>
               set (tinterfaces (fst r)) = set (tinterfaces tc) \<union> set ifaces \<and>
               prefix (tinterfaces tc) (tinterfaces (fst r)) \<and>
               (distinct (tinterfaces tc) \<longrightarrow> distinct (tinterfaces (fst r)))))
       \<and> (incomingKind type = InterfaceKind \<longrightarrow> tinterfaces (fst r) = tinterfaces tc)"
proof -
  from mergeTypes_keeps[OF r] obtain m where m: "mergeInto sc tc type = Inr m"
    and c: "tinterfaces (fst r) = tinterfaces m" by blast
  note i = mergeInto_Inr[OF m k]
  show ?thesis
  proof (intro conjI impI)
    assume "incomingKind type = ObjectKind"
    with i obtain ifaces where a: "incomingInterfaces sc type = Inr ifaces"
      "tinterfaces m = tinterfaces (foldl addInterface tc ifaces)" by blast
    have "set (tinterfaces (fst r)) = set (tinterfaces tc) \<union> set ifaces"
      unfolding c a(2) by (rule addInterfaces_set)
    moreover have "prefix (tinterfaces tc) (tinterfaces (fst r))"
      unfolding c a(2) by (rule addInterfaces_prefix)
    moreover have "distinct (tinterfaces tc) \<longrightarrow> distinct (tinterfaces (fst r))"
      unfolding c a(2) by (simp add: addInterfaces_distinct)
    ultimately show "\<exists>ifaces. incomingInterfaces sc type = Inr ifaces \<and>
               set (tinterfaces (fst r)) = set (tinterfaces tc) \<union> set ifaces \<and>
               prefix (tinterfaces tc) (tinterfaces (fst r)) \<and>
               (distinct (tinterfaces tc) \<longrightarrow> distinct (tinterfaces (fst r)))"
      using a(1) by blast
  next
    assume "incomingKind type = InterfaceKind"
    with i c show "tinterfaces (fst r) = tinterfaces tc" by simp
  qed
qed

lemma mergeTypes_into_object:
  assumes "tkind tc = ObjectKind" and "\<forall>t. type \<noteq> GraphQLType t"
    and "\<not> isl (incomingInterfaces sc type)"
  shows "\<exists>r. mergeTypes env sc tc type plugin cf = Inr r"
proof -
  from assms(3) obtain ifaces where i: "incomingInterfaces sc type = Inr ifaces"
    by (cases "incomingInterfaces sc type") simp_all
  have "\<exists>m. mergeInto sc tc type = Inr m"
    by (rule mergeInto_returns[OF assms(2)])
       (use assms(1) i in \<open>simp_all add: hasFieldMethods_def\<close>)
  then obtain m where m: "mergeInto sc tc type = Inr m" by blast
  show ?thesis
    by (rule mergeTypes_returns[OF m]) (use assms(1) in simp)
qed

text \<open>
  Claim C1, as the code has it. An object type or an interface type comes in as a
  composer (from a document or from a type builder, its field names distinct) and is
  merged into an existing composer. Whenever \<open>mergeTypes\<close> returns: for a field name of
  both whose incoming definition is a configuration object, each of type, arguments and
  resolver that the incoming field defines replaces that part of the existing field as a
  whole, and a part that the incoming field does not define stays as it was; a field of
  the incoming type alone has the type, arguments and resolver it comes with, a field of
  the existing type alone keeps its own; for an incoming object type the interfaces are
  those of both, the existing ones first and none added twice, for an incoming interface
  type they are unchanged. \<open>mergeTypes\<close> returns when the existing composer is an object
  type and the interfaces named by the incoming type are found.
\<close>

theorem merge_fields_and_interfaces:
  assumes "incomingKind type = ObjectKind \<or> incomingKind type = InterfaceKind"
    and "distinct (map fst (incomingFields type))"
  shows "(\<forall>r. mergeTypes env sc tc type plugin createdFrom = Inr r \<longrightarrow>
            (\<forall>f inc prev. map_of (incomingFields type) f = Some (FieldObject inc) \<and>
                 map_of (tfields tc) f = Some prev \<longrightarrow>
                 map_of (fieldCores (fst r)) f =
                   Some (orElse (ftype inc) (ftype prev), orElse (fargs inc) (fargs prev),
                         orElse (fresolve inc) (fresolve prev)))
          \<and> (\<forall>f inc. map_of (incomingFields type) f = Some (FieldObject inc) \<and>
                 map_of (tfields tc) f = None \<longrightarrow>
                 map_of (fieldCores (fst r)) f = Some (ftype inc, fargs inc, fresolve inc))
          \<and> (\<forall>f t. map_of (incomingFields type) f = Some (TypeString t) \<and>
                 map_of (tfields tc) f = None \<longrightarrow>
                 map_of (fieldCores (fst r)) f = Some (Some t, None, None))
          \<and> (\<forall>f. map_of (incomingFields type) f = None \<longrightarrow>
                 map_of (fieldCores (fst r)) f = map_of (fieldCores tc) f)
          \<and> (incomingKind type = ObjectKind \<longrightarrow>
                (\<exists>ifaces. incomingInterfaces sc type = Inr ifaces \<and>
                   set (tinterfaces (fst r)) = set (tinterfaces tc) \<union> set ifaces \<and>
                   prefix (tinterfaces tc) (tinterfaces (fst r)) \<and>
                   (distinct (tinterfaces tc) \<longrightarrow> distinct (tinterfaces (fst r)))))
          \<and> (incomingKind type = InterfaceKind \<longrightarrow> tinterfaces (fst r) = tinterfaces tc))
       \<and> (tkind tc = ObjectKind \<and> (\<forall>t. type \<noteq> GraphQLType t) \<and>
          \<not> isl (incomingInterfaces sc type) \<longrightarrow>
            (\<exists>r. mergeTypes env sc tc type plugin createdFrom = Inr r))"
proof (intro conjI allI impI)
  fix r f inc prev
  assume r: "mergeTypes env sc tc type plugin createdFrom = Inr r"
    and h: "map_of (incomingFields type) f = Some (FieldObject inc) \<and> map_of (tfields tc) f = Some prev"
  show "map_of (fieldCores (fst r)) f =
          Some (orElse (ftype inc) (ftype prev), orElse (fargs inc) (fargs prev),
                orElse (fresolve inc) (fresolve prev))"
    unfolding mergeTypes_fields[OF r assms] using h by simp
next
  fix r f inc
  assume r: "mergeTypes env sc tc type plugin createdFrom = Inr r"
    and h: "map_of (incomingFields type) f = Some (FieldObject inc) \<and> map_of (tfields tc) f = None"
  show "map_of (fieldCores (fst r)) f = Some (ftype inc, fargs inc, fresolve inc)"
    unfolding mergeTypes_fields[OF r assms] using h by (simp add: fieldCore_def)
next
  fix r f t
  assume r: "mergeTypes env sc tc type plugin createdFrom = Inr r"
    and h: "map_of (incomingFields type) f = Some (TypeString t) \<and> map_of (tfields tc) f = None"
  show "map_of (fieldCores (fst r)) f = Some (Some t, None, None)"
    unfolding mergeTypes_fields[OF r assms] using h by simp
next
  fix r f
  assume r: "mergeTypes env sc tc type plugin createdFrom = Inr r"
    and h: "map_of (incomingFields type) f = None"
  show "map_of (fieldCores (fst r)) f = map_of (fieldCores tc) f"
    unfolding mergeTypes_fields[OF r assms] using h by simp
next
  fix r
  assume r: "mergeTypes env sc tc type plugin createdFrom = Inr r"
    and o: "incomingKind type = ObjectKind"
  from mergeTypes_interfaces[OF r assms(1), THEN conjunct1, rule_format, OF o]
  show "\<exists>ifaces. incomingInterfaces sc type = Inr ifaces \<and>
                   set (tinterfaces (fst r)) = set (tinterfaces tc) \<union> set ifaces \<and>
                   prefix (tinterfaces tc) (tinterfaces (fst r)) \<and>
                   (distinct (tinterfaces tc) \<longrightarrow> distinct (tinterfaces (fst r)))" .
next
  fix r
  assume r: "mergeTypes env sc tc type plugin createdFrom = Inr r"
    and o: "incomingKind type = InterfaceKind"
  from mergeTypes_interfaces[OF r assms(1)] o
  show "tinterfaces (fst r) = tinterfaces tc" by simp
next
  assume "tkind tc = ObjectKind \<and> (\<forall>t. type \<noteq> GraphQLType t) \<and>
          \<not> isl (incomingInterfaces sc type)"
  then show "\<exists>r. mergeTypes env sc tc type plugin createdFrom = Inr r"
    using mergeTypes_into_object[of tc type sc env plugin createdFrom] by blast
qed

theorem merge_fields_and_interfaces_witness:
  "(incomingKind (TempComposer ObjectKind builtFoo) = ObjectKind \<or>
    incomingKind (TempComposer ObjectKind builtFoo) = InterfaceKind)
   \<and> distinct (map fst (incomingFields (TempComposer ObjectKind builtFoo)))
   \<and> (\<exists>r. mergeTypes specEnv taggedRegistry existingFoo (TempComposer ObjectKind builtFoo) None
             ''typeBuilder'' = Inr r
        \<and> map_of (fieldCores (fst r)) ''bar'' = Some (Some ''Int'', Some [], Some (Fn ''resolveBar''))
        \<and> map_of (fieldCores (fst r)) ''old'' = Some (Some ''Int'', None, None)
        \<and> map_of (fieldCores (fst r)) ''new'' = Some (Some ''Boolean'', None, None)
        \<and> map_of (fieldCores (fst r)) ''short'' = Some (Some ''Date'', None, None)
        \<and> set (tinterfaces (fst r)) = {''Node'', ''Tagged''}
        \<and> distinct (tinterfaces (fst r)))"
proof -
  let ?type = "TempComposer ObjectKind builtFoo"
  have h1: "incomingKind ?type = ObjectKind \<or> incomingKind ?type = InterfaceKind"
    by (simp add: incomingKind_def)
  have h2: "distinct (map fst (incomingFields ?type))" by code_simp
  have k: "incomingKind ?type = ObjectKind" by (simp add: incomingKind_def)
  have d: "distinct (tinterfaces existingFoo)" by code_simp
  have i: "incomingInterfaces taggedRegistry ?type = Inr [''Node'', ''Tagged'']" by code_simp
  have ret: "tkind existingFoo = ObjectKind \<and> (\<forall>t. ?type \<noteq> GraphQLType t) \<and>
          \<not> isl (incomingInterfaces taggedRegistry ?type)"
    unfolding i by (simp add: existingFoo_def newType_def)
  note t = merge_fields_and_interfaces[OF h1 h2, of specEnv taggedRegistry existingFoo None
      "''typeBuilder''"]
  from t[THEN conjunct2, rule_format, OF ret] obtain r
    where r: "mergeTypes specEnv taggedRegistry existingFoo ?type None ''typeBuilder'' = Inr r"
    by blast
  note u = t[THEN conjunct1, rule_format, OF r]
  have bar: "map_of (fieldCores (fst r)) ''bar'' = Some (Some ''Int'', Some [], Some (Fn ''resolveBar''))"
  proof -
    have "map_of (incomingFields ?type) ''bar'' =
            Some (FieldObject (FieldConfig (Some ''Int'') (Some []) None None)) \<and>
          map_of (tfields existingFoo) ''bar'' =
            Some (FieldConfig (Some ''String'') (Some [(''limit'', ''Int'')]) (Some (Fn ''resolveBar'')) None)"
      by code_simp
    from u[THEN conjunct1, rule_format, OF this] show ?thesis by (simp add: orElse_def)
  qed
  have new: "map_of (fieldCores (fst r)) ''new'' = Some (Some ''Boolean'', None, None)"
  proof -
    have "map_of (incomingFields ?type) ''new'' =
            Some (FieldObject (FieldConfig (Some ''Boolean'') None None None)) \<and>
          map_of (tfields existingFoo) ''new'' = None"
      by code_simp
    from u[THEN conjunct2, THEN conjunct1, rule_format, OF this] show ?thesis by simp
  qed
  have short: "map_of (fieldCores (fst r)) ''short'' = Some (Some ''Date'', None, None)"
  proof -
    have "map_of (incomingFields ?type) ''short'' = Some (TypeString ''Date'') \<and>
          map_of (tfields existingFoo) ''short'' = None"
      by code_simp
    from u[THEN conjunct2, THEN conjunct2, THEN conjunct1, rule_format, OF this] show ?thesis .
  qed
  have old: "map_of (fieldCores (fst r)) ''old'' = Some (Some ''Int'', None, None)"
  proof -
    have n: "map_of (incomingFields ?type) ''old'' = None" by code_simp
    have "map_of (fieldCores existingFoo) ''old'' = Some (Some ''Int'', None, None)" by code_simp
    with u[THEN conjunct2, THEN conjunct2, THEN conjunct2, THEN conjunct1, rule_format, OF n]
    show ?thesis by simp
  qed
  from u[THEN conjunct2, THEN conjunct2, THEN conjunct2, THEN conjunct2, THEN conjunct1,
         rule_format, OF k]
  obtain ifaces where ii: "incomingInterfaces taggedRegistry ?type = Inr ifaces"
    and s: "set (tinterfaces (fst r)) = set (tinterfaces existingFoo) \<union> set ifaces"
    and dd: "distinct (tinterfaces existingFoo) \<longrightarrow> distinct (tinterfaces (fst r))"
    by blast
  from ii i have "ifaces = [''Node'', ''Tagged'']" by simp
  with s have s': "set (tinterfaces (fst r)) = {''Node'', ''Tagged''}"
    by (auto simp: existingFoo_def newType_def)
  from dd d have di: "distinct (tinterfaces (fst r))" by simp
  have ex: "\<exists>r. mergeTypes specEnv taggedRegistry existingFoo ?type None ''typeBuilder'' = Inr r
        \<and> map_of (fieldCores (fst r)) ''bar'' = Some (Some ''Int'', Some [], Some (Fn ''resolveBar''))
        \<and> map_of (fieldCores (fst r)) ''old'' = Some (Some ''Int'', None, None)
        \<and> map_of (fieldCores (fst r)) ''new'' = Some (Some ''Boolean'', None, None)
        \<and> map_of (fieldCores (fst r)) ''short'' = Some (Some ''Date'', None, None)
        \<and> set (tinterfaces (fst r)) = {''Node'', ''Tagged''}
        \<and> distinct (tinterfaces (fst r))"
    apply (rule exI[of _ r])
    apply (intro conjI)
          apply (rule r)
         apply (rule bar)
        apply (rule old)
       apply (rule new)
      apply (rule short)
     apply (rule s')
    apply (rule di)
    done
  from h1 h2 ex show ?thesis by (intro conjI)
qed

text \<open>
  The existing field \<open>Foo.bar\<close> has a resolver and the incoming one has none: after the
  merge the field has the incoming type and still the existing resolver, so its type,
  arguments and resolver are not those of the incoming field.
\<close>

theorem merge_keeps_resolver_counterexample:
  "\<not> isl (mergeTypes specEnv emptyRegistry existingFoo (Composer incomingFoo) None ''sdl'')
   \<and> map_of (fieldCores (fst (projr (mergeTypes specEnv emptyRegistry existingFoo
                                        (Composer incomingFoo) None ''sdl''))))
        ''bar'' \<noteq> map_of (fieldCores incomingFoo) ''bar''
   \<and> map_of (fieldCores (fst (projr (mergeTypes specEnv emptyRegistry existingFoo
                                        (Composer incomingFoo) None ''sdl''))))
        ''bar'' = Some (Some ''Int'', Some [], Some (Fn ''resolveBar''))
   \<and> map_of (fieldCores incomingFoo) ''bar'' = Some (Some ''Int'', Some [], None)"
  by code_simp

lemma sublist_concat: "x \<in> set xs \<Longrightarrow> sublist x (concat xs)"
proof (induction xs)
  case Nil
  then show ?case by simp
next
  case (Cons y ys)
  show ?case
  proof (cases "x = y")
    case True
    then show ?thesis by (simp add: sublist_here)
  next
    case False
    with Cons have "sublist x (concat ys)" by simp
    then obtain ps ss where "concat ys = ps @ x @ ss" by (auto simp: sublist_def)
    then have "concat (y # ys) = (y @ ps) @ x @ ss" by simp
    then show ?thesis unfolding sublist_def by blast
  qed
qed

lemma nodeInterfacePanic_names: "sublist name (nodeInterfacePanic name)"
  unfolding nodeInterfacePanic_def by (rule sublist_concat) simp

lemma unsafeMergeWarning_names:
  "sublist p (unsafeMergeWarning p t owner) \<and> sublist t (unsafeMergeWarning p t owner) \<and>
   (\<forall>s. owner = Some (JStr s) \<and> s \<noteq> [] \<longrightarrow> sublist s (unsafeMergeWarning p t owner))"
proof -
  have 1: "sublist p (builtInTypeWarning p t)" "sublist t (builtInTypeWarning p t)"
    unfolding builtInTypeWarning_def by (rule sublist_concat, simp)+
  have 2: "\<And>v. sublist p (ownedTypeWarning p t v)" "\<And>v. sublist t (ownedTypeWarning p t v)"
    "\<And>v. sublist (toStringJS v) (ownedTypeWarning p t v)"
    unfolding ownedTypeWarning_def by (rule sublist_concat, simp)+
  show ?thesis
  proof (cases owner)
    case None
    with 1 show ?thesis by (simp add: unsafeMergeWarning_def)
  next
    case (Some v)
    show ?thesis
    proof (cases "truthy v")
      case True
      have "\<And>s. v = JStr s \<Longrightarrow> sublist s (ownedTypeWarning p t v)"
        using 2(3)[of v] by simp
      with True Some 2 show ?thesis by (auto simp: unsafeMergeWarning_def)
    next
      case False
      then have "\<And>s. v = JStr s \<Longrightarrow> s = []" by auto
      with False Some 1 show ?thesis by (auto simp: unsafeMergeWarning_def)
    qed
  qed
qed

text \<open>
  Claim C7, as the code has it. A merge is safe exactly when no plugin is given, or the plugin is
  \<open>default-site-plugin\<close>, or its name is the \<open>plugin\<close> extension of the existing
  composer. A safe merge warns of nothing about ownership. An unsafe merge reports one
  warning, which contains the name of the incoming plugin, the name of the type and, when
  the existing composer has an owner (a non-empty string), the owner's name. The merge
  goes on all the same: whether \<open>mergeTypes\<close> returns is the same for every plugin, and
  when it returns the warning comes first among its reports and the composer has the
  merged fields (a field of the incoming object or interface type takes the place of
  what it defines in the existing field, or is added, and the other fields stay) and the
  interfaces of both. It returns whenever the existing composer is an object type and
  the incoming one a composer whose interfaces are found; when it does not, the cause is
  one that has nothing to do with the plugin: a type object of graphql-js of object or
  interface kind, an existing composer of a kind without fields or interfaces to
  merge into, an interface that the registry does not have, or the \<open>nodeInterface\<close>
  panic of \<open>addExtensions\<close>.
\<close>

theorem unsafe_merge_warns_and_proceeds:
  "(isSafeMerge plugin (getExtension tc ''plugin'') =
      (plugin = None \<or>
       (\<exists>p. plugin = Some p \<and>
            (pluginName p = ''default-site-plugin'' \<or>
             getExtension tc ''plugin'' = Some (JStr (pluginName p))))))
   \<and> (isSafeMerge plugin (getExtension tc ''plugin'') \<longrightarrow> mergeWarnings tc plugin = [])
   \<and> (\<not> isSafeMerge plugin (getExtension tc ''plugin'') \<longrightarrow>
        (\<exists>p msg. plugin = Some p \<and> mergeWarnings tc plugin = [Warn msg] \<and>
           sublist (pluginName p) msg \<and> sublist (tname tc) msg \<and>
           (\<forall>owner. getExtension tc ''plugin'' = Some (JStr owner) \<and> owner \<noteq> [] \<longrightarrow>
              sublist owner msg)))
   \<and> (\<forall>r. mergeTypes env sc tc type plugin createdFrom = Inr r \<longrightarrow>
        snd r = mergeWarnings tc plugin @ drop (length (mergeWarnings tc plugin)) (snd r) \<and>
        tname (fst r) = tname tc \<and> tkind (fst r) = tkind tc \<and>
        ((incomingKind type = ObjectKind \<or> incomingKind type = InterfaceKind) \<and>
         distinct (map fst (incomingFields type)) \<longrightarrow>
           (\<forall>f. map_of (fieldCores (fst r)) f =
              (case map_of (incomingFields type) f of
                 None \<Rightarrow> map_of (fieldCores tc) f
               | Some (FieldObject inc) \<Rightarrow>
                   (case map_of (tfields tc) f of
                      None \<Rightarrow> Some (ftype inc, fargs inc, fresolve inc)
                    | Some prev \<Rightarrow>
                        Some (orElse (ftype inc) (ftype prev), orElse (fargs inc) (fargs prev),
                              orElse (fresolve inc) (fresolve prev)))
               | Some (TypeString t) \<Rightarrow>
                   (case map_of (tfields tc) f of
                      None \<Rightarrow> Some (Some t, None, None)
                    | Some prev \<Rightarrow> Some (ftype prev, fargs prev, fresolve prev)))) \<and>
           (incomingKind type = ObjectKind \<longrightarrow>
              (\<exists>ifaces. incomingInterfaces sc type = Inr ifaces \<and>
                 set (tinterfaces (fst r)) = set (tinterfaces tc) \<union> set ifaces))))
   \<and> (\<forall>plugin'. isl (mergeTypes env sc tc type plugin createdFrom) =
                  isl (mergeTypes env sc tc type plugin' createdFrom))
   \<and> (tkind tc = ObjectKind \<and> (\<forall>t. type \<noteq> GraphQLType t) \<and>
      \<not> isl (incomingInterfaces sc type) \<longrightarrow>
        (\<exists>r. mergeTypes env sc tc type plugin createdFrom = Inr r))
   \<and> (\<forall>e. mergeTypes env sc tc type plugin createdFrom = Inl e \<longrightarrow>
        (\<exists>t. type = GraphQLType t \<and> (tkind t = ObjectKind \<or> tkind t = InterfaceKind))
        \<or> (incomingFields type \<noteq> [] \<and> \<not> hasFieldMethods (tkind tc))
        \<or> (incomingKind type = ObjectKind \<and> incomingInterfaces sc type = Inl e)
        \<or> (incomingKind type = ObjectKind \<and> tkind tc \<noteq> ObjectKind \<and>
            (\<exists>ifaces. incomingInterfaces sc type = Inr ifaces \<and> ifaces \<noteq> []))
        \<or> (createdFrom = ''sdl'' \<and> tkind tc = InterfaceKind \<and>
            e = Panic (nodeInterfacePanic (tname tc))))"
proof (intro conjI allI impI)
  show "isSafeMerge plugin (getExtension tc ''plugin'') =
      (plugin = None \<or>
       (\<exists>p. plugin = Some p \<and>
            (pluginName p = ''default-site-plugin'' \<or>
             getExtension tc ''plugin'' = Some (JStr (pluginName p)))))"
    by (cases plugin) (simp_all add: isSafeMerge_def)
next
  assume "isSafeMerge plugin (getExtension tc ''plugin'')"
  then show "mergeWarnings tc plugin = []" by (simp add: mergeWarnings_def)
next
  assume u: "\<not> isSafeMerge plugin (getExtension tc ''plugin'')"
  then obtain p where p: "plugin = Some p" by (cases plugin) (simp_all add: isSafeMerge_def)
  let ?msg = "unsafeMergeWarning (pluginName p) (tname tc) (getExtension tc ''plugin'')"
  have "mergeWarnings tc plugin = [Warn ?msg]"
    using u p by (simp add: mergeWarnings_def)
  with p unsafeMergeWarning_names[of "pluginName p" "tname tc" "getExtension tc ''plugin''"]
  show "\<exists>p msg. plugin = Some p \<and> mergeWarnings tc plugin = [Warn msg] \<and>
           sublist (pluginName p) msg \<and> sublist (tname tc) msg \<and>
           (\<forall>owner. getExtension tc ''plugin'' = Some (JStr owner) \<and> owner \<noteq> [] \<longrightarrow>
              sublist owner msg)"
    by blast
next
  fix r
  assume "mergeTypes env sc tc type plugin createdFrom = Inr r"
  from mergeTypes_Inr[OF this]
  show "snd r = mergeWarnings tc plugin @ drop (length (mergeWarnings tc plugin)) (snd r)"
    by auto
next
  fix r
  assume "mergeTypes env sc tc type plugin createdFrom = Inr r"
  from mergeTypes_keeps[OF this] show "tname (fst r) = tname tc" by blast
next
  fix r
  assume "mergeTypes env sc tc type plugin createdFrom = Inr r"
  from mergeTypes_keeps[OF this] show "tkind (fst r) = tkind tc" by blast
next
  fix r f
  assume r: "mergeTypes env sc tc type plugin createdFrom = Inr r"
    and h: "(incomingKind type = ObjectKind \<or> incomingKind type = InterfaceKind) \<and>
         distinct (map fst (incomingFields type))"
  from h have k: "incomingKind type = ObjectKind \<or> incomingKind type = InterfaceKind"
    and d: "distinct (map fst (incomingFields type))" by simp_all
  show "map_of (fieldCores (fst r)) f =
              (case map_of (incomingFields type) f of
                 None \<Rightarrow> map_of (fieldCores tc) f
               | Some (FieldObject inc) \<Rightarrow>
                   (case map_of (tfields tc) f of
                      None \<Rightarrow> Some (ftype inc, fargs inc, fresolve inc)
                    | Some prev \<Rightarrow>
                        Some (orElse (ftype inc) (ftype prev), orElse (fargs inc) (fargs prev),
                              orElse (fresolve inc) (fresolve prev)))
               | Some (TypeString t) \<Rightarrow>
                   (case map_of (tfields tc) f of
                      None \<Rightarrow> Some (Some t, None, None)
                    | Some prev \<Rightarrow> Some (ftype prev, fargs prev, fresolve prev)))"
    unfolding mergeTypes_fields[OF r k d]
    by (simp add: fieldCore_def split: option.splits fieldDef.splits)
next
  fix r
  assume r: "mergeTypes env sc tc type plugin createdFrom = Inr r"
    and h: "(incomingKind type = ObjectKind \<or> incomingKind type = InterfaceKind) \<and>
         distinct (map fst (incomingFields type))"
    and o: "incomingKind type = ObjectKind"
  from h have k: "incomingKind type = ObjectKind \<or> incomingKind type = InterfaceKind" by simp
  from mergeTypes_interfaces[OF r k, THEN conjunct1, rule_format, OF o]
  obtain ifaces where "incomingInterfaces sc type = Inr ifaces"
    "set (tinterfaces (fst r)) = set (tinterfaces tc) \<union> set ifaces"
    by (elim exE conjE)
  then show "\<exists>ifaces. incomingInterfaces sc type = Inr ifaces \<and>
                 set (tinterfaces (fst r)) = set (tinterfaces tc) \<union> set ifaces"
    by (intro exI conjI)
next
  fix plugin'
  show "isl (mergeTypes env sc tc type plugin createdFrom) =
        isl (mergeTypes env sc tc type plugin' createdFrom)"
    by (rule mergeTypes_isl_plugin)
next
  assume "tkind tc = ObjectKind \<and> (\<forall>t. type \<noteq> GraphQLType t) \<and>
          \<not> isl (incomingInterfaces sc type)"
  then show "\<exists>r. mergeTypes env sc tc type plugin createdFrom = Inr r"
    using mergeTypes_into_object[of tc type sc env plugin createdFrom] by blast
next
  fix e
  assume m: "mergeTypes env sc tc type plugin createdFrom = Inl e"
  from mergeTypes_Inl[OF m]
  show "(\<exists>t. type = GraphQLType t \<and> (tkind t = ObjectKind \<or> tkind t = InterfaceKind))
        \<or> (incomingFields type \<noteq> [] \<and> \<not> hasFieldMethods (tkind tc))
        \<or> (incomingKind type = ObjectKind \<and> incomingInterfaces sc type = Inl e)
        \<or> (incomingKind type = ObjectKind \<and> tkind tc \<noteq> ObjectKind \<and>
            (\<exists>ifaces. incomingInterfaces sc type = Inr ifaces \<and> ifaces \<noteq> []))
        \<or> (createdFrom = ''sdl'' \<and> tkind tc = InterfaceKind \<and>
            e = Panic (nodeInterfacePanic (tname tc)))"
  proof
    assume "mergeInto sc tc type = Inl e"
    from mergeInto_Inl[OF this] show ?thesis by blast
  next
    assume "\<exists>m. mergeInto sc tc type = Inr m \<and>
        addExtensions env plugin createdFrom (mergeExtensions m type) = Inl e"
    then obtain m where mi: "mergeInto sc tc type = Inr m"
      and a: "addExtensions env plugin createdFrom (mergeExtensions m type) = Inl e" by blast
    from a have "\<exists>e. addExtensions env plugin createdFrom (mergeExtensions m type) = Inl e" by blast
    then have c: "createdFrom = ''sdl''" "tkind (mergeExtensions m type) = InterfaceKind"
      by (simp_all add: addExtensions_fails_iff)
    from addExtensions_panic[OF a] have "e = Panic (nodeInterfacePanic (tname (mergeExtensions m type)))" .
    with c mergeInto_keeps[OF mi] show ?thesis by simp
  qed
qed

theorem unsafe_merge_warns_and_proceeds_witness:
  "\<not> isSafeMerge (Some (Plugin ''gatsby-source-b'')) (getExtension existingFoo ''plugin'')
   \<and> (\<exists>msg. mergeWarnings existingFoo (Some (Plugin ''gatsby-source-b'')) = [Warn msg] \<and>
          sublist ''gatsby-source-b'' msg \<and> sublist ''Foo'' msg \<and> sublist ''gatsby-source-a'' msg)
   \<and> isSafeMerge (Some (Plugin ''gatsby-source-a'')) (getExtension existingFoo ''plugin'')
   \<and> mergeWarnings existingFoo (Some (Plugin ''gatsby-source-a'')) = []
   \<and> (\<exists>r. mergeTypes specEnv emptyRegistry existingFoo (Composer incomingFoo)
             (Some (Plugin ''gatsby-source-b'')) ''typeBuilder'' = Inr r
        \<and> map_of (fieldCores (fst r)) ''bar'' = Some (Some ''Int'', Some [], Some (Fn ''resolveBar''))
        \<and> map_of (fieldCores (fst r)) ''new'' = Some (Some ''Boolean'', None, None)
        \<and> set (tinterfaces (fst r)) = {''Node'', ''Tagged''})"
proof -
  let ?type = "Composer incomingFoo"
  note t = unsafe_merge_warns_and_proceeds[of "Some (Plugin ''gatsby-source-b'')" existingFoo
      specEnv emptyRegistry ?type "''typeBuilder''"]
  note s = unsafe_merge_warns_and_proceeds[of "Some (Plugin ''gatsby-source-a'')" existingFoo
      specEnv emptyRegistry ?type "''typeBuilder''"]
  have u: "\<not> isSafeMerge (Some (Plugin ''gatsby-source-b'')) (getExtension existingFoo ''plugin'')"
    by code_simp
  have o: "getExtension existingFoo ''plugin'' = Some (JStr ''gatsby-source-a'') \<and>
           ''gatsby-source-a'' \<noteq> []" by code_simp
  have n: "tname existingFoo = ''Foo''" by code_simp
  from t[THEN conjunct2, THEN conjunct2, THEN conjunct1, rule_format, OF u]
  obtain p msg where w: "Some (Plugin ''gatsby-source-b'') = Some p"
      "mergeWarnings existingFoo (Some (Plugin ''gatsby-source-b'')) = [Warn msg]"
      "sublist (pluginName p) msg" "sublist (tname existingFoo) msg"
      "\<forall>owner. getExtension existingFoo ''plugin'' = Some (JStr owner) \<and> owner \<noteq> [] \<longrightarrow>
              sublist owner msg"
    by (elim exE conjE)
  from w(5)[rule_format, OF o] have w5: "sublist ''gatsby-source-a'' msg" .
  from w(1) have pn: "pluginName p = ''gatsby-source-b''" by auto
  have a: "\<exists>msg. mergeWarnings existingFoo (Some (Plugin ''gatsby-source-b'')) = [Warn msg] \<and>
          sublist ''gatsby-source-b'' msg \<and> sublist ''Foo'' msg \<and> sublist ''gatsby-source-a'' msg"
    apply (rule exI[of _ msg])
    apply (intro conjI)
       apply (rule w(2))
      apply (rule w(3)[unfolded pn])
     apply (rule w(4)[unfolded n])
    apply (rule w5)
    done
  have sa: "isSafeMerge (Some (Plugin ''gatsby-source-a'')) (getExtension existingFoo ''plugin'')"
    by code_simp
  from s[THEN conjunct2, THEN conjunct1, rule_format, OF sa]
  have b: "mergeWarnings existingFoo (Some (Plugin ''gatsby-source-a'')) = []" .
  have ret: "tkind existingFoo = ObjectKind \<and> (\<forall>t. ?type \<noteq> GraphQLType t) \<and>
      \<not> isl (incomingInterfaces emptyRegistry ?type)"
    by (simp add: existingFoo_def newType_def incomingInterfaces_def)
  from t[THEN conjunct2, THEN conjunct2, THEN conjunct2, THEN conjunct2, THEN conjunct2,
         THEN conjunct1, rule_format, OF ret]
  obtain r where r: "mergeTypes specEnv emptyRegistry existingFoo ?type
             (Some (Plugin ''gatsby-source-b'')) ''typeBuilder'' = Inr r" by blast
  have kd: "(incomingKind ?type = ObjectKind \<or> incomingKind ?type = InterfaceKind) \<and>
         distinct (map fst (incomingFields ?type))" by code_simp
  have k: "incomingKind ?type = ObjectKind" by code_simp
  note e = t[THEN conjunct2, THEN conjunct2, THEN conjunct2, THEN conjunct1, rule_format, OF r,
      THEN conjunct2, THEN conjunct2, THEN conjunct2, rule_format, OF kd]
  have bar: "map_of (fieldCores (fst r)) ''bar'' = Some (Some ''Int'', Some [], Some (Fn ''resolveBar''))"
    unfolding e[THEN conjunct1, rule_format, of "''bar''"] by code_simp
  have new: "map_of (fieldCores (fst r)) ''new'' = Some (Some ''Boolean'', None, None)"
    unfolding e[THEN conjunct1, rule_format, of "''new''"] by code_simp
  from e[THEN conjunct2, rule_format, OF k] obtain ifaces
    where i: "incomingInterfaces emptyRegistry ?type = Inr ifaces"
      "set (tinterfaces (fst r)) = set (tinterfaces existingFoo) \<union> set ifaces"
    by (elim exE conjE)
  have "incomingInterfaces emptyRegistry ?type = Inr [''Node'', ''Tagged'']" by code_simp
  with i have ifs: "set (tinterfaces (fst r)) = {''Node'', ''Tagged''}"
    by (auto simp: existingFoo_def newType_def)
  have c: "\<exists>r. mergeTypes specEnv emptyRegistry existingFoo ?type
             (Some (Plugin ''gatsby-source-b'')) ''typeBuilder'' = Inr r
        \<and> map_of (fieldCores (fst r)) ''bar'' = Some (Some ''Int'', Some [], Some (Fn ''resolveBar''))
        \<and> map_of (fieldCores (fst r)) ''new'' = Some (Some ''Boolean'', None, None)
        \<and> set (tinterfaces (fst r)) = {''Node'', ''Tagged''}"
    apply (rule exI[of _ r])
    apply (intro conjI)
       apply (rule r)
      apply (rule bar)
     apply (rule new)
    apply (rule ifs)
    done
  from u a sa b c show ?thesis by (intro conjI)
qed

text \<open>
  The plugin \<open>gatsby-source-b\<close> brings, by a type builder, a type \<open>Foo\<close> that names the
  interface \<open>Tagged\<close>, which the registry does not have; \<open>Foo\<close> is owned by
  \<open>gatsby-source-a\<close>. The merge is unsafe and does not succeed: looking up the
  interface throws.
\<close>

theorem unsafe_merge_throws_counterexample:
  "\<not> isSafeMerge (Some (Plugin ''gatsby-source-b'')) (getExtension existingFoo ''plugin'')
   \<and> mergeTypes specEnv nodeRegistry existingFoo (TempComposer ObjectKind builtFoo)
         (Some (Plugin ''gatsby-source-b'')) ''typeBuilder'' =
       Inl (Thrown ''Cannot find InterfaceTypeComposer with name Tagged'')"
  by code_simp

lemma addTypes_new_document_type:
  assumes "checkIsAllowedTypeName (tname tc) = Inr ()" and "getTC sc (tname tc) = None"
  shows "addTypes env sc ((Document [tc], plugin) # rest) =
     (case processAddedType env (setType sc tc) (Composer tc) ''sdl'' plugin of
        Inl e \<Rightarrow> Inl e
      | Inr sc' \<Rightarrow> addTypes env sc' rest)"
  using assms by (simp add: addType_def split: sum.splits)

lemma processAddedType_panics:
  assumes "tkind tc = InterfaceKind"
    and "''nodeInterface'' \<in> fst ` set (getDirectives (textensions tc))"
    and "\<not> nodeInterfaceIdOk tc"
  shows "processAddedType env sc (Composer tc) ''sdl'' plugin = Inl (Panic (nodeInterfacePanic (tname tc)))"
proof -
  define tc1 where "tc1 = (if \<not> tresolveType tc then tc\<lparr>tresolveType := True\<rparr> else tc)"
  have k: "tkind tc1 = InterfaceKind" "textensions tc1 = textensions tc" "tname tc1 = tname tc"
    "nodeInterfaceIdOk tc1 = nodeInterfaceIdOk tc"
    using assms(1) by (simp_all add: tc1_def nodeInterfaceIdOk_def hasField_def)
  have "\<exists>e. addExtensions env plugin ''sdl'' tc1 = Inl e"
    using assms k by (simp add: addExtensions_fails_iff)
  then obtain e where e: "addExtensions env plugin ''sdl'' tc1 = Inl e" by blast
  from addExtensions_panic[OF e] k have "e = Panic (nodeInterfacePanic (tname tc))" by simp
  with e show ?thesis
    using assms(1) by (simp add: processAddedType_def incomingDef_def Let_def tc1_def)
qed

text \<open>
  Claim C9. For a composer of interface kind that carries a \<open>nodeInterface\<close> directive and
  is processed as coming from a textual definition: without a field \<open>id\<close> of type
  \<open>ID!\<close>, \<open>addExtensions\<close> panics with a message that contains the name of the type,
  and so does \<open>addTypes\<close> on a document that introduces the type; with such a field,
  \<open>addExtensions\<close> returns and the extension \<open>nodeInterface\<close> is \<open>true\<close>.
\<close>

theorem nodeInterface_directive_needs_id:
  assumes "tkind tc = InterfaceKind"
    and "''nodeInterface'' \<in> fst ` set (getDirectives (textensions tc))"
  shows "(\<not> (\<exists>c. map_of (tfields tc) ''id'' = Some c \<and> ftype c = Some ''ID!'') \<longrightarrow>
            addExtensions env plugin ''sdl'' tc = Inl (Panic (nodeInterfacePanic (tname tc)))
            \<and> sublist (tname tc) (nodeInterfacePanic (tname tc))
            \<and> (checkIsAllowedTypeName (tname tc) = Inr () \<and> getTC sc (tname tc) = None \<longrightarrow>
                 addTypes env sc ((Document [tc], plugin) # rest) =
                   Inl (Panic (nodeInterfacePanic (tname tc)))))
       \<and> ((\<exists>c. map_of (tfields tc) ''id'' = Some c \<and> ftype c = Some ''ID!'') \<longrightarrow>
            (\<exists>r. addExtensions env plugin ''sdl'' tc = Inr r \<and>
                 getExtension (fst r) ''nodeInterface'' = Some (JBool True)))"
proof (intro conjI impI)
  assume "\<not> (\<exists>c. map_of (tfields tc) ''id'' = Some c \<and> ftype c = Some ''ID!'')"
  then have bad: "\<not> nodeInterfaceIdOk tc" by (simp add: nodeInterfaceIdOk_iff)
  have "\<exists>e. addExtensions env plugin ''sdl'' tc = Inl e"
    using assms bad by (simp add: addExtensions_fails_iff)
  then obtain e where e: "addExtensions env plugin ''sdl'' tc = Inl e" by blast
  from addExtensions_panic[OF e] e
  show "addExtensions env plugin ''sdl'' tc = Inl (Panic (nodeInterfacePanic (tname tc)))" by simp
next
  show "sublist (tname tc) (nodeInterfacePanic (tname tc))" by (rule nodeInterfacePanic_names)
next
  assume "\<not> (\<exists>c. map_of (tfields tc) ''id'' = Some c \<and> ftype c = Some ''ID!'')"
    and n: "checkIsAllowedTypeName (tname tc) = Inr () \<and> getTC sc (tname tc) = None"
  then have bad: "\<not> nodeInterfaceIdOk tc" by (simp add: nodeInterfaceIdOk_iff)
  from n have n1: "checkIsAllowedTypeName (tname tc) = Inr ()" and n2: "getTC sc (tname tc) = None"
    by simp_all
  show "addTypes env sc ((Document [tc], plugin) # rest) = Inl (Panic (nodeInterfacePanic (tname tc)))"
    unfolding addTypes_new_document_type[OF n1 n2]
    by (simp add: processAddedType_panics[OF assms bad])
next
  assume "\<exists>c. map_of (tfields tc) ''id'' = Some c \<and> ftype c = Some ''ID!''"
  then have ok: "nodeInterfaceIdOk tc" by (simp add: nodeInterfaceIdOk_iff)
  have "\<not> (\<exists>e. addExtensions env plugin ''sdl'' tc = Inl e)"
    using ok by (simp add: addExtensions_fails_iff)
  then obtain r where r: "addExtensions env plugin ''sdl'' tc = Inr r"
    by (cases "addExtensions env plugin ''sdl'' tc") auto
  from addExtensions_Inr[OF r] obtain tc3
    where t: "addTypeExtensions plugin ''sdl'' tc = Inr tc3"
      and r': "r = addFieldsExtensions env plugin ''sdl'' tc3" by blast
  from t have p: "processDirectives (stamped plugin ''sdl'' tc) (getDirectives (textensions tc)) = Inr tc3"
    by (simp add: addTypeExtensions_alt)
  have "getExtension tc3 ''nodeInterface'' = Some (JBool True)"
    by (rule processDirectives_sets_ni[OF p]) (simp add: assms)
  with r' have "getExtension (fst r) ''nodeInterface'' = Some (JBool True)"
    by (simp add: getExtension_def)
  with r show "\<exists>r. addExtensions env plugin ''sdl'' tc = Inr r \<and>
                 getExtension (fst r) ''nodeInterface'' = Some (JBool True)"
    by blast
qed

theorem nodeInterface_directive_needs_id_witness:
  "tkind (taggable ''ID'' InterfaceKind) = InterfaceKind
   \<and> ''nodeInterface'' \<in> fst ` set (getDirectives (textensions (taggable ''ID'' InterfaceKind)))
   \<and> addExtensions specEnv None ''sdl'' (taggable ''ID'' InterfaceKind) =
       Inl (Panic (nodeInterfacePanic ''Taggable''))
   \<and> addTypes specEnv emptyRegistry [(Document [taggable ''ID'' InterfaceKind], None)] =
       Inl (Panic (nodeInterfacePanic ''Taggable''))
   \<and> sublist ''Taggable'' (nodeInterfacePanic ''Taggable'')
   \<and> (\<exists>r. addExtensions specEnv None ''sdl'' (taggable ''ID!'' InterfaceKind) = Inr r \<and>
            getExtension (fst r) ''nodeInterface'' = Some (JBool True))"
proof -
  have k: "\<And>t. tkind (taggable t InterfaceKind) = InterfaceKind"
    by (simp add: taggable_def newType_def)
  have d: "\<And>t. ''nodeInterface'' \<in> fst ` set (getDirectives (textensions (taggable t InterfaceKind)))"
    by (simp add: taggable_def newType_def getDirectives_def)
  have n: "\<And>t. tname (taggable t InterfaceKind) = ''Taggable''"
    by (simp add: taggable_def newType_def)
  have bad: "\<not> (\<exists>c. map_of (tfields (taggable ''ID'' InterfaceKind)) ''id'' = Some c \<and> ftype c = Some ''ID!'')"
    by (simp add: taggable_def newType_def)
  have good: "\<exists>c. map_of (tfields (taggable ''ID!'' InterfaceKind)) ''id'' = Some c \<and> ftype c = Some ''ID!''"
    by (simp add: taggable_def newType_def)
  have c: "checkIsAllowedTypeName (tname (taggable ''ID'' InterfaceKind)) = Inr () \<and>
           getTC emptyRegistry (tname (taggable ''ID'' InterfaceKind)) = None"
    unfolding n by code_simp
  note t1 = nodeInterface_directive_needs_id[OF k d, of "''ID''" specEnv None emptyRegistry "[]"]
  note t2 = nodeInterface_directive_needs_id[OF k d, of "''ID!''" specEnv None emptyRegistry "[]"]
  from t1 bad c have a: "addExtensions specEnv None ''sdl'' (taggable ''ID'' InterfaceKind) =
       Inl (Panic (nodeInterfacePanic ''Taggable''))"
    and b: "addTypes specEnv emptyRegistry [(Document [taggable ''ID'' InterfaceKind], None)] =
       Inl (Panic (nodeInterfacePanic ''Taggable''))"
    and s: "sublist ''Taggable'' (nodeInterfacePanic ''Taggable'')"
    unfolding n by blast+
  from t2 good have g: "\<exists>r. addExtensions specEnv None ''sdl'' (taggable ''ID!'' InterfaceKind) = Inr r \<and>
            getExtension (fst r) ''nodeInterface'' = Some (JBool True)"
    by blast
  from k d a b s g show ?thesis by blast
qed

text \<open>
  Claim C10. On a composer that is not of interface kind, the step for a \<open>nodeInterface\<close>
  directive changes nothing, the loop over the directives is the loop without these
  directives, and \<open>addExtensions\<close> returns: the extension \<open>nodeInterface\<close> is what it was
  before and the reports are those of the field extensions followed by the deprecation
  warning for \<open>addDefaultResolvers\<close>, none of them about the directive.
\<close>

theorem nodeInterface_on_non_interface_ignored:
  assumes "tkind tc \<noteq> InterfaceKind"
  shows "directiveStep tc (''nodeInterface'', args) = Inr tc
       \<and> processDirectives tc ds =
           processDirectives tc (filter (\<lambda>d. fst d \<noteq> ''nodeInterface'') ds)
       \<and> (\<exists>r. addExtensions env plugin ''sdl'' tc = Inr r
              \<and> getExtension (fst r) ''nodeInterface'' = getExtension tc ''nodeInterface''
              \<and> snd r =
                  (if tkind tc = ObjectKind \<or> tkind tc = InputKind
                   then concat (map (\<lambda>fld. snd (addFieldExtensions env plugin ''sdl'' (tname tc) fld))
                                  (tfields tc))
                   else [])
                  @ (if hasExtension (fst r) ''addDefaultResolvers''
                     then [Warn deprecationWarning] else []))"
proof (intro conjI)
  show "directiveStep tc (''nodeInterface'', args) = Inr tc"
    by (rule directiveStep_ignored[OF assms])
next
  show "processDirectives tc ds =
           processDirectives tc (filter (\<lambda>d. fst d \<noteq> ''nodeInterface'') ds)"
    by (rule processDirectives_filter[OF assms])
next
  have "\<not> (\<exists>e. addExtensions env plugin ''sdl'' tc = Inl e)"
    using assms by (simp add: addExtensions_fails_iff)
  then obtain r where r: "addExtensions env plugin ''sdl'' tc = Inr r"
    by (cases "addExtensions env plugin ''sdl'' tc") auto
  from addExtensions_Inr[OF r] obtain tc3
    where t: "addTypeExtensions plugin ''sdl'' tc = Inr tc3"
      and r': "r = addFieldsExtensions env plugin ''sdl'' tc3" by blast
  from t have p: "processDirectives (stamped plugin ''sdl'' tc) (getDirectives (textensions tc)) = Inr tc3"
    by (simp add: addTypeExtensions_alt)
  have "getExtension tc3 ''nodeInterface'' = getExtension (stamped plugin ''sdl'' tc) ''nodeInterface''"
    by (rule processDirectives_non_interface_ni[OF p]) (simp add: assms)
  then have "getExtension tc3 ''nodeInterface'' = getExtension tc ''nodeInterface''"
    by simp
  moreover have "getExtension (fst r) ''nodeInterface'' = getExtension tc3 ''nodeInterface''"
    using r' by (simp add: getExtension_def)
  ultimately have e: "getExtension (fst r) ''nodeInterface'' = getExtension tc ''nodeInterface''"
    by simp
  have k3: "tkind tc3 = tkind tc" "tfields tc3 = tfields tc" "tname tc3 = tname tc"
    using addTypeExtensions_keeps[OF t] by simp_all
  have s: "snd r =
                  (if tkind tc = ObjectKind \<or> tkind tc = InputKind
                   then concat (map (\<lambda>fld. snd (addFieldExtensions env plugin ''sdl'' (tname tc) fld))
                                  (tfields tc))
                   else [])
                  @ (if hasExtension (fst r) ''addDefaultResolvers''
                     then [Warn deprecationWarning] else [])"
    unfolding r' using assms k3
    by (simp add: addFieldsExtensions_def Let_def comp_def hasExtension_def)
  from r e s show "\<exists>r. addExtensions env plugin ''sdl'' tc = Inr r
              \<and> getExtension (fst r) ''nodeInterface'' = getExtension tc ''nodeInterface''
              \<and> snd r =
                  (if tkind tc = ObjectKind \<or> tkind tc = InputKind
                   then concat (map (\<lambda>fld. snd (addFieldExtensions env plugin ''sdl'' (tname tc) fld))
                                  (tfields tc))
                   else [])
                  @ (if hasExtension (fst r) ''addDefaultResolvers''
                     then [Warn deprecationWarning] else [])"
    by blast
qed

theorem nodeInterface_on_non_interface_ignored_witness:
  "tkind (taggable ''ID'' ObjectKind) \<noteq> InterfaceKind
   \<and> directiveStep (taggable ''ID'' ObjectKind) (''nodeInterface'', []) = Inr (taggable ''ID'' ObjectKind)
   \<and> (\<exists>r. addExtensions specEnv None ''sdl'' (taggable ''ID'' ObjectKind) = Inr r
          \<and> getExtension (fst r) ''nodeInterface'' = None \<and> snd r = [])
   \<and> addTypes specEnv emptyRegistry [(Document [taggable ''ID'' ObjectKind], None)] =
       Inr \<lparr>types = [\<lparr>tname = ''Taggable'', tkind = ObjectKind,
                      tfields = [(''id'', FieldConfig (Some ''ID'') (Some []) None
                                   (Some [(''createdFrom'', JStr ''sdl''), (''plugin'', JNull)]))],
                      tinterfaces = [],
                      textensions = [(''directives'', JDirectives [(''infer'', []), (''nodeInterface'', [])]),
                                     (''createdFrom'', JStr ''sdl''), (''plugin'', JNull),
                                     (''infer'', JBool True)],
                      tresolveType = False\<rparr>],
            mustHave = [''Taggable''], reports = []\<rparr>"
proof -
  have k: "tkind (taggable ''ID'' ObjectKind) \<noteq> InterfaceKind"
    by (simp add: taggable_def newType_def)
  note t = nodeInterface_on_non_interface_ignored[OF k, of "[]" "[]" specEnv None]
  from t have a: "directiveStep (taggable ''ID'' ObjectKind) (''nodeInterface'', []) = Inr (taggable ''ID'' ObjectKind)"
    by blast
  from t obtain r where r: "addExtensions specEnv None ''sdl'' (taggable ''ID'' ObjectKind) = Inr r"
    "getExtension (fst r) ''nodeInterface'' = getExtension (taggable ''ID'' ObjectKind) ''nodeInterface''"
    "snd r = (if tkind (taggable ''ID'' ObjectKind) = ObjectKind \<or> tkind (taggable ''ID'' ObjectKind) = InputKind
                   then concat (map (\<lambda>fld. snd (addFieldExtensions specEnv None ''sdl'' (tname (taggable ''ID'' ObjectKind)) fld))
                                  (tfields (taggable ''ID'' ObjectKind)))
                   else [])
                  @ (if hasExtension (fst r) ''addDefaultResolvers''
                     then [Warn deprecationWarning] else [])"
    by blast
  have v: "addExtensions specEnv None ''sdl'' (taggable ''ID'' ObjectKind) =
     Inr (\<lparr>tname = ''Taggable'', tkind = ObjectKind,
                      tfields = [(''id'', FieldConfig (Some ''ID'') (Some []) None
                                   (Some [(''createdFrom'', JStr ''sdl''), (''plugin'', JNull)]))],
                      tinterfaces = [],
                      textensions = [(''directives'', JDirectives [(''infer'', []), (''nodeInterface'', [])]),
                                     (''createdFrom'', JStr ''sdl''), (''plugin'', JNull),
                                     (''infer'', JBool True)],
                      tresolveType = False\<rparr>, [])"
    by code_simp
  with r(1) have "snd r = []" by auto
  moreover have "getExtension (taggable ''ID'' ObjectKind) ''nodeInterface'' = None" by code_simp
  ultimately have b: "\<exists>r. addExtensions specEnv None ''sdl'' (taggable ''ID'' ObjectKind) = Inr r
          \<and> getExtension (fst r) ''nodeInterface'' = None \<and> snd r = []"
    using r by auto
  have c: "addTypes specEnv emptyRegistry [(Document [taggable ''ID'' ObjectKind], None)] =
       Inr \<lparr>types = [\<lparr>tname = ''Taggable'', tkind = ObjectKind,
                      tfields = [(''id'', FieldConfig (Some ''ID'') (Some []) None
                                   (Some [(''createdFrom'', JStr ''sdl''), (''plugin'', JNull)]))],
                      tinterfaces = [],
                      textensions = [(''directives'', JDirectives [(''infer'', []), (''nodeInterface'', [])]),
                                     (''createdFrom'', JStr ''sdl''), (''plugin'', JNull),
                                     (''infer'', JBool True)],
                      tresolveType = False\<rparr>],
            mustHave = [''Taggable''], reports = []\<rparr>"
    by code_simp
  from k a b c show ?thesis by blast
qed

lemma sublist_joinWith: "x \<in> set xs \<Longrightarrow> sublist x (joinWith sep xs)"
proof (induction sep xs rule: joinWith.induct)
  case (1 sep)
  then show ?case by simp
next
  case (2 sep y)
  then show ?case by simp
next
  case (3 sep y z zs)
  show ?case
  proof (cases "x = y")
    case True
    then show ?thesis by simp
  next
    case False
    with 3 have "sublist x (joinWith sep (z # zs))" by simp
    then obtain ps ss where "joinWith sep (z # zs) = ps @ x @ ss" by (auto simp: sublist_def)
    then have "joinWith sep (y # z # zs) = (y @ sep @ ps) @ x @ ss" by simp
    then show ?thesis unfolding sublist_def by blast
  qed
qed

lemma mem_map: "x \<in> set xs \<Longrightarrow> f x \<in> set (map f xs)"
  by simp

lemma sublist_trans': "sublist xs ys \<Longrightarrow> sublist ys zs \<Longrightarrow> sublist xs zs"
  by (rule sublist_order.order_trans)

lemma incorrectTypes_iff:
  "n \<in> set (incorrectTypes sc) = (\<exists>t\<in>set (types sc). violatesQueryable sc t \<and> tname t = n)"
  unfolding incorrectTypes_def violatesQueryable_def queryableInterfaces_def hasInterface_def
  by (auto simp: list_ex_iff)

text \<open>
  Claim C6. \<open>checkQueryableInterfaces\<close> returns exactly when no object type of the
  registry implements a queryable interface without implementing \<open>Node\<close>. Otherwise it
  panics once, and the message of that panic contains the name of every such object type
  of the whole registry: the names listed are exactly those of the violating types.
\<close>

theorem queryable_interfaces_checked:
  "(checkQueryableInterfaces sc = Inr ()) = (\<forall>t\<in>set (types sc). \<not> violatesQueryable sc t)
   \<and> ((\<exists>t\<in>set (types sc). violatesQueryable sc t) \<longrightarrow>
        checkQueryableInterfaces sc = Inl (Panic (queryableInterfacesPanic (incorrectTypes sc)))
        \<and> (\<forall>t\<in>set (types sc). violatesQueryable sc t \<longrightarrow>
              sublist (tname t) (queryableInterfacesPanic (incorrectTypes sc)))
        \<and> set (incorrectTypes sc) = tname ` {t \<in> set (types sc). violatesQueryable sc t})"
proof (intro conjI impI ballI)
  have "(incorrectTypes sc = []) = (\<forall>t\<in>set (types sc). \<not> violatesQueryable sc t)"
  proof
    assume e: "incorrectTypes sc = []"
    show "\<forall>t\<in>set (types sc). \<not> violatesQueryable sc t"
    proof
      fix t assume "t \<in> set (types sc)"
      show "\<not> violatesQueryable sc t"
      proof
        assume "violatesQueryable sc t"
        with \<open>t \<in> set (types sc)\<close> have "tname t \<in> set (incorrectTypes sc)"
          using incorrectTypes_iff[of "tname t" sc] by blast
        with e show False by simp
      qed
    qed
  next
    assume a: "\<forall>t\<in>set (types sc). \<not> violatesQueryable sc t"
    show "incorrectTypes sc = []"
    proof (rule ccontr)
      assume "incorrectTypes sc \<noteq> []"
      then obtain n where "n \<in> set (incorrectTypes sc)" by (cases "incorrectTypes sc") auto
      with incorrectTypes_iff[of n sc] a show False by blast
    qed
  qed
  then show "(checkQueryableInterfaces sc = Inr ()) = (\<forall>t\<in>set (types sc). \<not> violatesQueryable sc t)"
    by (simp add: checkQueryableInterfaces_def)
next
  assume "\<exists>t\<in>set (types sc). violatesQueryable sc t"
  then have "incorrectTypes sc \<noteq> []"
    using incorrectTypes_iff[of _ sc] by fastforce
  then show "checkQueryableInterfaces sc = Inl (Panic (queryableInterfacesPanic (incorrectTypes sc)))"
    by (simp add: checkQueryableInterfaces_def)
next
  fix t
  assume "t \<in> set (types sc)" "violatesQueryable sc t"
  then have m: "tname t \<in> set (incorrectTypes sc)"
    using incorrectTypes_iff[of "tname t" sc] by blast
  have 1: "sublist (tname t) (concat [''`'', tname t, ''`''])"
    by (rule sublist_concat) simp
  have "concat [''`'', tname t, ''`''] \<in> set (map (\<lambda>t. concat [''`'', t, ''`'']) (incorrectTypes sc))"
    using m by (rule mem_map)
  then have 2: "sublist (concat [''`'', tname t, ''`''])
           (joinWith '', '' (map (\<lambda>t. concat [''`'', t, ''`'']) (incorrectTypes sc)))"
    by (rule sublist_joinWith)
  have 3: "sublist (joinWith '', '' (map (\<lambda>t. concat [''`'', t, ''`'']) (incorrectTypes sc)))
             (queryableInterfacesPanic (incorrectTypes sc))"
    unfolding queryableInterfacesPanic_def by (rule sublist_concat) simp
  from sublist_trans'[OF sublist_trans'[OF 1 2] 3]
  show "sublist (tname t) (queryableInterfacesPanic (incorrectTypes sc))" .
next
  show "set (incorrectTypes sc) = tname ` {t \<in> set (types sc). violatesQueryable sc t}"
    by (auto simp: incorrectTypes_iff)
qed

theorem queryable_interfaces_checked_witness:
  "(\<exists>t\<in>set (types queryableRegistry). violatesQueryable queryableRegistry t)
   \<and> checkQueryableInterfaces queryableRegistry =
       Inl (Panic (queryableInterfacesPanic [''B'', ''C'']))
   \<and> sublist ''B'' (queryableInterfacesPanic [''B'', ''C''])
   \<and> sublist ''C'' (queryableInterfacesPanic [''B'', ''C''])
   \<and> checkQueryableInterfaces emptyRegistry = Inr ()"
proof -
  have b: "newType ''B'' ObjectKind [] [''I''] [] \<in> set (types queryableRegistry)"
    and c: "newType ''C'' ObjectKind [] [''I''] [] \<in> set (types queryableRegistry)"
    by (simp_all add: queryableRegistry_def)
  have vb: "violatesQueryable queryableRegistry (newType ''B'' ObjectKind [] [''I''] [])"
    and vc: "violatesQueryable queryableRegistry (newType ''C'' ObjectKind [] [''I''] [])"
    by (simp_all add: violatesQueryable_def queryableRegistry_def newType_def extensionTruthy_def
        getExtension_def)
  have i: "incorrectTypes queryableRegistry = [''B'', ''C'']" by code_simp
  have n: "tname (newType ''B'' ObjectKind [] [''I''] []) = ''B''"
    "tname (newType ''C'' ObjectKind [] [''I''] []) = ''C''" by (simp_all add: newType_def)
  have ex: "\<exists>t\<in>set (types queryableRegistry). violatesQueryable queryableRegistry t"
    using b vb by blast
  note t = queryable_interfaces_checked[of queryableRegistry]
  from t ex have p: "checkQueryableInterfaces queryableRegistry =
       Inl (Panic (queryableInterfacesPanic (incorrectTypes queryableRegistry)))"
    and s: "\<forall>t\<in>set (types queryableRegistry). violatesQueryable queryableRegistry t \<longrightarrow>
              sublist (tname t) (queryableInterfacesPanic (incorrectTypes queryableRegistry))"
    by blast+
  from s b vb n have sb: "sublist ''B'' (queryableInterfacesPanic (incorrectTypes queryableRegistry))"
    by fastforce
  from s c vc n have sc: "sublist ''C'' (queryableInterfacesPanic (incorrectTypes queryableRegistry))"
    by fastforce
  have "\<forall>t\<in>set (types emptyRegistry). \<not> violatesQueryable emptyRegistry t"
    by (simp add: emptyRegistry_def)
  with queryable_interfaces_checked[of emptyRegistry]
  have e: "checkQueryableInterfaces emptyRegistry = Inr ()" by blast
  from ex p sb sc e show ?thesis unfolding i by blast
qed


lemma stringifyArray_nonempty: "stringifyArray a \<noteq> []"
  by (simp del: stringifyArray.simps add: stringifyArray.simps[of a])

lemma fieldTypeNameOf_cases:
  "(\<not> typeArgTruthy (rtype fc) \<and> fieldTypeNameOf fc = None) \<or>
   (typeArgTruthy (rtype fc) \<and>
    (\<exists>given. rtype fc = Some given \<and> fieldTypeNameOf fc = Some (typeArgText given) \<and>
             typeArgText given \<noteq> []))"
proof (cases "rtype fc")
  case None
  then show ?thesis by (simp add: typeArgTruthy_def fieldTypeNameOf_def)
next
  case (Some given)
  show ?thesis
  proof (cases given)
    case (TypeName s)
    with Some show ?thesis
      by (simp add: typeArgTruthy_def fieldTypeNameOf_def typeArgText_def)
  next
    case (TypeArray a)
    with Some stringifyArray_nonempty[of a] show ?thesis
      by (simp add: typeArgTruthy_def fieldTypeNameOf_def typeArgText_def del: stringifyArray.simps)
  qed
qed

lemma overrideAccepted_iff:
  "overrideAccepted tc (fieldTypeNameOf fc) originalTypeName = overrideAllowed tc fc originalTypeName"
  using fieldTypeNameOf_cases[of fc]
  by (auto simp: overrideAccepted_def overrideAllowed_def stringFalsy_def isThirdParty_def)

lemma overrideWarning_names:
  "sublist typeName (overrideWarning typeName fieldName given originalTypeName)"
  "sublist fieldName (overrideWarning typeName fieldName given originalTypeName)"
  "sublist given (overrideWarning typeName fieldName given originalTypeName)"
  "sublist originalTypeName (overrideWarning typeName fieldName given originalTypeName)"
  unfolding overrideWarning_def by (rule sublist_concat, simp)+

lemma overrideExistingField_rejected:
  assumes "\<not> overrideAllowed tc fc originalTypeName"
  shows "\<exists>given. rtype fc = Some given \<and>
           overrideExistingField tc typeName fieldName fc c originalTypeName =
             (tc, [Warn (overrideWarning typeName fieldName (typeArgText given) originalTypeName)])"
proof -
  from assms have t: "typeArgTruthy (rtype fc)" by (simp add: overrideAllowed_def)
  with fieldTypeNameOf_cases[of fc] obtain given
    where g: "rtype fc = Some given" "fieldTypeNameOf fc = Some (typeArgText given)"
      "typeArgText given \<noteq> []" by blast
  have "\<not> overrideAccepted tc (fieldTypeNameOf fc) originalTypeName"
    using assms by (simp add: overrideAccepted_iff)
  with g show ?thesis
    by (simp add: overrideExistingField_def Let_def stringFalsy_def)
qed

lemma overrideExistingField_accepted:
  assumes "overrideAllowed tc fc originalTypeName"
  shows "overrideExistingField tc typeName fieldName fc c originalTypeName =
           (setField tc fieldName (overriddenConfig tc fc c), [])"
  using assms
  by (simp add: overrideExistingField_def Let_def overrideAccepted_iff overriddenConfig_def)

lemma ftype_setFieldExtension [simp]:
  "ftype (setFieldExtension c k v) = ftype c" "fargs (setFieldExtension c k v) = fargs c"
  "fresolve (setFieldExtension c k v) = fresolve c"
  by (simp_all add: setFieldExtension_def setFieldExtensions_def)

lemma getFieldExtensions_setFieldExtension:
  "map_of (getFieldExtensions (setFieldExtension c k v)) k' =
     (if k' = k then Some v else map_of (getFieldExtensions c) k')"
  by (simp add: setFieldExtension_def setFieldExtensions_def getFieldExtensions_def map_of_aset)

lemma overriddenConfig_parts:
  "ftype (overriddenConfig tc fc c) =
     (if typeArgTruthy (rtype fc) then map_option typeArgText (rtype fc) else ftype c)"
  "fargs (overriddenConfig tc fc c) = orElse (rargs fc) (fargs c)"
  "fresolve (overriddenConfig tc fc c) =
     (case rresolve fc of Some f \<Rightarrow> Some (WithOriginal f (fresolve c)) | None \<Rightarrow> fresolve c)"
  "rresolve fc \<noteq> None \<Longrightarrow>
     map_of (getFieldExtensions (overriddenConfig tc fc c)) ''needsResolve'' = Some (JBool True)"
  "isThirdParty tc \<Longrightarrow>
     map_of (getFieldExtensions (overriddenConfig tc fc c)) ''originalFieldConfig'' = Some (JConfig c)"
proof -
  show "ftype (overriddenConfig tc fc c) =
     (if typeArgTruthy (rtype fc) then map_option typeArgText (rtype fc) else ftype c)"
    using fieldTypeNameOf_cases[of fc]
    by (auto simp: overriddenConfig_def Let_def extendConfig_def newConfig_def orElse_def)
  show "fargs (overriddenConfig tc fc c) = orElse (rargs fc) (fargs c)"
    by (simp add: overriddenConfig_def Let_def extendConfig_def newConfig_def)
  show "fresolve (overriddenConfig tc fc c) =
     (case rresolve fc of Some f \<Rightarrow> Some (WithOriginal f (fresolve c)) | None \<Rightarrow> fresolve c)"
    by (cases "rresolve fc")
       (simp_all add: overriddenConfig_def Let_def extendConfig_def newConfig_def orElse_def)
  have e: "\<And>d. getFieldExtensions (extendConfig d (newConfig fc (fresolve c))) = getFieldExtensions d"
    by (simp add: getFieldExtensions_def extendConfig_def newConfig_def orElse_def)
  show "rresolve fc \<noteq> None \<Longrightarrow>
     map_of (getFieldExtensions (overriddenConfig tc fc c)) ''needsResolve'' = Some (JBool True)"
    by (simp add: overriddenConfig_def Let_def getFieldExtensions_setFieldExtension e)
  show "isThirdParty tc \<Longrightarrow>
     map_of (getFieldExtensions (overriddenConfig tc fc c)) ''originalFieldConfig'' = Some (JConfig c)"
    by (simp add: overriddenConfig_def Let_def getFieldExtensions_setFieldExtension)
qed

lemma setField_fields:
  "map_of (tfields (setField tc k c)) f = (if f = k then Some c else map_of (tfields tc) f)"
  by (simp add: setField_def map_of_aset)

lemma setField_keeps [simp]:
  "tname (setField tc k c) = tname tc" "tkind (setField tc k c) = tkind tc"
  "tinterfaces (setField tc k c) = tinterfaces tc" "textensions (setField tc k c) = textensions tc"
  by (simp_all add: setField_def)

lemma createResolversField_existing:
  assumes "map_of (tfields tc) fieldName = Some c" and "ftype c = Some originalTypeName"
  shows "createResolversField tc typeName (fieldName, fc) =
           Inr (overrideExistingField tc typeName fieldName fc c originalTypeName)"
  using assms by (simp add: createResolversField_def)

lemma createResolversField_accepted:
  assumes "map_of (tfields tc) fieldName = Some c" and "ftype c = Some originalTypeName"
    and a: "overrideAllowed tc fc originalTypeName"
  shows "\<exists>tc' c'. createResolversField tc typeName (fieldName, fc) = Inr (tc', [])
               \<and> tc' = setField tc fieldName c'
               \<and> map_of (tfields tc') fieldName = Some c'
               \<and> (\<forall>g. g \<noteq> fieldName \<longrightarrow> map_of (tfields tc') g = map_of (tfields tc) g)
               \<and> tname tc' = tname tc \<and> tkind tc' = tkind tc
               \<and> tinterfaces tc' = tinterfaces tc \<and> textensions tc' = textensions tc
               \<and> ftype c' = (if typeArgTruthy (rtype fc) then map_option typeArgText (rtype fc)
                              else ftype c)
               \<and> fargs c' = orElse (rargs fc) (fargs c)
               \<and> (rresolve fc = None \<longrightarrow> fresolve c' = fresolve c)
               \<and> (\<forall>f. rresolve fc = Some f \<longrightarrow>
                     fresolve c' = Some (WithOriginal f (fresolve c)) \<and>
                     originalResolverOf (WithOriginal f (fresolve c)) =
                       Some (f, case fresolve c of Some r \<Rightarrow> PriorResolver r
                                | None \<Rightarrow> DefaultFieldResolver) \<and>
                     map_of (getFieldExtensions c') ''needsResolve'' = Some (JBool True))"
proof -
  let ?c' = "overriddenConfig tc fc c"
  let ?tc' = "setField tc fieldName ?c'"
  have 1: "createResolversField tc typeName (fieldName, fc) = Inr (?tc', [])"
    unfolding createResolversField_existing[OF assms(1,2)] overrideExistingField_accepted[OF a] ..
  have 2: "\<forall>f. rresolve fc = Some f \<longrightarrow>
                     fresolve ?c' = Some (WithOriginal f (fresolve c)) \<and>
                     originalResolverOf (WithOriginal f (fresolve c)) =
                       Some (f, case fresolve c of Some r \<Rightarrow> PriorResolver r
                                | None \<Rightarrow> DefaultFieldResolver) \<and>
                     map_of (getFieldExtensions ?c') ''needsResolve'' = Some (JBool True)"
    by (simp add: overriddenConfig_parts)
  have 3: "rresolve fc = None \<longrightarrow> fresolve ?c' = fresolve c"
    by (simp add: overriddenConfig_parts)
  have 4: "map_of (tfields ?tc') fieldName = Some ?c'" by (simp add: setField_fields)
  have 5: "\<forall>g. g \<noteq> fieldName \<longrightarrow> map_of (tfields ?tc') g = map_of (tfields tc) g"
    by (simp add: setField_fields)
  show ?thesis
    apply (rule exI[of _ ?tc'])
    apply (rule exI[of _ ?c'])
    apply (intro conjI)
               apply (rule 1)
              apply (rule refl)
             apply (rule 4)
            apply (rule 5)
           apply (rule setField_keeps(1))
          apply (rule setField_keeps(2))
         apply (rule setField_keeps(3))
        apply (rule setField_keeps(4))
       apply (rule overriddenConfig_parts(1))
      apply (rule overriddenConfig_parts(2))
     apply (rule 3)
    apply (rule 2)
    done
qed

lemma createResolversField_rejected:
  assumes "map_of (tfields tc) fieldName = Some c" and "ftype c = Some originalTypeName"
  and a: "\<not> overrideAllowed tc fc originalTypeName"
  shows "\<exists>msg. createResolversField tc typeName (fieldName, fc) = Inr (tc, [Warn msg])
               \<and> sublist typeName msg \<and> sublist fieldName msg \<and> sublist originalTypeName msg"
proof -
  from overrideExistingField_rejected[OF a, of typeName fieldName c] obtain given
    where g: "overrideExistingField tc typeName fieldName fc c originalTypeName =
             (tc, [Warn (overrideWarning typeName fieldName (typeArgText given) originalTypeName)])"
    by (elim exE conjE)
  show ?thesis
    unfolding createResolversField_existing[OF assms(1,2)] g
    apply (rule exI[of _ "overrideWarning typeName fieldName (typeArgText given) originalTypeName"])
    apply (intro conjI)
       apply (rule refl)
      apply (rule overrideWarning_names(1))
     apply (rule overrideWarning_names(2))
    apply (rule overrideWarning_names(4))
    done
qed

lemma reports_setType [simp]: "reports (setType sc tc) = reports sc"
  by (simp add: setType_def)

lemma reports_addReports [simp]: "reports (addReports sc rs) = reports sc @ rs"
  by (simp add: addReports_def)

lemma createResolversField_name:
  "createResolversField tc typeName fld = Inr r \<Longrightarrow> tname (fst r) = tname tc"
  by (auto simp: createResolversField_def overrideExistingField_def addResolverField_def Let_def
      split: option.splits if_splits)

lemma createResolvers_single:
  assumes "map_of (tfields tc) fieldName = Some c" and "ftype c = Some originalTypeName"
  and s: "getTC sc typeName = Some tc \<and> tkind tc = ObjectKind"
  shows "\<exists>r sc'. createResolversField tc typeName (fieldName, fc) = Inr r \<and>
                 createResolvers sc [(typeName, [(fieldName, fc)])] ignore = Inr sc' \<and>
                 getTC sc' typeName = Some (fst r) \<and>
                 (\<forall>n. n \<noteq> typeName \<longrightarrow> getTC sc' n = getTC sc n) \<and>
                 reports sc' = reports sc @ snd r"
proof -
  have "\<exists>r. createResolversField tc typeName (fieldName, fc) = Inr r"
    using assms by (simp add: createResolversField_def)
  then obtain r where r: "createResolversField tc typeName (fieldName, fc) = Inr r" by blast
  let ?sc' = "addReports (setType sc (fst r)) (snd r)"
  from s have n: "tname tc = typeName" using getTC_tname by blast
  with createResolversField_name[OF r] have n': "tname (fst r) = typeName" by simp
  from r s have c: "createResolvers sc [(typeName, [(fieldName, fc)])] ignore = Inr ?sc'"
    by simp
  have g: "getTC ?sc' typeName = Some (fst r)" using n' by (simp add: getTC_setType)
  have o: "\<forall>n. n \<noteq> typeName \<longrightarrow> getTC ?sc' n = getTC sc n" using n' by (simp add: getTC_setType)
  have p: "reports ?sc' = reports sc @ snd r" by simp
  show ?thesis
    apply (rule exI[of _ r])
    apply (rule exI[of _ ?sc'])
    apply (intro conjI)
        apply (rule r)
       apply (rule c)
      apply (rule g)
     apply (rule o)
    apply (rule p)
    done
qed

text \<open>
  Claim C4. For an override given to \<open>createResolvers\<close> for a field that the type has:
  when it gives no return type, or the type it gives equals the existing one once the
  non-null marks are taken away, or the type comes from a third-party schema, nothing is
  reported and the composer that is returned has the overridden configuration under the
  name of the field, every other field, the name, the kind, the interfaces and the
  extensions being as before; that configuration has the type and the arguments of the
  override where it gives them and those of the field otherwise; with a resolver in the
  override its resolver is the new one wrapped around the prior resolver (the default
  field resolver when there was none) and it carries \<open>needsResolve\<close>; without one the
  resolver stays. In every other case one warning is reported, which names the type, the
  field and the existing type, and the composer is returned as it was. \<open>createResolvers\<close>
  on this one override puts the returned composer under the name of the type, leaves the
  other types of the registry alone and adds what was reported.
\<close>

theorem override_of_existing_field:
  assumes "map_of (tfields tc) fieldName = Some c" and "ftype c = Some originalTypeName"
  shows "(overrideAllowed tc fc originalTypeName \<longrightarrow>
            (\<exists>tc' c'. createResolversField tc typeName (fieldName, fc) = Inr (tc', [])
               \<and> tc' = setField tc fieldName c'
               \<and> map_of (tfields tc') fieldName = Some c'
               \<and> (\<forall>g. g \<noteq> fieldName \<longrightarrow> map_of (tfields tc') g = map_of (tfields tc) g)
               \<and> tname tc' = tname tc \<and> tkind tc' = tkind tc
               \<and> tinterfaces tc' = tinterfaces tc \<and> textensions tc' = textensions tc
               \<and> ftype c' = (if typeArgTruthy (rtype fc) then map_option typeArgText (rtype fc)
                              else ftype c)
               \<and> fargs c' = orElse (rargs fc) (fargs c)
               \<and> (rresolve fc = None \<longrightarrow> fresolve c' = fresolve c)
               \<and> (\<forall>f. rresolve fc = Some f \<longrightarrow>
                     fresolve c' = Some (WithOriginal f (fresolve c)) \<and>
                     originalResolverOf (WithOriginal f (fresolve c)) =
                       Some (f, case fresolve c of Some r \<Rightarrow> PriorResolver r
                                | None \<Rightarrow> DefaultFieldResolver) \<and>
                     map_of (getFieldExtensions c') ''needsResolve'' = Some (JBool True))))
       \<and> (\<not> overrideAllowed tc fc originalTypeName \<longrightarrow>
            (\<exists>msg. createResolversField tc typeName (fieldName, fc) = Inr (tc, [Warn msg])
               \<and> sublist typeName msg \<and> sublist fieldName msg \<and> sublist originalTypeName msg))
       \<and> (\<forall>sc ignore. getTC sc typeName = Some tc \<and> tkind tc = ObjectKind \<longrightarrow>
            (\<exists>r sc'. createResolversField tc typeName (fieldName, fc) = Inr r \<and>
                 createResolvers sc [(typeName, [(fieldName, fc)])] ignore = Inr sc' \<and>
                 getTC sc' typeName = Some (fst r) \<and>
                 (\<forall>n. n \<noteq> typeName \<longrightarrow> getTC sc' n = getTC sc n) \<and>
                 reports sc' = reports sc @ snd r))"
  apply (intro conjI impI allI)
    apply (rule createResolversField_accepted[OF assms], assumption)
   apply (rule createResolversField_rejected[OF assms], assumption)
  apply (rule createResolvers_single[OF assms], assumption)
  done

theorem override_of_existing_field_witness:
  "map_of (tfields (fooWithBar ''Int'')) ''bar'' = Some (FieldConfig (Some ''Int'') (Some []) None None)
   \<and> \<not> overrideAllowed (fooWithBar ''Int'') stringOverride ''Int''
   \<and> (\<exists>msg. createResolversField (fooWithBar ''Int'') ''Foo'' (''bar'', stringOverride) =
               Inr (fooWithBar ''Int'', [Warn msg]) \<and> sublist ''Foo'' msg \<and> sublist ''bar'' msg
               \<and> sublist ''Int'' msg)
   \<and> overrideAllowed (fooWithBar ''String!'') stringOverride ''String!''
   \<and> (\<exists>tc' c'. createResolversField (fooWithBar ''String!'') ''Foo'' (''bar'', stringOverride) =
               Inr (tc', [])
            \<and> map_of (tfields tc') ''bar'' = Some c'
            \<and> ftype c' = Some ''String''
            \<and> fresolve c' = Some (WithOriginal (Fn ''fn'') None)
            \<and> originalResolverOf (WithOriginal (Fn ''fn'') None) = Some (Fn ''fn'', DefaultFieldResolver)
            \<and> map_of (getFieldExtensions c') ''needsResolve'' = Some (JBool True))
   \<and> (\<exists>sc'. createResolvers (setType emptyRegistry (fooWithBar ''String!''))
               [(''Foo'', [(''bar'', stringOverride)])] False = Inr sc'
            \<and> map_option (\<lambda>t. map_option ftype (map_of (tfields t) ''bar'')) (getTC sc' ''Foo'') =
                Some (Some (Some ''String''))
            \<and> reports sc' = [])"
proof -
  have f: "\<And>t. map_of (tfields (fooWithBar t)) ''bar'' = Some (FieldConfig (Some t) (Some []) None None)"
    by (simp add: fooWithBar_def newType_def)
  have ft: "\<And>t. ftype (FieldConfig (Some t) (Some []) None None) = Some t" by simp
  have rej: "\<not> overrideAllowed (fooWithBar ''Int'') stringOverride ''Int''"
    by (simp add: overrideAllowed_def stringOverride_def typeArgTruthy_def typeArgText_def
        stripNonNull_def fooWithBar_def newType_def getExtension_def)
  have acc: "overrideAllowed (fooWithBar ''String!'') stringOverride ''String!''"
    by (simp add: overrideAllowed_def stringOverride_def typeArgTruthy_def typeArgText_def
        stripNonNull_def)
  note t1 = override_of_existing_field[OF f ft, of "''Int''" stringOverride "''Foo''"]
  note t2 = override_of_existing_field[OF f ft, of "''String!''" stringOverride "''Foo''"]
  have a: "\<exists>msg. createResolversField (fooWithBar ''Int'') ''Foo'' (''bar'', stringOverride) =
               Inr (fooWithBar ''Int'', [Warn msg]) \<and> sublist ''Foo'' msg \<and> sublist ''bar'' msg
               \<and> sublist ''Int'' msg"
    by (rule t1[THEN conjunct2, THEN conjunct1, rule_format, OF rej])
  have rs: "rresolve stringOverride = Some (Fn ''fn'')" by (simp add: stringOverride_def)
  have tt: "typeArgTruthy (rtype stringOverride)"
    "map_option typeArgText (rtype stringOverride) = Some ''String''"
    by (simp_all add: stringOverride_def typeArgTruthy_def typeArgText_def)
  from t2[THEN conjunct1, rule_format, OF acc]
  obtain tc' c' where c1: "createResolversField (fooWithBar ''String!'') ''Foo'' (''bar'', stringOverride) =
               Inr (tc', [])"
     and c0: "map_of (tfields tc') ''bar'' = Some c'"
     and c2: "ftype c' = (if typeArgTruthy (rtype stringOverride) then map_option typeArgText (rtype stringOverride)
                              else ftype (FieldConfig (Some ''String!'') (Some []) None None))"
     and c3: "\<forall>f. rresolve stringOverride = Some f \<longrightarrow>
                     fresolve c' = Some (WithOriginal f (fresolve (FieldConfig (Some ''String!'') (Some []) None None))) \<and>
                     originalResolverOf (WithOriginal f (fresolve (FieldConfig (Some ''String!'') (Some []) None None))) =
                       Some (f, case fresolve (FieldConfig (Some ''String!'') (Some []) None None) of Some r \<Rightarrow> PriorResolver r
                                | None \<Rightarrow> DefaultFieldResolver) \<and>
                     map_of (getFieldExtensions c') ''needsResolve'' = Some (JBool True)"
    by (elim exE conjE)
  from c3[rule_format, OF rs] have r: "fresolve c' = Some (WithOriginal (Fn ''fn'') None)"
    "originalResolverOf (WithOriginal (Fn ''fn'') None) = Some (Fn ''fn'', DefaultFieldResolver)"
    "map_of (getFieldExtensions c') ''needsResolve'' = Some (JBool True)"
    by simp_all
  from c2 tt have ty: "ftype c' = Some ''String''" by simp
  have b: "\<exists>tc' c'. createResolversField (fooWithBar ''String!'') ''Foo'' (''bar'', stringOverride) =
               Inr (tc', [])
            \<and> map_of (tfields tc') ''bar'' = Some c'
            \<and> ftype c' = Some ''String''
            \<and> fresolve c' = Some (WithOriginal (Fn ''fn'') None)
            \<and> originalResolverOf (WithOriginal (Fn ''fn'') None) = Some (Fn ''fn'', DefaultFieldResolver)
            \<and> map_of (getFieldExtensions c') ''needsResolve'' = Some (JBool True)"
    apply (rule exI[of _ tc'])
    apply (rule exI[of _ c'])
    apply (intro conjI)
         apply (rule c1)
        apply (rule c0)
       apply (rule ty)
      apply (rule r(1))
     apply (rule r(2))
    apply (rule r(3))
    done
  have reg: "getTC (setType emptyRegistry (fooWithBar ''String!'')) ''Foo'' = Some (fooWithBar ''String!'') \<and>
             tkind (fooWithBar ''String!'') = ObjectKind"
    by code_simp
  from t2[THEN conjunct2, THEN conjunct2, rule_format, OF reg, of False]
  obtain r' sc' where d1: "createResolversField (fooWithBar ''String!'') ''Foo'' (''bar'', stringOverride) = Inr r'"
    and d2: "createResolvers (setType emptyRegistry (fooWithBar ''String!''))
               [(''Foo'', [(''bar'', stringOverride)])] False = Inr sc'"
    and d3: "getTC sc' ''Foo'' = Some (fst r')"
    and d4: "reports sc' = reports (setType emptyRegistry (fooWithBar ''String!'')) @ snd r'"
    by (elim exE conjE)
  from d1 c1 have r': "r' = (tc', [])" by simp
  have e0: "reports (setType emptyRegistry (fooWithBar ''String!'')) = []" by code_simp
  have d: "\<exists>sc'. createResolvers (setType emptyRegistry (fooWithBar ''String!''))
               [(''Foo'', [(''bar'', stringOverride)])] False = Inr sc'
            \<and> map_option (\<lambda>t. map_option ftype (map_of (tfields t) ''bar'')) (getTC sc' ''Foo'') =
                Some (Some (Some ''String''))
            \<and> reports sc' = []"
    apply (rule exI[of _ sc'])
    using d2 d3 d4 r' c0 ty e0 by simp
  show ?thesis
    apply (intro conjI)
         apply (rule f)
        apply (rule rej)
       apply (rule a)
      apply (rule acc)
     apply (rule b)
    apply (rule d)
    done
qed

subsection \<open>Printed types\<close>

lemma stripWrappers_append [simp]: "stripWrappers (a @ b) = stripWrappers a @ stripWrappers b"
  by (simp add: stripWrappers_def)

lemma stripWrappers_printType: "stripWrappers (printType t) = stripWrappers (namedType t)"
  by (induction t) (simp_all, simp_all add: stripWrappers_def)

lemma printType_shape:
  "\<exists>k s. \<forall>m. printType (renamed m t) = replicate k CHR ''['' @ m @ s"
proof (induction t)
  case (Named n)
  have "\<forall>m. printType (renamed m (Named n)) = replicate 0 CHR ''['' @ m @ []" by simp
  then show ?case by blast
next
  case (ListOf t)
  then obtain k s where "\<forall>m. printType (renamed m t) = replicate k CHR ''['' @ m @ s" by blast
  then have "\<forall>m. printType (renamed m (ListOf t)) = replicate (Suc k) CHR ''['' @ m @ (s @ '']'')"
    by simp
  then show ?case by blast
next
  case (NonNull t)
  then obtain k s where "\<forall>m. printType (renamed m t) = replicate k CHR ''['' @ m @ s" by blast
  then have "\<forall>m. printType (renamed m (NonNull t)) = replicate k CHR ''['' @ m @ (s @ ''!'')"
    by simp
  then show ?case by blast
qed

lemma renamed_same [simp]: "renamed (namedType t) t = t"
  by (induction t) simp_all

lemma plainName_hd: "plainName n \<Longrightarrow> \<exists>c cs. n = c # cs \<and> c \<noteq> CHR ''[''"
proof -
  assume p: "plainName n"
  then obtain c cs where n: "n = c # cs" by (cases n) (simp_all add: plainName_def)
  have "c \<noteq> CHR ''[''"
  proof
    assume "c = CHR ''[''"
    with n have "stripWrappers n = stripWrappers cs" by (simp add: stripWrappers_def)
    then have "length (stripWrappers n) \<le> length cs" by (simp add: stripWrappers_def)
    with p n show False by (simp add: plainName_def)
  qed
  with n show ?thesis by blast
qed

lemma replaceFirst_here:
  "n \<noteq> [] \<Longrightarrow> replaceFirst (n @ s) n rep = rep @ s"
  by (cases n) simp_all

lemma replaceFirst_brackets:
  assumes "plainName n"
  shows "replaceFirst (replicate k CHR ''['' @ n @ s) n rep = replicate k CHR ''['' @ rep @ s"
proof (induction k)
  case 0
  from assms have "n \<noteq> []" by (simp add: plainName_def)
  then show ?case by (simp add: replaceFirst_here)
next
  case (Suc k)
  from plainName_hd[OF assms] obtain c cs where n: "n = c # cs" "c \<noteq> CHR ''[''" by blast
  then have "\<not> prefix n (CHR ''['' # replicate k CHR ''['' @ n @ s)" by simp
  with Suc show ?case by simp
qed

lemma replaceFirst_printType:
  assumes "plainName (namedType t)"
  shows "replaceFirst (printType t) (namedType t) rep = printType (renamed rep t)"
proof -
  from printType_shape[of t] obtain k s
    where sh: "\<forall>m. printType (renamed m t) = replicate k CHR ''['' @ m @ s" by blast
  from sh have "printType t = replicate k CHR ''['' @ namedType t @ s"
    using renamed_same[of t] by metis
  with replaceFirst_brackets[OF assms, of k s rep] sh show ?thesis by simp
qed

lemma stripWrappers_plain: "plainName (namedType t) \<Longrightarrow> stripWrappers (printType t) = namedType t"
  by (simp add: stripWrappers_printType plainName_def)

subsection \<open>The rewrite of one field\<close>

lemma rewriteQueryType_printed:
  assumes "ftype c = Some (printType t)" and "plainName (namedType t)"
  shows "rewriteQueryType q c =
           Inr (if namedType t = q
                then FieldConfig (Some (printType (renamed ''Query'' t))) (fargs c) (fresolve c)
                       (Some (getFieldExtensions c))
                else c)"
proof (cases "namedType t = q")
  case True
  have r: "replaceFirst (printType t) q ''Query'' = printType (renamed ''Query'' t)"
    using replaceFirst_printType[OF assms(2), of "''Query''"] True by simp
  have s: "stripWrappers (printType t) = q"
    using stripWrappers_plain[OF assms(2)] True by simp
  from assms(1) True r s show ?thesis
    by (cases c) (simp add: rewriteQueryType_def extendConfig_def orElse_def getFieldExtensions_def)
next
  case False
  have s: "stripWrappers (printType t) \<noteq> q"
    using stripWrappers_plain[OF assms(2)] False by simp
  from assms(1) False s show ?thesis
    by (cases c) (simp add: rewriteQueryType_def)
qed

lemma rewriteQueryType_typed:
  "ftype c \<noteq> None \<Longrightarrow> rewriteQueryType q c = Inr (rewriteTyped q c)"
  by (auto simp: rewriteQueryType_def rewriteTyped_def)

lemma rewriteTyped_keeps:
  "fargs (rewriteTyped q c) = fargs c" "fresolve (rewriteTyped q c) = fresolve c"
  "getFieldExtensions (rewriteTyped q c) = getFieldExtensions c"
  "(ftype (rewriteTyped q c) = None) = (ftype c = None)"
  by (auto simp: rewriteQueryType_def rewriteTyped_def extendConfig_def orElse_def
      getFieldExtensions_def split: option.splits)

lemma rewriteFields_pointwise:
  assumes "distinct names"
    and "\<forall>n\<in>set names. \<forall>c. map_of (tfields tc) n = Some c \<longrightarrow> ftype c \<noteq> None"
  shows "\<exists>tc'. rewriteFields q tc names = Inr tc' \<and> tname tc' = tname tc \<and> tkind tc' = tkind tc \<and>
           textensions tc' = textensions tc \<and> tinterfaces tc' = tinterfaces tc \<and>
           (\<forall>f. map_of (tfields tc') f =
                 (if f \<in> set names then map_option (rewriteTyped q) (map_of (tfields tc) f)
                  else map_of (tfields tc) f))"
  using assms
proof (induction names arbitrary: tc)
  case Nil
  then show ?case by simp
next
  case (Cons n names)
  have d: "distinct names" and nn: "n \<notin> set names" using Cons.prems(1) by simp_all
  show ?case
  proof (cases "map_of (tfields tc) n")
    case None
    have h: "\<forall>m\<in>set names. \<forall>c. map_of (tfields tc) m = Some c \<longrightarrow> ftype c \<noteq> None"
      using Cons.prems(2) by simp
    from Cons.IH[OF d h] obtain tc' where t: "rewriteFields q tc names = Inr tc'"
      "tname tc' = tname tc" "tkind tc' = tkind tc" "textensions tc' = textensions tc"
      "tinterfaces tc' = tinterfaces tc"
      "\<forall>f. map_of (tfields tc') f =
                 (if f \<in> set names then map_option (rewriteTyped q) (map_of (tfields tc) f)
                  else map_of (tfields tc) f)"
      by blast
    have "\<forall>f. map_of (tfields tc') f =
                 (if f \<in> set (n # names) then map_option (rewriteTyped q) (map_of (tfields tc) f)
                  else map_of (tfields tc) f)"
      using t(6) None by auto
    with t None show ?thesis by simp
  next
    case (Some c)
    then have ty: "ftype c \<noteq> None" using Cons.prems(2) by simp
    let ?tc1 = "setField tc n (rewriteTyped q c)"
    have o: "\<And>m. m \<noteq> n \<Longrightarrow> map_of (tfields ?tc1) m = map_of (tfields tc) m"
      by (simp add: setField_fields)
    have h: "\<forall>m\<in>set names. \<forall>c. map_of (tfields ?tc1) m = Some c \<longrightarrow> ftype c \<noteq> None"
    proof (intro ballI allI impI)
      fix m c'
      assume m: "m \<in> set names" and c': "map_of (tfields ?tc1) m = Some c'"
      from m nn have "m \<noteq> n" by auto
      with o c' have "map_of (tfields tc) m = Some c'" by simp
      with Cons.prems(2) m show "ftype c' \<noteq> None" by simp
    qed
    from Cons.IH[OF d h] obtain tc' where t: "rewriteFields q ?tc1 names = Inr tc'"
      "tname tc' = tname ?tc1" "tkind tc' = tkind ?tc1" "textensions tc' = textensions ?tc1"
      "tinterfaces tc' = tinterfaces ?tc1"
      "\<forall>f. map_of (tfields tc') f =
                 (if f \<in> set names then map_option (rewriteTyped q) (map_of (tfields ?tc1) f)
                  else map_of (tfields ?tc1) f)"
      by blast
    have r: "rewriteFields q tc (n # names) = Inr tc'"
      using Some t(1) rewriteQueryType_typed[OF ty, of q] by simp
    have "\<forall>f. map_of (tfields tc') f =
                 (if f \<in> set (n # names) then map_option (rewriteTyped q) (map_of (tfields tc) f)
                  else map_of (tfields tc) f)"
    proof
      fix f
      show "map_of (tfields tc') f =
                 (if f \<in> set (n # names) then map_option (rewriteTyped q) (map_of (tfields tc) f)
                  else map_of (tfields tc) f)"
      proof (cases "f = n")
        case True
        with t(6) nn Some show ?thesis by (simp add: setField_fields)
      next
        case False
        with t(6) o[OF False] show ?thesis by simp
      qed
    qed
    with r t show ?thesis by simp
  qed
qed

lemma map_of_adel: "map_of (adel k ps) g = (if g = k then None else map_of ps g)"
  by (induction ps) (auto simp: adel_def)

lemma fst_adel: "map fst (adel k ps) = filter (\<lambda>x. x \<noteq> k) (map fst ps)"
  by (induction ps) (auto simp: adel_def)

lemma fst_aset_list:
  "map fst (aset k v ps) = (if k \<in> fst ` set ps then map fst ps else map fst ps @ [k])"
  by (induction ps) auto

lemma distinct_aset: "distinct (map fst ps) \<Longrightarrow> distinct (map fst (aset k v ps))"
  by (simp add: fst_aset_list)

lemma distinct_adel: "distinct (map fst ps) \<Longrightarrow> distinct (map fst (adel k ps))"
  by (simp add: fst_adel)

lemma removeField_keeps [simp]:
  "tname (removeField tc k) = tname tc" "tkind (removeField tc k) = tkind tc"
  "tinterfaces (removeField tc k) = tinterfaces tc" "textensions (removeField tc k) = textensions tc"
  by (simp_all add: removeField_def)

lemma removeField_fields:
  "map_of (tfields (removeField tc k)) g = (if g = k then None else map_of (tfields tc) g)"
  by (simp add: removeField_def map_of_adel)

lemma resetField_keeps [simp]:
  "tname (resetField tc f) = tname tc" "tkind (resetField tc f) = tkind tc"
  "tinterfaces (resetField tc f) = tinterfaces tc" "textensions (resetField tc f) = textensions tc"
  by (simp_all add: resetField_def split: option.splits)

lemma resetField_fields:
  "map_of (tfields (resetField tc f)) g =
     (if g = f then Option.bind (map_of (tfields tc) f) resetConfig else map_of (tfields tc) g)"
proof (cases "map_of (tfields tc) f")
  case None
  then show ?thesis by (simp add: resetField_def)
next
  case (Some c)
  show ?thesis
  proof (cases "taggedCreateResolvers c")
    case True
    with Some show ?thesis
      by (simp add: resetField_def resetConfig_def taggedCreateResolvers_def removeField_fields)
  next
    case False
    show ?thesis
    proof (cases "map_of (getFieldExtensions c) ''originalFieldConfig''")
      case None
      with Some False show ?thesis
        by (simp add: resetField_def resetConfig_def taggedCreateResolvers_def)
    next
      case (Some v)
      with \<open>map_of (tfields tc) f = Some c\<close> False show ?thesis
        by (simp add: resetField_def resetConfig_def taggedCreateResolvers_def
            setField_fields removeField_fields)
    qed
  qed
qed

lemma resetField_distinct:
  "distinct (map fst (tfields tc)) \<Longrightarrow> distinct (map fst (tfields (resetField tc f)))"
  by (auto simp: resetField_def removeField_def setField_def distinct_adel distinct_aset
      split: option.splits)

lemma foldl_resetField_keeps [simp]:
  "tname (foldl resetField tc names) = tname tc" "tkind (foldl resetField tc names) = tkind tc"
  "tinterfaces (foldl resetField tc names) = tinterfaces tc"
  "textensions (foldl resetField tc names) = textensions tc"
  by (induction names arbitrary: tc) simp_all

lemma foldl_resetField_distinct:
  "distinct (map fst (tfields tc)) \<Longrightarrow> distinct (map fst (tfields (foldl resetField tc names)))"
  by (induction names arbitrary: tc) (simp_all add: resetField_distinct)

lemma foldl_resetField_fields:
  "distinct names \<Longrightarrow>
   map_of (tfields (foldl resetField tc names)) g =
     (if g \<in> set names then Option.bind (map_of (tfields tc) g) resetConfig
      else map_of (tfields tc) g)"
proof (induction names arbitrary: tc)
  case Nil
  then show ?case by simp
next
  case (Cons n names)
  then have d: "distinct names" and nn: "n \<notin> set names" by simp_all
  show ?case
  proof (cases "g = n")
    case True
    with Cons.IH[OF d, of "resetField tc n"] nn show ?thesis
      by (simp add: resetField_fields)
  next
    case False
    with Cons.IH[OF d, of "resetField tc n"] show ?thesis
      by (simp add: resetField_fields)
  qed
qed

lemma reset_keeps [simp]:
  "tname (resetOverriddenThirdPartyTypeFields tc) = tname tc"
  "tkind (resetOverriddenThirdPartyTypeFields tc) = tkind tc"
  "tinterfaces (resetOverriddenThirdPartyTypeFields tc) = tinterfaces tc"
  "textensions (resetOverriddenThirdPartyTypeFields tc) = textensions tc"
  by (simp_all add: resetOverriddenThirdPartyTypeFields_def)

lemma reset_distinct:
  "distinct (map fst (tfields tc)) \<Longrightarrow>
   distinct (map fst (tfields (resetOverriddenThirdPartyTypeFields tc)))"
  by (simp add: resetOverriddenThirdPartyTypeFields_def foldl_resetField_distinct)

lemma reset_fields:
  assumes "distinct (map fst (tfields tc))"
  shows "map_of (tfields (resetOverriddenThirdPartyTypeFields tc)) g =
           Option.bind (map_of (tfields tc) g) resetConfig"
proof (cases "g \<in> set (map fst (tfields tc))")
  case True
  with foldl_resetField_fields[OF assms, of tc g] show ?thesis
    by (simp add: resetOverriddenThirdPartyTypeFields_def)
next
  case False
  then have "map_of (tfields tc) g = None" by (simp add: map_of_eq_None_iff)
  with False foldl_resetField_fields[OF assms, of tc g] show ?thesis
    by (simp add: resetOverriddenThirdPartyTypeFields_def)
qed

lemma processThirdPartyTypeFields_pointwise:
  assumes "wellFormedType tc"
  shows "\<exists>tc'. processThirdPartyTypeFields tc q = Inr tc' \<and> tname tc' = tname tc \<and>
           tkind tc' = tkind tc \<and> textensions tc' = textensions tc \<and>
           tinterfaces tc' = tinterfaces tc \<and>
           (\<forall>f. map_of (tfields tc') f =
                 map_option (rewriteTyped q)
                   (map_of (tfields (resetOverriddenThirdPartyTypeFields tc)) f))"
proof -
  let ?r = "resetOverriddenThirdPartyTypeFields tc"
  from assms have d: "distinct (map fst (tfields tc))"
    and ty: "list_all (\<lambda>fld. ftype (snd fld) \<noteq> None) (tfields ?r)"
    by (simp_all add: wellFormedType_def)
  have dr: "distinct (map fst (tfields ?r))" by (rule reset_distinct[OF d])
  have typed: "\<forall>n\<in>set (map fst (tfields ?r)). \<forall>c. map_of (tfields ?r) n = Some c \<longrightarrow> ftype c \<noteq> None"
  proof (intro ballI allI impI)
    fix n c assume "map_of (tfields ?r) n = Some c"
    then have "(n, c) \<in> set (tfields ?r)" by (rule map_of_SomeD)
    with ty show "ftype c \<noteq> None" by (auto simp: list_all_iff)
  qed
  from rewriteFields_pointwise[OF dr typed, of q] obtain tc'
    where t: "rewriteFields q ?r (map fst (tfields ?r)) = Inr tc'"
      "tname tc' = tname ?r" "tkind tc' = tkind ?r" "textensions tc' = textensions ?r"
      "tinterfaces tc' = tinterfaces ?r"
      "\<forall>f. map_of (tfields tc') f =
                 (if f \<in> set (map fst (tfields ?r)) then map_option (rewriteTyped q) (map_of (tfields ?r) f)
                  else map_of (tfields ?r) f)"
    by blast
  have "\<forall>f. map_of (tfields tc') f = map_option (rewriteTyped q) (map_of (tfields ?r) f)"
  proof
    fix f
    show "map_of (tfields tc') f = map_option (rewriteTyped q) (map_of (tfields ?r) f)"
    proof (cases "f \<in> set (map fst (tfields ?r))")
      case True
      with t(6) show ?thesis by simp
    next
      case False
      then have "map_of (tfields ?r) f = None" by (simp add: map_of_eq_None_iff)
      with False t(6) show ?thesis by simp
    qed
  qed
  with t show ?thesis
    by (simp add: processThirdPartyTypeFields_def Let_def)
qed

lemma addFields_Cons: "addFields tc (fld # flds) = addFields (setField tc (fst fld) (snd fld)) flds"
  by (simp add: addFields_def)

lemma addFields_keeps [simp]:
  "tname (addFields tc flds) = tname tc" "tkind (addFields tc flds) = tkind tc"
  by (induction flds arbitrary: tc) (simp_all add: addFields_Cons, simp_all add: addFields_def)

lemma addFields_other:
  "f \<notin> fst ` set flds \<Longrightarrow> map_of (tfields (addFields tc flds)) f = map_of (tfields tc) f"
proof (induction flds arbitrary: tc)
  case Nil
  then show ?case by (simp add: addFields_def)
next
  case (Cons fld flds)
  then have "f \<noteq> fst fld" "f \<notin> fst ` set flds" by auto
  with Cons.IH[of "setField tc (fst fld) (snd fld)"] show ?case
    by (simp add: addFields_Cons setField_fields)
qed

lemma addFields_fields:
  assumes "distinct (map fst flds)"
  shows "map_of (tfields (addFields tc flds)) f =
           (case map_of flds f of Some c \<Rightarrow> Some c | None \<Rightarrow> map_of (tfields tc) f)"
  using assms
proof (induction flds arbitrary: tc)
  case Nil
  then show ?case by (simp add: addFields_def)
next
  case (Cons fld flds)
  obtain k c where fld: "fld = (k, c)" by (cases fld)
  from Cons.prems fld have d: "distinct (map fst flds)" and nin: "k \<notin> fst ` set flds" by auto
  show ?case
  proof (cases "f = k")
    case True
    with nin have "map_of (tfields (addFields (setField tc k c) flds)) f =
                   map_of (tfields (setField tc k c)) f"
      by (simp add: addFields_other)
    with True fld show ?thesis by (simp add: addFields_Cons setField_fields)
  next
    case False
    with Cons.IH[OF d, of "setField tc k c"] fld show ?thesis
      by (simp add: addFields_Cons setField_fields split: option.splits)
  qed
qed

lemma rewriteFields_names:
  "rewriteFields q tc names = Inr tc' \<Longrightarrow> map fst (tfields tc') = map fst (tfields tc)"
proof (induction names arbitrary: tc)
  case Nil
  then show ?case by simp
next
  case (Cons n names)
  show ?case
  proof (cases "map_of (tfields tc) n")
    case None
    with Cons show ?thesis by simp
  next
    case (Some c)
    then have k: "n \<in> fst ` set (tfields tc)"
      by (metis map_of_eq_None_iff option.distinct(1))
    from Cons.prems Some obtain c' where c': "rewriteQueryType q c = Inr c'"
      and r: "rewriteFields q (setField tc n c') names = Inr tc'"
      by (cases "rewriteQueryType q c") simp_all
    from Cons.IH[OF r] k show ?thesis
      by (simp add: setField_def fst_aset_list)
  qed
qed

lemma processed_distinct:
  assumes "wellFormedType tc" and "processThirdPartyTypeFields tc q = Inr tc'"
  shows "distinct (map fst (tfields tc'))"
proof -
  from assms(1) have "distinct (map fst (tfields tc))" by (simp add: wellFormedType_def)
  then have "distinct (map fst (tfields (resetOverriddenThirdPartyTypeFields tc)))"
    by (rule reset_distinct)
  moreover from assms(2) have "map fst (tfields tc') = map fst (tfields (resetOverriddenThirdPartyTypeFields tc))"
    by (simp add: processThirdPartyTypeFields_def Let_def rewriteFields_names)
  ultimately show ?thesis by simp
qed

lemma getQuery_ok:
  assumes "\<forall>tc. getTC sc ''Query'' = Some tc \<longrightarrow> tkind tc = ObjectKind"
  shows "\<exists>query. getQuery sc = Inr query \<and> tname query = ''Query''"
proof (cases "getTC sc ''Query''")
  case None
  then show ?thesis by (simp add: getQuery_def)
next
  case (Some tc)
  with assms getTC_tname[OF Some] show ?thesis by (simp add: getQuery_def)
qed

lemma rehome_ok:
  assumes "wellFormedType qt"
    and "\<forall>tc. getTC sc ''Query'' = Some tc \<longrightarrow> tkind tc = ObjectKind"
  shows "\<exists>queryTC query sc1 Q.
           processThirdPartyTypeFields qt (tname qt) = Inr queryTC \<and> getQuery sc = Inr query \<and>
           rehomeQueryFields sc qt = Inr sc1 \<and> getTC sc1 ''Query'' = Some Q \<and>
           (\<forall>f. map_of (tfields Q) f =
                 (case map_of (tfields queryTC) f of Some c \<Rightarrow> Some c
                  | None \<Rightarrow> map_of (tfields query) f)) \<and>
           (\<forall>n. n \<noteq> ''Query'' \<longrightarrow> getTC sc1 n = getTC sc n)"
proof -
  from processThirdPartyTypeFields_pointwise[OF assms(1), of "tname qt"] obtain queryTC
    where p: "processThirdPartyTypeFields qt (tname qt) = Inr queryTC" by blast
  from getQuery_ok[OF assms(2)] obtain query
    where g: "getQuery sc = Inr query" "tname query = ''Query''" by blast
  let ?Q = "addFields query (tfields queryTC)"
  let ?sc1 = "setType sc ?Q"
  have r: "rehomeQueryFields sc qt = Inr ?sc1" using p g by (simp add: rehomeQueryFields_def)
  have q: "getTC ?sc1 ''Query'' = Some ?Q" using g by (simp add: getTC_setType)
  have o: "\<forall>n. n \<noteq> ''Query'' \<longrightarrow> getTC ?sc1 n = getTC sc n" using g by (simp add: getTC_setType)
  have f: "\<forall>f. map_of (tfields ?Q) f =
                 (case map_of (tfields queryTC) f of Some c \<Rightarrow> Some c
                  | None \<Rightarrow> map_of (tfields query) f)"
    using addFields_fields[OF processed_distinct[OF assms(1) p]] by simp
  from p g r q f o show ?thesis by blast
qed

lemma importedType_keeps [simp]:
  "wellFormedType t \<Longrightarrow> tname (importedType q t) = tname t"
  "wellFormedType t \<Longrightarrow> tkind (importedType q t) = tkind t"
  using processThirdPartyTypeFields_pointwise[of t q]
  by (auto simp: importedType_def processedType_def)

lemma importedType_createdFrom:
  "getExtension (importedType q t) ''createdFrom'' = Some (JStr ''thirdPartySchema'')"
  by (simp add: importedType_def getExtension_setExtension)

lemma importType_ok:
  assumes "wellFormedType t"
  shows "importType sc q t = Inr (addSchemaMustHaveType (setType sc (importedType q t)) (tname t))"
proof (cases "tkind t = ObjectKind \<or> tkind t = InterfaceKind")
  case True
  from processThirdPartyTypeFields_pointwise[OF assms, of q] obtain tc
    where "processThirdPartyTypeFields t q = Inr tc" by blast
  with True show ?thesis
    by (simp add: importType_def importedType_def processedType_def)
next
  case False
  then show ?thesis by (simp add: importType_def importedType_def processedType_def)
qed

lemma importTypes_ok:
  assumes "distinct (map tname ts)" and "list_all wellFormedType ts"
  shows "\<exists>sc'. importTypes sc qt ts = Inr sc' \<and>
           (\<forall>t\<in>set ts. isImported qt t \<longrightarrow> getTC sc' (tname t) = Some (importedType (tname qt) t)) \<and>
           (\<forall>n. n \<notin> tname ` {t \<in> set ts. isImported qt t} \<longrightarrow> getTC sc' n = getTC sc n)"
  using assms
proof (induction ts arbitrary: sc)
  case Nil
  then show ?case by simp
next
  case (Cons t ts)
  from Cons.prems have d: "distinct (map tname ts)" and nin: "tname t \<notin> tname ` set ts"
    and w: "wellFormedType t" and ws: "list_all wellFormedType ts" by auto
  show ?case
  proof (cases "isImported qt t")
    case False
    from Cons.IH[OF d ws, of sc] obtain sc' where s: "importTypes sc qt ts = Inr sc'"
      "\<forall>t\<in>set ts. isImported qt t \<longrightarrow> getTC sc' (tname t) = Some (importedType (tname qt) t)"
      "\<forall>n. n \<notin> tname ` {t \<in> set ts. isImported qt t} \<longrightarrow> getTC sc' n = getTC sc n"
      by blast
    have a: "importTypes sc qt (t # ts) = Inr sc'" using False s(1) by simp
    have b: "\<forall>u\<in>set (t # ts). isImported qt u \<longrightarrow> getTC sc' (tname u) = Some (importedType (tname qt) u)"
      using False s(2) by auto
    have c: "\<forall>n. n \<notin> tname ` {u \<in> set (t # ts). isImported qt u} \<longrightarrow> getTC sc' n = getTC sc n"
      using False s(3) by auto
    from a b c show ?thesis by blast
  next
    case True
    let ?sc1 = "addSchemaMustHaveType (setType sc (importedType (tname qt) t)) (tname t)"
    from Cons.IH[OF d ws, of ?sc1] obtain sc' where s: "importTypes ?sc1 qt ts = Inr sc'"
      "\<forall>t\<in>set ts. isImported qt t \<longrightarrow> getTC sc' (tname t) = Some (importedType (tname qt) t)"
      "\<forall>n. n \<notin> tname ` {t \<in> set ts. isImported qt t} \<longrightarrow> getTC sc' n = getTC ?sc1 n"
      by blast
    have g1: "\<And>n. getTC ?sc1 n = (if n = tname t then Some (importedType (tname qt) t) else getTC sc n)"
      using w by (simp add: getTC_setType)
    have a: "importTypes sc qt (t # ts) = Inr sc'"
      using True s(1) importType_ok[OF w, of sc "tname qt"] by simp
    have "tname t \<notin> tname ` {u \<in> set ts. isImported qt u}" using nin by auto
    with s(3) g1 have t: "getTC sc' (tname t) = Some (importedType (tname qt) t)" by simp
    have b: "\<forall>u\<in>set (t # ts). isImported qt u \<longrightarrow> getTC sc' (tname u) = Some (importedType (tname qt) u)"
      using t s(2) by auto
    have c: "\<forall>n. n \<notin> tname ` {u \<in> set (t # ts). isImported qt u} \<longrightarrow> getTC sc' n = getTC sc n"
    proof (intro allI impI)
      fix n assume n: "n \<notin> tname ` {u \<in> set (t # ts). isImported qt u}"
      with True have "n \<noteq> tname t" by auto
      moreover from n have "n \<notin> tname ` {u \<in> set ts. isImported qt u}" by auto
      ultimately show "getTC sc' n = getTC sc n" using s(3) g1 by simp
    qed
    from a b c show ?thesis by blast
  qed
qed

lemma rewriteTyped_printed:
  assumes "ftype c = Some (printType ty)" and "plainName (namedType ty)"
  shows "ftype (rewriteTyped q c) =
           Some (printType (if namedType ty = q then renamed ''Query'' ty else ty))"
  using rewriteQueryType_printed[OF assms, of q] assms(1) by (simp add: rewriteTyped_def)

lemma processedType_fields:
  assumes "wellFormedType t" and "tkind t = ObjectKind \<or> tkind t = InterfaceKind"
  shows "map_of (tfields (importedType q t)) f =
           map_option (rewriteTyped q) (map_of (tfields (resetOverriddenThirdPartyTypeFields t)) f)"
proof -
  from processThirdPartyTypeFields_pointwise[OF assms(1), of q] obtain tc
    where "processThirdPartyTypeFields t q = Inr tc"
      "\<forall>f. map_of (tfields tc) f =
                 map_option (rewriteTyped q) (map_of (tfields (resetOverriddenThirdPartyTypeFields t)) f)"
    by blast
  with assms(2) show ?thesis by (simp add: importedType_def processedType_def)
qed

lemma exceptedType_iff: "exceptedType qt t = (\<not> isImported qt t)"
  by (auto simp: exceptedType_def isImported_def isSpecifiedScalarType_def isIntrospectionType_def)

text \<open>
  Claim C8, as the code has it. For a third-party schema (the names of its type map
  distinct, its query type an object type, every field with a type) and a registry whose
  \<open>Query\<close>, if any, is an object type, \<open>addThirdPartySchema\<close> returns. The fields of the
  schema's query type, reset and rewritten, are added to the registry's \<open>Query\<close>, whose
  other fields stay; they are there at the end unless the schema brings an imported type
  of its own that is named \<open>Query\<close>. Every type of the type map is registered under its
  name with \<open>createdFrom\<close> set to \<open>thirdPartySchema\<close>, except the query type, the
  specified scalars, the introspection types and the types named \<open>Date\<close> or \<open>JSON\<close>:
  under the name of such a type, and under every name that is not in the type map, the
  registry has what it had (\<open>Query\<close> apart). On every object or interface type that is
  processed, a field whose printed type is the query type of the schema under lists and
  non-null marks has the type \<open>Query\<close> under the same lists and non-null marks, a field
  of another type keeps its type, and arguments, resolver and extensions stay.
\<close>

theorem third_party_schema_imported:
  assumes "wellFormedSchema schema"
    and "\<forall>tc. getTC sc ''Query'' = Some tc \<longrightarrow> tkind tc = ObjectKind"
  shows "\<exists>queryTC query sc1 sc'.
      processThirdPartyTypeFields (queryType schema) (tname (queryType schema)) = Inr queryTC
    \<and> getQuery sc = Inr query
    \<and> rehomeQueryFields sc (queryType schema) = Inr sc1
    \<and> addThirdPartySchema sc schema = Inr sc'
    \<and> (\<exists>Q. getTC sc1 ''Query'' = Some Q \<and>
            (\<forall>f. map_of (tfields Q) f =
                  (case map_of (tfields queryTC) f of Some c \<Rightarrow> Some c
                   | None \<Rightarrow> map_of (tfields query) f)))
    \<and> ((\<forall>t\<in>set (typeMap schema). exceptedType (queryType schema) t \<or> tname t \<noteq> ''Query'') \<longrightarrow>
          getTC sc' ''Query'' = getTC sc1 ''Query'')
    \<and> (\<forall>t\<in>set (typeMap schema). \<not> exceptedType (queryType schema) t \<longrightarrow>
          getTC sc' (tname t) = Some (importedType (tname (queryType schema)) t) \<and>
          tname (importedType (tname (queryType schema)) t) = tname t \<and>
          tkind (importedType (tname (queryType schema)) t) = tkind t \<and>
          getExtension (importedType (tname (queryType schema)) t) ''createdFrom'' =
            Some (JStr ''thirdPartySchema''))
    \<and> (\<forall>t\<in>set (typeMap schema). exceptedType (queryType schema) t \<and> tname t \<noteq> ''Query'' \<longrightarrow>
          getTC sc' (tname t) = getTC sc (tname t))
    \<and> (\<forall>n. n \<noteq> ''Query'' \<and> n \<notin> tname ` set (typeMap schema) \<longrightarrow> getTC sc' n = getTC sc n)
    \<and> (\<forall>f. map_of (tfields queryTC) f =
             map_of (tfields (importedType (tname (queryType schema)) (queryType schema))) f)
    \<and> (\<forall>t\<in>insert (queryType schema) (set (typeMap schema)). \<forall>f c ty.
          (tkind t = ObjectKind \<or> tkind t = InterfaceKind) \<and>
          map_of (tfields (resetOverriddenThirdPartyTypeFields t)) f = Some c \<and>
          ftype c = Some (printType ty) \<and> plainName (namedType ty) \<longrightarrow>
          (\<exists>c'. map_of (tfields (importedType (tname (queryType schema)) t)) f = Some c' \<and>
                ftype c' = Some (printType (if namedType ty = tname (queryType schema)
                                            then renamed ''Query'' ty else ty)) \<and>
                fargs c' = fargs c \<and> fresolve c' = fresolve c \<and>
                getFieldExtensions c' = getFieldExtensions c))"
proof -
  let ?qt = "queryType schema"
  let ?q = "tname ?qt"
  from assms(1) have d: "distinct (map tname (typeMap schema))" and wq: "wellFormedType ?qt"
    and ws: "list_all wellFormedType (typeMap schema)"
    by (simp_all add: wellFormedSchema_def)
  from rehome_ok[OF wq assms(2)] obtain queryTC query sc1 Q
    where r: "processThirdPartyTypeFields ?qt ?q = Inr queryTC" "getQuery sc = Inr query"
      "rehomeQueryFields sc ?qt = Inr sc1" "getTC sc1 ''Query'' = Some Q"
      "\<forall>f. map_of (tfields Q) f =
                 (case map_of (tfields queryTC) f of Some c \<Rightarrow> Some c
                  | None \<Rightarrow> map_of (tfields query) f)"
      "\<forall>n. n \<noteq> ''Query'' \<longrightarrow> getTC sc1 n = getTC sc n"
    by blast
  from importTypes_ok[OF d ws, of sc1 ?qt] obtain sc'
    where i: "importTypes sc1 ?qt (typeMap schema) = Inr sc'"
      "\<forall>t\<in>set (typeMap schema). isImported ?qt t \<longrightarrow> getTC sc' (tname t) = Some (importedType ?q t)"
      "\<forall>n. n \<notin> tname ` {t \<in> set (typeMap schema). isImported ?qt t} \<longrightarrow> getTC sc' n = getTC sc1 n"
    by blast
  have inj: "\<And>t u. t \<in> set (typeMap schema) \<Longrightarrow> u \<in> set (typeMap schema) \<Longrightarrow>
                  tname t = tname u \<Longrightarrow> t = u"
    using d by (auto simp: distinct_map inj_on_def)
  have a: "addThirdPartySchema sc schema = Inr sc'"
    using r(3) i(1) by (simp add: addThirdPartySchema_def)
  have b: "\<exists>Q. getTC sc1 ''Query'' = Some Q \<and>
            (\<forall>f. map_of (tfields Q) f =
                  (case map_of (tfields queryTC) f of Some c \<Rightarrow> Some c
                   | None \<Rightarrow> map_of (tfields query) f))"
    using r(4,5) by blast
  have b2: "(\<forall>t\<in>set (typeMap schema). exceptedType ?qt t \<or> tname t \<noteq> ''Query'') \<longrightarrow>
          getTC sc' ''Query'' = getTC sc1 ''Query''"
  proof
    assume h: "\<forall>t\<in>set (typeMap schema). exceptedType ?qt t \<or> tname t \<noteq> ''Query''"
    then have "''Query'' \<notin> tname ` {t \<in> set (typeMap schema). isImported ?qt t}"
      by (auto simp: exceptedType_iff)
    with i(3) show "getTC sc' ''Query'' = getTC sc1 ''Query''" by blast
  qed
  have c: "\<forall>t\<in>set (typeMap schema). \<not> exceptedType ?qt t \<longrightarrow>
          getTC sc' (tname t) = Some (importedType ?q t) \<and>
          tname (importedType ?q t) = tname t \<and>
          tkind (importedType ?q t) = tkind t \<and>
          getExtension (importedType ?q t) ''createdFrom'' = Some (JStr ''thirdPartySchema'')"
  proof (intro ballI impI)
    fix t assume t: "t \<in> set (typeMap schema)" "\<not> exceptedType ?qt t"
    from t(1) ws have "wellFormedType t" by (simp add: list_all_iff)
    with i(2) t show "getTC sc' (tname t) = Some (importedType ?q t) \<and>
          tname (importedType ?q t) = tname t \<and>
          tkind (importedType ?q t) = tkind t \<and>
          getExtension (importedType ?q t) ''createdFrom'' = Some (JStr ''thirdPartySchema'')"
      by (simp add: importedType_createdFrom exceptedType_iff)
  qed
  have c2: "\<forall>t\<in>set (typeMap schema). exceptedType ?qt t \<and> tname t \<noteq> ''Query'' \<longrightarrow>
          getTC sc' (tname t) = getTC sc (tname t)"
  proof (intro ballI impI)
    fix t assume t: "t \<in> set (typeMap schema)" and h: "exceptedType ?qt t \<and> tname t \<noteq> ''Query''"
    have "tname t \<notin> tname ` {u \<in> set (typeMap schema). isImported ?qt u}"
    proof
      assume "tname t \<in> tname ` {u \<in> set (typeMap schema). isImported ?qt u}"
      then obtain u where u: "u \<in> set (typeMap schema)" "isImported ?qt u" "tname t = tname u"
        by auto
      from inj[OF t u(1) u(3)] u(2) h show False by (simp add: exceptedType_iff)
    qed
    with i(3) have "getTC sc' (tname t) = getTC sc1 (tname t)" by blast
    with r(6) h show "getTC sc' (tname t) = getTC sc (tname t)" by simp
  qed
  have c3: "\<forall>n. n \<noteq> ''Query'' \<and> n \<notin> tname ` set (typeMap schema) \<longrightarrow> getTC sc' n = getTC sc n"
  proof (intro allI impI)
    fix n assume h: "n \<noteq> ''Query'' \<and> n \<notin> tname ` set (typeMap schema)"
    then have "n \<notin> tname ` {u \<in> set (typeMap schema). isImported ?qt u}" by auto
    with i(3) have "getTC sc' n = getTC sc1 n" by blast
    with r(6) h show "getTC sc' n = getTC sc n" by simp
  qed
  from assms(1) have kq: "tkind ?qt = ObjectKind" by (simp add: wellFormedSchema_def)
  have e: "\<forall>f. map_of (tfields queryTC) f = map_of (tfields (importedType ?q ?qt)) f"
    using r(1) kq by (simp add: importedType_def processedType_def)
  have g: "\<forall>t\<in>insert ?qt (set (typeMap schema)). \<forall>f c ty.
          (tkind t = ObjectKind \<or> tkind t = InterfaceKind) \<and>
          map_of (tfields (resetOverriddenThirdPartyTypeFields t)) f = Some c \<and>
          ftype c = Some (printType ty) \<and> plainName (namedType ty) \<longrightarrow>
          (\<exists>c'. map_of (tfields (importedType ?q t)) f = Some c' \<and>
                ftype c' = Some (printType (if namedType ty = ?q then renamed ''Query'' ty else ty)) \<and>
                fargs c' = fargs c \<and> fresolve c' = fresolve c \<and>
                getFieldExtensions c' = getFieldExtensions c)"
  proof (intro ballI allI impI)
    fix t f c ty
    assume t: "t \<in> insert ?qt (set (typeMap schema))"
      and h: "(tkind t = ObjectKind \<or> tkind t = InterfaceKind) \<and>
          map_of (tfields (resetOverriddenThirdPartyTypeFields t)) f = Some c \<and>
          ftype c = Some (printType ty) \<and> plainName (namedType ty)"
    from t wq ws have w: "wellFormedType t" by (auto simp: list_all_iff)
    from h have k: "tkind t = ObjectKind \<or> tkind t = InterfaceKind"
      and m: "map_of (tfields (resetOverriddenThirdPartyTypeFields t)) f = Some c"
      and ty: "ftype c = Some (printType ty)" and pl: "plainName (namedType ty)" by simp_all
    have 1: "map_of (tfields (importedType ?q t)) f = Some (rewriteTyped ?q c)"
      unfolding processedType_fields[OF w k] m by simp
    show "\<exists>c'. map_of (tfields (importedType ?q t)) f = Some c' \<and>
                ftype c' = Some (printType (if namedType ty = ?q then renamed ''Query'' ty else ty)) \<and>
                fargs c' = fargs c \<and> fresolve c' = fresolve c \<and>
                getFieldExtensions c' = getFieldExtensions c"
      apply (rule exI[of _ "rewriteTyped ?q c"])
      apply (intro conjI)
          apply (rule 1)
         apply (rule rewriteTyped_printed[OF ty pl])
        apply (rule rewriteTyped_keeps(1))
       apply (rule rewriteTyped_keeps(2))
      apply (rule rewriteTyped_keeps(3))
      done
  qed
  show ?thesis
    apply (rule exI[of _ queryTC])
    apply (rule exI[of _ query])
    apply (rule exI[of _ sc1])
    apply (rule exI[of _ sc'])
    apply (intro conjI)
              apply (rule r(1))
             apply (rule r(2))
            apply (rule r(3))
           apply (rule a)
          apply (rule b)
         apply (rule b2)
        apply (rule c)
       apply (rule c2)
      apply (rule c3)
     apply (rule e)
    apply (rule g)
    done
qed

theorem third_party_schema_imported_witness:
  "wellFormedSchema exampleSchema
   \<and> getTC emptyRegistry ''Query'' = None
   \<and> (\<exists>sc'. addThirdPartySchema emptyRegistry exampleSchema = Inr sc'
         \<and> getTC sc' ''User'' = Some (importedType ''Root'' userType)
         \<and> getTC sc' ''String'' = None \<and> getTC sc' ''Root'' = None \<and> getTC sc' ''JSON'' = None
         \<and> getTC sc' ''__Schema'' = None
         \<and> map_option (\<lambda>Q. map_of (tfields Q) ''users'') (getTC sc' ''Query'') =
             Some (Some (FieldConfig (Some ''[User!]!'') (Some []) None None)))
   \<and> getExtension (importedType ''Root'' userType) ''createdFrom'' = Some (JStr ''thirdPartySchema'')
   \<and> map_option ftype (map_of (tfields (importedType ''Root'' userType)) ''viewer'') =
       Some (Some ''[Query!]!'')
   \<and> map_option fresolve (map_of (tfields (importedType ''Root'' userType)) ''viewer'') =
       Some (Some (Fn ''viewer''))"
proof -
  have w: "wellFormedSchema exampleSchema" by code_simp
  have q: "getTC emptyRegistry ''Query'' = None" by code_simp
  then have h: "\<forall>tc. getTC emptyRegistry ''Query'' = Some tc \<longrightarrow> tkind tc = ObjectKind" by simp
  have qn: "tname (queryType exampleSchema) = ''Root''" by code_simp
  from third_party_schema_imported[OF w h] obtain queryTC query sc1 sc' Q
    where p: "processThirdPartyTypeFields (queryType exampleSchema)
                 (tname (queryType exampleSchema)) = Inr queryTC"
      and gq: "getQuery emptyRegistry = Inr query"
      and rh: "rehomeQueryFields emptyRegistry (queryType exampleSchema) = Inr sc1"
      and a: "addThirdPartySchema emptyRegistry exampleSchema = Inr sc'"
      and Q: "getTC sc1 ''Query'' = Some Q"
            "\<forall>f. map_of (tfields Q) f =
                  (case map_of (tfields queryTC) f of Some c \<Rightarrow> Some c
                   | None \<Rightarrow> map_of (tfields query) f)"
      and b2: "(\<forall>t\<in>set (typeMap exampleSchema). exceptedType (queryType exampleSchema) t \<or>
                    tname t \<noteq> ''Query'') \<longrightarrow>
          getTC sc' ''Query'' = getTC sc1 ''Query''"
      and c: "\<forall>t\<in>set (typeMap exampleSchema). \<not> exceptedType (queryType exampleSchema) t \<longrightarrow>
          getTC sc' (tname t) = Some (importedType (tname (queryType exampleSchema)) t) \<and>
          tname (importedType (tname (queryType exampleSchema)) t) = tname t \<and>
          tkind (importedType (tname (queryType exampleSchema)) t) = tkind t \<and>
          getExtension (importedType (tname (queryType exampleSchema)) t) ''createdFrom'' =
            Some (JStr ''thirdPartySchema'')"
      and c2: "\<forall>t\<in>set (typeMap exampleSchema). exceptedType (queryType exampleSchema) t \<and>
                  tname t \<noteq> ''Query'' \<longrightarrow>
          getTC sc' (tname t) = getTC emptyRegistry (tname t)"
      and c3: "\<forall>n. n \<noteq> ''Query'' \<and> n \<notin> tname ` set (typeMap exampleSchema) \<longrightarrow>
                  getTC sc' n = getTC emptyRegistry n"
      and e: "\<forall>f. map_of (tfields queryTC) f =
             map_of (tfields (importedType (tname (queryType exampleSchema)) (queryType exampleSchema))) f"
      and g: "\<forall>t\<in>insert (queryType exampleSchema) (set (typeMap exampleSchema)). \<forall>f c ty.
          (tkind t = ObjectKind \<or> tkind t = InterfaceKind) \<and>
          map_of (tfields (resetOverriddenThirdPartyTypeFields t)) f = Some c \<and>
          ftype c = Some (printType ty) \<and> plainName (namedType ty) \<longrightarrow>
          (\<exists>c'. map_of (tfields (importedType (tname (queryType exampleSchema)) t)) f = Some c' \<and>
                ftype c' = Some (printType (if namedType ty = tname (queryType exampleSchema)
                                            then renamed ''Query'' ty else ty)) \<and>
                fargs c' = fargs c \<and> fresolve c' = fresolve c \<and>
                getFieldExtensions c' = getFieldExtensions c)"
    by (elim exE conjE) (rule that)
  have u: "userType \<in> set (typeMap exampleSchema)" by (simp add: exampleSchema_def)
  have iu: "\<not> exceptedType (queryType exampleSchema) userType" by code_simp
  have un: "tname userType = ''User''" by code_simp
  from c[rule_format, OF u iu]
  have cu: "getTC sc' ''User'' = Some (importedType ''Root'' userType)"
    "getExtension (importedType ''Root'' userType) ''createdFrom'' = Some (JStr ''thirdPartySchema'')"
    unfolding un qn by simp_all
  have ex1: "\<And>t. t \<in> set (typeMap exampleSchema) \<Longrightarrow> exceptedType (queryType exampleSchema) t \<Longrightarrow>
                 tname t \<noteq> ''Query'' \<Longrightarrow> getTC sc' (tname t) = None"
    using c2 q by (simp add: emptyRegistry_def getTC_def)
  have s1: "getTC sc' ''String'' = None"
    using ex1[of "newType ''String'' ScalarKind [] [] []"]
    by (simp add: exampleSchema_def newType_def exceptedType_def)
  have s2: "getTC sc' ''Root'' = None"
    using ex1[of rootType]
    by (simp add: exampleSchema_def newType_def exceptedType_def rootType_def)
  have s3: "getTC sc' ''JSON'' = None"
    using ex1[of "newType ''JSON'' ObjectKind [] [] []"]
    by (simp add: exampleSchema_def newType_def exceptedType_def)
  have s4: "getTC sc' ''__Schema'' = None"
    using ex1[of "newType ''__Schema'' ObjectKind [] [] []"]
    by (simp add: exampleSchema_def newType_def exceptedType_def)
  have nq: "\<forall>t\<in>set (typeMap exampleSchema). exceptedType (queryType exampleSchema) t \<or>
                    tname t \<noteq> ''Query''"
    by code_simp
  from b2 nq have fq: "getTC sc' ''Query'' = getTC sc1 ''Query''" by blast
  have users: "map_of (tfields (importedType ''Root'' rootType)) ''users'' =
                 Some (FieldConfig (Some ''[User!]!'') (Some []) None None)"
    by code_simp
  have qr: "queryType exampleSchema = rootType" by (simp add: exampleSchema_def)
  from e[rule_format, of "''users''"] users
  have "map_of (tfields queryTC) ''users'' = Some (FieldConfig (Some ''[User!]!'') (Some []) None None)"
    unfolding qn by (simp add: qr)
  with Q(2) have "map_of (tfields Q) ''users'' = Some (FieldConfig (Some ''[User!]!'') (Some []) None None)"
    by simp
  with fq Q(1) have s5: "map_option (\<lambda>Q. map_of (tfields Q) ''users'') (getTC sc' ''Query'') =
             Some (Some (FieldConfig (Some ''[User!]!'') (Some []) None None))"
    by simp
  have ut: "userType \<in> insert (queryType exampleSchema) (set (typeMap exampleSchema))"
    using u by simp
  have kmp: "(tkind userType = ObjectKind \<or> tkind userType = InterfaceKind) \<and>
      map_of (tfields (resetOverriddenThirdPartyTypeFields userType)) ''viewer'' =
             Some (FieldConfig (Some ''[Root!]!'') (Some []) (Some (Fn ''viewer'')) None) \<and>
      ftype (FieldConfig (Some ''[Root!]!'') (Some []) (Some (Fn ''viewer'')) None) =
             Some (printType (NonNull (ListOf (NonNull (Named ''Root''))))) \<and>
      plainName (namedType (NonNull (ListOf (NonNull (Named ''Root'')))))"
    by code_simp
  from g[rule_format, OF ut kmp] obtain c'
    where v: "map_of (tfields (importedType (tname (queryType exampleSchema)) userType)) ''viewer'' = Some c'"
      "ftype c' = Some (printType (if namedType (NonNull (ListOf (NonNull (Named ''Root'')))) =
                                       tname (queryType exampleSchema)
                                    then renamed ''Query'' (NonNull (ListOf (NonNull (Named ''Root''))))
                                    else NonNull (ListOf (NonNull (Named ''Root'')))))"
      "fresolve c' = fresolve (FieldConfig (Some ''[Root!]!'') (Some []) (Some (Fn ''viewer'')) None)"
    by (elim exE conjE)
  from v have vw: "map_option ftype (map_of (tfields (importedType ''Root'' userType)) ''viewer'') =
       Some (Some ''[Query!]!'')"
    and vr: "map_option fresolve (map_of (tfields (importedType ''Root'' userType)) ''viewer'') =
       Some (Some (Fn ''viewer''))"
    unfolding qn by simp_all
  have ex: "\<exists>sc'. addThirdPartySchema emptyRegistry exampleSchema = Inr sc'
         \<and> getTC sc' ''User'' = Some (importedType ''Root'' userType)
         \<and> getTC sc' ''String'' = None \<and> getTC sc' ''Root'' = None \<and> getTC sc' ''JSON'' = None
         \<and> getTC sc' ''__Schema'' = None
         \<and> map_option (\<lambda>Q. map_of (tfields Q) ''users'') (getTC sc' ''Query'') =
             Some (Some (FieldConfig (Some ''[User!]!'') (Some []) None None))"
    apply (rule exI[of _ sc'])
    apply (intro conjI)
          apply (rule a)
         apply (rule cu(1))
        apply (rule s1)
       apply (rule s2)
      apply (rule s3)
     apply (rule s4)
    apply (rule s5)
    done
  show ?thesis
    apply (intro conjI)
         apply (rule w)
        apply (rule q)
       apply (rule ex)
      apply (rule cu(2))
     apply (rule vw)
    apply (rule vr)
    done
qed

text \<open>
  The type map of \<open>exampleSchema\<close> has an object type named \<open>JSON\<close>. It is not the query
  type of the schema, not a specified scalar and not an introspection type, and the
  import does not register it.
\<close>

theorem third_party_json_type_counterexample:
  "wellFormedSchema exampleSchema
   \<and> newType ''JSON'' ObjectKind [] [] [] \<in> set (typeMap exampleSchema)
   \<and> tname (newType ''JSON'' ObjectKind [] [] []) \<noteq> tname (queryType exampleSchema)
   \<and> \<not> isSpecifiedScalarType (newType ''JSON'' ObjectKind [] [] [])
   \<and> \<not> isIntrospectionType (newType ''JSON'' ObjectKind [] [] [])
   \<and> \<not> isl (addThirdPartySchema emptyRegistry exampleSchema)
   \<and> getTC (projr (addThirdPartySchema emptyRegistry exampleSchema)) ''JSON'' = None
   \<and> getTC (projr (addThirdPartySchema emptyRegistry exampleSchema)) ''User'' \<noteq> None"
  by code_simp

subsection \<open>The rewrite is idempotent\<close>

lemma replaceFirst_same: "replaceFirst s p p = s"
proof (induction s)
  case Nil
  then show ?case by simp
next
  case (Cons c cs)
  show ?case
  proof (cases "prefix p (c # cs)")
    case True
    then obtain r where r: "c # cs = p @ r" by (auto simp: prefix_def)
    have "replaceFirst (c # cs) p p = p @ drop (length p) (c # cs)" using True by simp
    also have "drop (length p) (c # cs) = r" unfolding r by simp
    finally show ?thesis using r by simp
  next
    case False
    with Cons show ?thesis by simp
  qed
qed

lemma replaceFirst_cases:
  "replaceFirst s p rep = s \<or> (\<exists>a b. s = a @ p @ b \<and> replaceFirst s p rep = a @ rep @ b)"
proof (induction s)
  case Nil
  show ?case
  proof (cases "p = []")
    case True
    then have "[] = [] @ p @ [] \<and> replaceFirst [] p rep = [] @ rep @ []" by simp
    then show ?thesis by blast
  next
    case False
    then show ?thesis by simp
  qed
next
  case (Cons c cs)
  show ?case
  proof (cases "prefix p (c # cs)")
    case True
    then obtain r where r: "c # cs = p @ r" by (auto simp: prefix_def)
    have d: "drop (length p) (c # cs) = r" unfolding r by simp
    have "replaceFirst (c # cs) p rep = rep @ drop (length p) (c # cs)" using True by simp
    with d have "replaceFirst (c # cs) p rep = [] @ rep @ r" by simp
    moreover from r have "c # cs = [] @ p @ r" by simp
    ultimately show ?thesis by blast
  next
    case False
    from Cons show ?thesis
    proof
      assume "replaceFirst cs p rep = cs"
      with False show ?thesis by simp
    next
      assume "\<exists>a b. cs = a @ p @ b \<and> replaceFirst cs p rep = a @ rep @ b"
      then obtain a b where "cs = a @ p @ b" "replaceFirst cs p rep = a @ rep @ b" by blast
      with False have "c # cs = (c # a) @ p @ b \<and> replaceFirst (c # cs) p rep = (c # a) @ rep @ b"
        by simp
      then show ?thesis by blast
    qed
  qed
qed

lemma stripWrappers_Query: "stripWrappers ''Query'' = ''Query''"
  by (simp add: stripWrappers_def)

lemma rewritten_type_fixed:
  assumes "stripWrappers s = q"
  shows "stripWrappers (replaceFirst s q ''Query'') = q \<longrightarrow>
         replaceFirst (replaceFirst s q ''Query'') q ''Query'' = replaceFirst s q ''Query''"
proof (cases "q = ''Query''")
  case True
  then show ?thesis by (simp add: replaceFirst_same)
next
  case False
  from replaceFirst_cases[of s q "''Query''"] show ?thesis
  proof
    assume u: "replaceFirst s q ''Query'' = s"
    then show ?thesis by simp
  next
    assume "\<exists>a b. s = a @ q @ b \<and> replaceFirst s q ''Query'' = a @ ''Query'' @ b"
    then obtain a b where ab: "s = a @ q @ b" "replaceFirst s q ''Query'' = a @ ''Query'' @ b"
      by blast
    have sq: "stripWrappers q = q"
      using assms[symmetric] by (simp add: stripWrappers_def)
    from assms ab(1) have e: "stripWrappers a @ q @ stripWrappers b = q"
      by (simp add: sq)
    have "length (stripWrappers a @ q @ stripWrappers b) = length q"
      by (simp only: e)
    then have "stripWrappers a = [] \<and> stripWrappers b = []"
      by simp
    then have ea: "stripWrappers a = []" and eb: "stripWrappers b = []" by simp_all
    have "stripWrappers (a @ ''Query'' @ b) =
            stripWrappers a @ stripWrappers ''Query'' @ stripWrappers b"
      by (simp only: stripWrappers_append)
    then have "stripWrappers (a @ ''Query'' @ b) = ''Query''"
      by (simp only: ea eb stripWrappers_Query append_Nil append_Nil2)
    then have "stripWrappers (replaceFirst s q ''Query'') = ''Query''"
      by (simp only: ab(2))
    with False show ?thesis by auto
  qed
qed

lemma rewriteTyped_idem: "rewriteTyped q (rewriteTyped q c) = rewriteTyped q c"
proof (cases "ftype c")
  case None
  then show ?thesis by (simp add: rewriteTyped_def rewriteQueryType_def)
next
  case (Some s)
  show ?thesis
  proof (cases "stripWrappers s = q")
    case False
    with Some show ?thesis by (simp add: rewriteTyped_def rewriteQueryType_def)
  next
    case True
    let ?s' = "replaceFirst s q ''Query''"
    let ?c' = "FieldConfig (Some ?s') (fargs c) (fresolve c) (Some (getFieldExtensions c))"
    have 1: "rewriteTyped q c = ?c'"
      using Some True
      by (simp add: rewriteTyped_def rewriteQueryType_def extendConfig_def orElse_def
          getFieldExtensions_def)
    have 2: "rewriteTyped q ?c' = ?c'"
      using rewritten_type_fixed[OF True]
      by (simp add: rewriteTyped_def rewriteQueryType_def extendConfig_def orElse_def
          getFieldExtensions_def)
    from 1 2 show ?thesis by simp
  qed
qed

lemma overrideAllowed_thirdParty: "isThirdParty tc \<Longrightarrow> overrideAllowed tc fc t"
  by (simp add: overrideAllowed_def isThirdParty_def)

lemma overriddenConfig_cong:
  "isThirdParty a = isThirdParty b \<Longrightarrow> overriddenConfig a fc c = overriddenConfig b fc c"
  by (simp add: overriddenConfig_def)

lemma isThirdParty_setField [simp]: "isThirdParty (setField tc k c) = isThirdParty tc"
  by (simp add: isThirdParty_def getExtension_def)

lemma createResolversField_thirdParty:
  assumes "isThirdParty tc" and "\<forall>c. map_of (tfields tc) f = Some c \<longrightarrow> ftype c \<noteq> None"
  shows "createResolversField tc tn (f, fc) =
           Inr (setField tc f (case map_of (tfields tc) f of
                                 Some c \<Rightarrow> overriddenConfig tc fc c
                               | None \<Rightarrow> addedConfig fc), [])"
proof (cases "map_of (tfields tc) f")
  case None
  then show ?thesis
    by (simp add: createResolversField_def addResolverField_def addedConfig_def)
next
  case (Some c)
  with assms(2) obtain t where t: "ftype c = Some t" by auto
  have "createResolversField tc tn (f, fc) = Inr (overrideExistingField tc tn f fc c t)"
    by (rule createResolversField_existing[OF Some t])
  also have "overrideExistingField tc tn f fc c t = (setField tc f (overriddenConfig tc fc c), [])"
    by (rule overrideExistingField_accepted[OF overrideAllowed_thirdParty[OF assms(1)]])
  finally show ?thesis using Some by simp
qed

lemma setField_distinct:
  "distinct (map fst (tfields tc)) \<Longrightarrow> distinct (map fst (tfields (setField tc k c)))"
  by (simp add: setField_def distinct_aset)

lemma createResolversFields_thirdParty:
  assumes "distinct (map fst ovs)" and "isThirdParty tc"
    and "\<forall>f\<in>fst ` set ovs. \<forall>c. map_of (tfields tc) f = Some c \<longrightarrow> ftype c \<noteq> None"
  shows "\<exists>tc' rs. createResolversFields tc tn ovs = Inr (tc', rs) \<and>
           textensions tc' = textensions tc \<and> tname tc' = tname tc \<and> tkind tc' = tkind tc \<and>
           (distinct (map fst (tfields tc)) \<longrightarrow> distinct (map fst (tfields tc'))) \<and>
           (\<forall>f. map_of (tfields tc') f =
                 (case map_of ovs f of
                    None \<Rightarrow> map_of (tfields tc) f
                  | Some fc \<Rightarrow>
                      Some (case map_of (tfields tc) f of
                              Some c \<Rightarrow> overriddenConfig tc fc c
                            | None \<Rightarrow> addedConfig fc)))"
  using assms
proof (induction ovs arbitrary: tc)
  case Nil
  then show ?case by simp
next
  case (Cons ov ovs)
  obtain k fc where ov: "ov = (k, fc)" by (cases ov)
  from Cons.prems(1) ov have d: "distinct (map fst ovs)" and nin: "k \<notin> fst ` set ovs" by auto
  let ?new = "case map_of (tfields tc) k of Some c \<Rightarrow> overriddenConfig tc fc c | None \<Rightarrow> addedConfig fc"
  let ?tc1 = "setField tc k ?new"
  have typed_k: "\<forall>c. map_of (tfields tc) k = Some c \<longrightarrow> ftype c \<noteq> None"
    using Cons.prems(3) ov by auto
  have step: "createResolversField tc tn ov = Inr (?tc1, [])"
    unfolding ov by (rule createResolversField_thirdParty[OF Cons.prems(2) typed_k])
  have tp1: "isThirdParty ?tc1" using Cons.prems(2) by simp
  have o: "\<And>m. m \<noteq> k \<Longrightarrow> map_of (tfields ?tc1) m = map_of (tfields tc) m"
    by (simp add: setField_fields)
  have typed1: "\<forall>f\<in>fst ` set ovs. \<forall>c. map_of (tfields ?tc1) f = Some c \<longrightarrow> ftype c \<noteq> None"
  proof (intro ballI allI impI)
    fix f c assume f: "f \<in> fst ` set ovs" and c: "map_of (tfields ?tc1) f = Some c"
    from f nin have "f \<noteq> k" by auto
    with o c have "map_of (tfields tc) f = Some c" by simp
    moreover from f have "f \<in> fst ` set (ov # ovs)" by auto
    ultimately show "ftype c \<noteq> None" using Cons.prems(3) by blast
  qed
  from Cons.IH[OF d tp1 typed1] obtain tc' rs
    where r: "createResolversFields ?tc1 tn ovs = Inr (tc', rs)"
      "textensions tc' = textensions ?tc1" "tname tc' = tname ?tc1" "tkind tc' = tkind ?tc1"
      "distinct (map fst (tfields ?tc1)) \<longrightarrow> distinct (map fst (tfields tc'))"
      "\<forall>f. map_of (tfields tc') f =
                 (case map_of ovs f of
                    None \<Rightarrow> map_of (tfields ?tc1) f
                  | Some fc \<Rightarrow>
                      Some (case map_of (tfields ?tc1) f of
                              Some c \<Rightarrow> overriddenConfig ?tc1 fc c
                            | None \<Rightarrow> addedConfig fc))"
    by blast
  have res: "createResolversFields tc tn (ov # ovs) = Inr (tc', rs)"
    using step r(1) by simp
  have dist: "distinct (map fst (tfields tc)) \<longrightarrow> distinct (map fst (tfields tc'))"
    using r(5) setField_distinct[of tc k ?new] by blast
  have oc: "\<And>fc c. overriddenConfig ?tc1 fc c = overriddenConfig tc fc c"
    by (rule overriddenConfig_cong) simp
  have pw: "\<forall>f. map_of (tfields tc') f =
                 (case map_of (ov # ovs) f of
                    None \<Rightarrow> map_of (tfields tc) f
                  | Some fc \<Rightarrow>
                      Some (case map_of (tfields tc) f of
                              Some c \<Rightarrow> overriddenConfig tc fc c
                            | None \<Rightarrow> addedConfig fc))"
  proof
    fix f
    show "map_of (tfields tc') f =
                 (case map_of (ov # ovs) f of
                    None \<Rightarrow> map_of (tfields tc) f
                  | Some fc \<Rightarrow>
                      Some (case map_of (tfields tc) f of
                              Some c \<Rightarrow> overriddenConfig tc fc c
                            | None \<Rightarrow> addedConfig fc))"
    proof (cases "f = k")
      case True
      from nin have "map_of ovs k = None" by (simp add: map_of_eq_None_iff)
      with spec[OF r(6), of f] True ov show ?thesis by (simp add: setField_fields)
    next
      case False
      have "map_of (tfields tc') f =
                 (case map_of ovs f of
                    None \<Rightarrow> map_of (tfields tc) f
                  | Some fc \<Rightarrow>
                      Some (case map_of (tfields tc) f of
                              Some c \<Rightarrow> overriddenConfig tc fc c
                            | None \<Rightarrow> addedConfig fc))"
        unfolding spec[OF r(6), of f] o[OF False] oc ..
      with False ov show ?thesis by simp
    qed
  qed
  from res r(2,3,4) dist pw show ?case by simp
qed

lemma taggedCreateResolvers_overridden:
  "taggedCreateResolvers (overriddenConfig tc fc c) = taggedCreateResolvers c"
proof -
  have e: "\<And>d. getFieldExtensions (extendConfig d (newConfig fc (fresolve c))) = getFieldExtensions d"
    by (simp add: getFieldExtensions_def extendConfig_def newConfig_def orElse_def)
  show ?thesis
    by (simp add: taggedCreateResolvers_def overriddenConfig_def Let_def
        getFieldExtensions_setFieldExtension e)
qed

lemma resetConfig_overridden:
  assumes "isThirdParty tc" and "\<not> taggedCreateResolvers c"
  shows "resetConfig (overriddenConfig tc fc c) = Some c"
  using assms overriddenConfig_parts(5)[OF assms(1), of fc c]
  by (simp add: resetConfig_def taggedCreateResolvers_overridden asFieldConfig_def)

lemma resetConfig_added: "resetConfig (addedConfig fc) = None"
  by (simp add: resetConfig_def taggedCreateResolvers_def addedConfig_def
      getFieldExtensions_setFieldExtension)

lemma resetConfig_untouched: "untouchedField c \<Longrightarrow> resetConfig c = Some c"
  by (simp add: resetConfig_def untouchedField_def)

lemma untouched_rewriteTyped: "untouchedField c \<Longrightarrow> untouchedField (rewriteTyped q c)"
  using rewriteTyped_keeps(3,4)[of q c]
  by (simp add: untouchedField_def taggedCreateResolvers_def getFieldExtensions_def)

subsection \<open>A second import after overrides\<close>

lemma untouched_lookup:
  assumes "untouchedType t" and "map_of (tfields t) f = Some c"
  shows "untouchedField c"
proof -
  from assms(2) have "(f, c) \<in> set (tfields t)" by (rule map_of_SomeD)
  with assms(1) show ?thesis by (auto simp: untouchedType_def list_all_iff)
qed

lemma untouched_reset:
  assumes "untouchedType t"
  shows "map_of (tfields (resetOverriddenThirdPartyTypeFields t)) f = map_of (tfields t) f"
proof -
  from assms have d: "distinct (map fst (tfields t))" by (simp add: untouchedType_def)
  show ?thesis
  proof (cases "map_of (tfields t) f")
    case None
    then show ?thesis by (simp add: reset_fields[OF d])
  next
    case (Some c)
    from untouched_lookup[OF assms Some] have "resetConfig c = Some c"
      by (rule resetConfig_untouched)
    with Some show ?thesis by (simp add: reset_fields[OF d])
  qed
qed

lemma typed_wellFormed:
  assumes d: "distinct (map fst (tfields t))"
    and r: "\<And>f c. map_of (tfields (resetOverriddenThirdPartyTypeFields t)) f = Some c \<Longrightarrow> ftype c \<noteq> None"
  shows "wellFormedType t"
proof -
  have dr: "distinct (map fst (tfields (resetOverriddenThirdPartyTypeFields t)))"
    using d by (rule reset_distinct)
  have "\<forall>fld\<in>set (tfields (resetOverriddenThirdPartyTypeFields t)). ftype (snd fld) \<noteq> None"
  proof
    fix fld assume "fld \<in> set (tfields (resetOverriddenThirdPartyTypeFields t))"
    then have "(fst fld, snd fld) \<in> set (tfields (resetOverriddenThirdPartyTypeFields t))" by simp
    with dr have "map_of (tfields (resetOverriddenThirdPartyTypeFields t)) (fst fld) = Some (snd fld)"
      by (rule map_of_is_SomeI)
    then show "ftype (snd fld) \<noteq> None" by (rule r)
  qed
  with d show ?thesis by (simp add: wellFormedType_def list_all_iff)
qed

lemma untouched_wellFormed:
  assumes "untouchedType t"
  shows "wellFormedType t"
proof (rule typed_wellFormed)
  from assms show "distinct (map fst (tfields t))" by (simp add: untouchedType_def)
next
  fix f c assume "map_of (tfields (resetOverriddenThirdPartyTypeFields t)) f = Some c"
  then have "map_of (tfields t) f = Some c" by (simp add: untouched_reset[OF assms])
  from untouched_lookup[OF assms this] show "ftype c \<noteq> None" by (simp add: untouchedField_def)
qed

lemma untouched_imported_fields:
  assumes "untouchedType t"
  shows "map_of (tfields (importedType q t)) f = map_option (rewriteTyped q) (map_of (tfields t) f)"
proof -
  from assms have k: "tkind t = ObjectKind \<or> tkind t = InterfaceKind" by (simp add: untouchedType_def)
  from processedType_fields[OF untouched_wellFormed[OF assms] k, of q f] show ?thesis
    by (simp add: untouched_reset[OF assms])
qed

lemma untouched_imported_lookup:
  assumes "untouchedType t" and "map_of (tfields (importedType q t)) f = Some c"
  shows "untouchedField c \<and> rewriteTyped q c = c"
proof -
  from assms(2) obtain c0 where c0: "map_of (tfields t) f = Some c0" "c = rewriteTyped q c0"
    by (auto simp: untouched_imported_fields[OF assms(1)])
  from untouched_lookup[OF assms(1) c0(1)] have "untouchedField c0" .
  then have "untouchedField c" unfolding c0(2) by (rule untouched_rewriteTyped)
  moreover have "rewriteTyped q c = c" unfolding c0(2) by (rule rewriteTyped_idem)
  ultimately show ?thesis by simp
qed

lemma imported_distinct:
  assumes "untouchedType t"
  shows "distinct (map fst (tfields (importedType q t)))"
proof -
  have w: "wellFormedType t" using assms by (rule untouched_wellFormed)
  from processThirdPartyTypeFields_pointwise[OF w, of q] obtain tc
    where p: "processThirdPartyTypeFields t q = Inr tc" by blast
  from processed_distinct[OF w p] have "distinct (map fst (tfields tc))" .
  moreover from assms have "tkind t = ObjectKind" by (simp add: untouchedType_def)
  ultimately show ?thesis using p
    by (simp add: importedType_def processedType_def setExtension_keeps)
qed

lemma isThirdParty_imported: "isThirdParty (importedType q t)"
  by (simp add: isThirdParty_def importedType_createdFrom)

lemma overrides_then_reset:
  assumes u: "untouchedType t" and d: "distinct (map fst ovs)"
  shows "\<exists>tc2 rs. createResolversFields (importedType q t) tn ovs = Inr (tc2, rs) \<and>
           tname tc2 = tname t \<and> tkind tc2 = tkind t \<and> wellFormedType tc2 \<and>
           (\<forall>f. map_of (tfields tc2) f =
                 (case map_of ovs f of
                    None \<Rightarrow> map_of (tfields (importedType q t)) f
                  | Some fc \<Rightarrow>
                      Some (case map_of (tfields (importedType q t)) f of
                              Some c \<Rightarrow> overriddenConfig (importedType q t) fc c
                            | None \<Rightarrow> addedConfig fc))) \<and>
           (\<forall>f. map_of (tfields (resetOverriddenThirdPartyTypeFields tc2)) f =
                 map_of (tfields (importedType q t)) f)"
proof -
  let ?tc1 = "importedType q t"
  have w: "wellFormedType t" using u by (rule untouched_wellFormed)
  have tp: "isThirdParty ?tc1" by (rule isThirdParty_imported)
  have typed: "\<forall>f\<in>fst ` set ovs. \<forall>c. map_of (tfields ?tc1) f = Some c \<longrightarrow> ftype c \<noteq> None"
  proof (intro ballI allI impI)
    fix f c assume "map_of (tfields ?tc1) f = Some c"
    from untouched_imported_lookup[OF u this] show "ftype c \<noteq> None"
      by (simp add: untouchedField_def)
  qed
  from createResolversFields_thirdParty[OF d tp typed, of tn] obtain tc2 rs
    where r: "createResolversFields ?tc1 tn ovs = Inr (tc2, rs)"
      "tname tc2 = tname ?tc1" "tkind tc2 = tkind ?tc1"
      "distinct (map fst (tfields ?tc1)) \<longrightarrow> distinct (map fst (tfields tc2))"
      "\<forall>f. map_of (tfields tc2) f =
                 (case map_of ovs f of
                    None \<Rightarrow> map_of (tfields ?tc1) f
                  | Some fc \<Rightarrow>
                      Some (case map_of (tfields ?tc1) f of
                              Some c \<Rightarrow> overriddenConfig ?tc1 fc c
                            | None \<Rightarrow> addedConfig fc))"
    by (elim exE conjE)
  from r(4) imported_distinct[OF u, of q] have d2: "distinct (map fst (tfields tc2))" by simp
  have reset: "map_of (tfields (resetOverriddenThirdPartyTypeFields tc2)) f = map_of (tfields ?tc1) f"
    for f
  proof (cases "map_of ovs f")
    case None
    with r(5) have e: "map_of (tfields tc2) f = map_of (tfields ?tc1) f" by simp
    show ?thesis
    proof (cases "map_of (tfields ?tc1) f")
      case None
      with e show ?thesis by (simp add: reset_fields[OF d2])
    next
      case (Some c)
      from untouched_imported_lookup[OF u Some] have "resetConfig c = Some c"
        by (simp add: resetConfig_untouched)
      with e Some show ?thesis by (simp add: reset_fields[OF d2])
    qed
  next
    case (Some fc)
    show ?thesis
    proof (cases "map_of (tfields ?tc1) f")
      case None
      with Some spec[OF r(5), of f] have "map_of (tfields tc2) f = Some (addedConfig fc)" by simp
      with None show ?thesis by (simp add: reset_fields[OF d2] resetConfig_added)
    next
      case c: (Some c)
      with Some spec[OF r(5), of f]
      have e: "map_of (tfields tc2) f = Some (overriddenConfig ?tc1 fc c)" by simp
      from untouched_imported_lookup[OF u c] have "\<not> taggedCreateResolvers c"
        by (simp add: untouchedField_def)
      from resetConfig_overridden[OF tp this, of fc] e c show ?thesis
        by (simp add: reset_fields[OF d2])
    qed
  qed
  have w2: "wellFormedType tc2"
  proof (rule typed_wellFormed[OF d2])
    fix f c assume "map_of (tfields (resetOverriddenThirdPartyTypeFields tc2)) f = Some c"
    then have "map_of (tfields ?tc1) f = Some c" by (simp add: reset)
    from untouched_imported_lookup[OF u this] show "ftype c \<noteq> None"
      by (simp add: untouchedField_def)
  qed
  from r(2,3) w have nk: "tname tc2 = tname t" "tkind tc2 = tkind t" by simp_all
  from reset have reset': "\<forall>f. map_of (tfields (resetOverriddenThirdPartyTypeFields tc2)) f =
                 map_of (tfields ?tc1) f" by simp
  show ?thesis
    apply (rule exI[of _ tc2])
    apply (rule exI[of _ rs])
    apply (intro conjI)
         apply (rule r(1))
        apply (rule nk(1))
       apply (rule nk(2))
      apply (rule w2)
     apply (rule r(5))
    apply (rule reset')
    done
qed

lemma reimport_fields:
  assumes u: "untouchedType t" and w2: "wellFormedType tc2" and k: "tkind tc2 = tkind t"
    and reset: "\<forall>f. map_of (tfields (resetOverriddenThirdPartyTypeFields tc2)) f =
                 map_of (tfields (importedType q t)) f"
  shows "map_of (tfields (importedType q tc2)) f = map_of (tfields (importedType q t)) f"
proof -
  from u k have k2: "tkind tc2 = ObjectKind \<or> tkind tc2 = InterfaceKind"
    by (simp add: untouchedType_def)
  have "map_of (tfields (importedType q tc2)) f =
          map_option (rewriteTyped q) (map_of (tfields (importedType q t)) f)"
    using processedType_fields[OF w2 k2, of q f] reset by simp
  also have "\<dots> = map_of (tfields (importedType q t)) f"
  proof (cases "map_of (tfields (importedType q t)) f")
    case None
    then show ?thesis by simp
  next
    case (Some c)
    with untouched_imported_lookup[OF u Some] show ?thesis by simp
  qed
  finally show ?thesis .
qed

lemma reset_cases:
  assumes d: "distinct (map fst (tfields tc))"
  shows "\<forall>f. map_of (tfields (resetOverriddenThirdPartyTypeFields tc)) f =
           (case map_of (tfields tc) f of
              None \<Rightarrow> None
            | Some c \<Rightarrow>
                if map_of (getFieldExtensions c) ''createdFrom'' = Some (JStr ''createResolvers'')
                then None
                else (case map_of (getFieldExtensions c) ''originalFieldConfig'' of
                        Some (JConfig original) \<Rightarrow> Some original
                      | Some (JStr typeName) \<Rightarrow>
                          Some (if typeName = [] then c else FieldConfig (Some typeName) None None None)
                      | Some (JBool b) \<Rightarrow> Some (if b then FieldConfig None None None None else c)
                      | Some JNull \<Rightarrow> Some c
                      | Some other \<Rightarrow> Some (FieldConfig None None None None)
                      | None \<Rightarrow> Some c))"
proof
  fix f
  show "map_of (tfields (resetOverriddenThirdPartyTypeFields tc)) f =
           (case map_of (tfields tc) f of
              None \<Rightarrow> None
            | Some c \<Rightarrow>
                if map_of (getFieldExtensions c) ''createdFrom'' = Some (JStr ''createResolvers'')
                then None
                else (case map_of (getFieldExtensions c) ''originalFieldConfig'' of
                        Some (JConfig original) \<Rightarrow> Some original
                      | Some (JStr typeName) \<Rightarrow>
                          Some (if typeName = [] then c else FieldConfig (Some typeName) None None None)
                      | Some (JBool b) \<Rightarrow> Some (if b then FieldConfig None None None None else c)
                      | Some JNull \<Rightarrow> Some c
                      | Some other \<Rightarrow> Some (FieldConfig None None None None)
                      | None \<Rightarrow> Some c))"
    unfolding reset_fields[OF d]
    by (simp add: resetConfig_def taggedCreateResolvers_def asFieldConfig_def
        split: option.splits jsval.splits)
qed

text \<open>
  The reset that opens the processing of a third-party type, on a type with distinct
  field names: a field tagged \<open>createdFrom = createResolvers\<close> is removed; a field not so
  tagged that carries a configuration under \<open>originalFieldConfig\<close> becomes that
  configuration (a type name given as a string becomes a field of that type, a falsy
  value leaves the field, any other value gives a field without type); every other field
  stays and no field appears. The rewrite of the query type runs on the type after this
  reset. For an object type of a third-party schema that no override has touched yet,
  imported once and then given overrides by one call of \<open>createResolvers\<close> with one
  entry per field name, a second import registers the type under the same name and kind
  with, field by field, the configurations of the first import.
\<close>

lemma reimport_after_single_overrides:
  assumes "distinct (map fst (tfields tc))" and "untouchedType t" and "distinct (map fst ovs)"
  shows "(\<forall>f. map_of (tfields (resetOverriddenThirdPartyTypeFields tc)) f =
           (case map_of (tfields tc) f of
              None \<Rightarrow> None
            | Some c \<Rightarrow>
                if map_of (getFieldExtensions c) ''createdFrom'' = Some (JStr ''createResolvers'')
                then None
                else (case map_of (getFieldExtensions c) ''originalFieldConfig'' of
                        Some (JConfig original) \<Rightarrow> Some original
                      | Some (JStr typeName) \<Rightarrow>
                          Some (if typeName = [] then c else FieldConfig (Some typeName) None None None)
                      | Some (JBool b) \<Rightarrow> Some (if b then FieldConfig None None None None else c)
                      | Some JNull \<Rightarrow> Some c
                      | Some other \<Rightarrow> Some (FieldConfig None None None None)
                      | None \<Rightarrow> Some c)))
       \<and> processThirdPartyTypeFields tc q =
           rewriteFields q (resetOverriddenThirdPartyTypeFields tc)
             (map fst (tfields (resetOverriddenThirdPartyTypeFields tc)))
       \<and> (\<exists>tc2 rs sc2.
             createResolversFields (importedType q t) tn ovs = Inr (tc2, rs)
           \<and> (\<forall>f. map_of (tfields tc2) f =
                 (case map_of ovs f of
                    None \<Rightarrow> map_of (tfields (importedType q t)) f
                  | Some fc \<Rightarrow>
                      Some (case map_of (tfields (importedType q t)) f of
                              Some c \<Rightarrow> overriddenConfig (importedType q t) fc c
                            | None \<Rightarrow> addedConfig fc)))
           \<and> importType sc q tc2 = Inr sc2
           \<and> (\<forall>n. getTC sc2 n = (if n = tname t then Some (importedType q tc2) else getTC sc n))
           \<and> tname (importedType q tc2) = tname t
           \<and> tkind (importedType q tc2) = tkind t
           \<and> (\<forall>f. map_of (tfields (importedType q tc2)) f =
                    map_of (tfields (importedType q t)) f))"
proof -
  from overrides_then_reset[OF assms(2,3), of q tn] obtain tc2 rs
    where r: "createResolversFields (importedType q t) tn ovs = Inr (tc2, rs)"
      and n: "tname tc2 = tname t" and k: "tkind tc2 = tkind t" and w2: "wellFormedType tc2"
      and o: "\<forall>f. map_of (tfields tc2) f =
                 (case map_of ovs f of
                    None \<Rightarrow> map_of (tfields (importedType q t)) f
                  | Some fc \<Rightarrow>
                      Some (case map_of (tfields (importedType q t)) f of
                              Some c \<Rightarrow> overriddenConfig (importedType q t) fc c
                            | None \<Rightarrow> addedConfig fc))"
      and reset: "\<forall>f. map_of (tfields (resetOverriddenThirdPartyTypeFields tc2)) f =
                 map_of (tfields (importedType q t)) f"
    by (elim exE conjE)
  let ?sc2 = "addSchemaMustHaveType (setType sc (importedType q tc2)) (tname tc2)"
  have i: "importType sc q tc2 = Inr ?sc2" using w2 by (rule importType_ok)
  have n2: "tname (importedType q tc2) = tname t" using w2 n by simp
  have k2: "tkind (importedType q tc2) = tkind t" using w2 k by simp
  have g: "\<forall>n. getTC ?sc2 n = (if n = tname t then Some (importedType q tc2) else getTC sc n)"
    by (simp add: getTC_setType n2)
  have f: "\<forall>f. map_of (tfields (importedType q tc2)) f = map_of (tfields (importedType q t)) f"
    using reimport_fields[OF assms(2) w2 k reset] by simp
  have third: "\<exists>tc2 rs sc2.
             createResolversFields (importedType q t) tn ovs = Inr (tc2, rs)
           \<and> (\<forall>f. map_of (tfields tc2) f =
                 (case map_of ovs f of
                    None \<Rightarrow> map_of (tfields (importedType q t)) f
                  | Some fc \<Rightarrow>
                      Some (case map_of (tfields (importedType q t)) f of
                              Some c \<Rightarrow> overriddenConfig (importedType q t) fc c
                            | None \<Rightarrow> addedConfig fc)))
           \<and> importType sc q tc2 = Inr sc2
           \<and> (\<forall>n. getTC sc2 n = (if n = tname t then Some (importedType q tc2) else getTC sc n))
           \<and> tname (importedType q tc2) = tname t
           \<and> tkind (importedType q tc2) = tkind t
           \<and> (\<forall>f. map_of (tfields (importedType q tc2)) f =
                    map_of (tfields (importedType q t)) f)"
    apply (rule exI[of _ tc2])
    apply (rule exI[of _ rs])
    apply (rule exI[of _ ?sc2])
    apply (intro conjI)
          apply (rule r)
         apply (rule o)
        apply (rule i)
       apply (rule g)
      apply (rule n2)
     apply (rule k2)
    apply (rule f)
    done
  have second: "processThirdPartyTypeFields tc q =
           rewriteFields q (resetOverriddenThirdPartyTypeFields tc)
             (map fst (tfields (resetOverriddenThirdPartyTypeFields tc)))"
    by (simp add: processThirdPartyTypeFields_def Let_def)
  from reset_cases[OF assms(1)] second third show ?thesis by (intro conjI)
qed

text \<open>
  Claim C5, at a field that two calls of \<open>createResolvers\<close> override within one build
  (the field \<open>name\<close> of the type \<open>User\<close> of the example schema, first with the resolver
  \<open>f\<close>, then with the resolver \<open>g\<close>). Each call succeeds without a warning. After the
  first call alone, a second import gives \<open>User.name\<close> the type, arguments and (absent)
  resolver of the first import. The second call records as \<open>originalFieldConfig\<close> the
  configuration that the first call left, so that after both calls the second import
  restores that configuration: \<open>User.name\<close> then carries the resolver \<open>f\<close> of the first
  override and differs from the field of the first import.
\<close>

theorem reimport_after_two_overrides:
  "createResolversFields (importedType ''Root'' userType) ''User'' [(''name'', fnOverride ''f'')] =
     Inr (overriddenOnce, [])
   \<and> createResolversFields overriddenOnce ''User'' [(''name'', fnOverride ''g'')] =
       Inr (overriddenTwice, [])
   \<and> map_option fieldCore (map_of (tfields (importedType ''Root'' userType)) ''name'') =
       Some (Some ''String'', Some [], None)
   \<and> map_option fieldCore (map_of (tfields overriddenOnce) ''name'') =
       Some (Some ''String'', Some [], Some (WithOriginal (Fn ''f'') None))
   \<and> map_option fieldCore (map_of (tfields overriddenTwice) ''name'') =
       Some (Some ''String'', Some [], Some (WithOriginal (Fn ''g'') (Some (WithOriginal (Fn ''f'') None))))
   \<and> map_of (tfields (importedType ''Root'' overriddenOnce)) ''name'' =
       map_of (tfields (importedType ''Root'' userType)) ''name''
   \<and> map_option fieldCore (map_of (tfields (importedType ''Root'' overriddenTwice)) ''name'') =
       Some (Some ''String'', Some [], Some (WithOriginal (Fn ''f'') None))
   \<and> map_of (tfields (importedType ''Root'' overriddenTwice)) ''name'' \<noteq>
       map_of (tfields (importedType ''Root'' userType)) ''name''
   \<and> importType (setType emptyRegistry (importedType ''Root'' userType)) ''Root'' overriddenTwice =
       Inr (addSchemaMustHaveType
              (setType (setType emptyRegistry (importedType ''Root'' userType))
                 (importedType ''Root'' overriddenTwice)) ''User'')"
  by code_simp


subsection \<open>Convenience fields for children\<close>

lemma groupBy_foldl:
  "map_of (foldl (\<lambda>result x. aset (key x)
                    ((case map_of result (key x) of None \<Rightarrow> [] | Some g \<Rightarrow> g) @ [x]) result)
             acc xs) k =
     (if k \<in> key ` set xs \<or> map_of acc k \<noteq> None
      then Some ((case map_of acc k of None \<Rightarrow> [] | Some g \<Rightarrow> g) @ filter (\<lambda>x. key x = k) xs)
      else None)"
proof (induction xs arbitrary: acc)
  case Nil
  then show ?case by (cases "map_of acc k") auto
next
  case (Cons x xs)
  show ?case unfolding foldl_Cons Cons.IH by (cases "map_of acc k") (auto simp: map_of_aset)
qed

lemma groupBy_lookup:
  "map_of (groupBy key xs) k =
     (if k \<in> key ` set xs then Some (filter (\<lambda>x. key x = k) xs) else None)"
  unfolding groupBy_def groupBy_foldl by simp

lemma groupBy_foldl_distinct:
  "distinct (map fst acc) \<Longrightarrow>
   distinct (map fst (foldl (\<lambda>result x. aset (key x)
                    ((case map_of result (key x) of None \<Rightarrow> [] | Some g \<Rightarrow> g) @ [x]) result)
             acc xs))"
proof (induction xs arbitrary: acc)
  case Nil
  then show ?case by simp
next
  case (Cons x xs)
  show ?case unfolding foldl_Cons by (rule Cons.IH) (rule distinct_aset[OF Cons.prems])
qed

lemma groupBy_distinct: "distinct (map fst (groupBy key xs))"
  unfolding groupBy_def by (rule groupBy_foldl_distinct) simp

lemma groupBy_entry:
  "(k, g) \<in> set (groupBy key xs) \<longleftrightarrow> k \<in> key ` set xs \<and> g = filter (\<lambda>x. key x = k) xs"
proof -
  have "(k, g) \<in> set (groupBy key xs) \<longleftrightarrow> map_of (groupBy key xs) k = Some g"
    using groupBy_distinct[of key xs] by simp
  then show ?thesis unfolding groupBy_lookup by auto
qed

lemma set_objectEntries: "set (objectEntries obj) = set obj"
  by (auto simp: objectEntries_def)

lemma distinct_objectEntries:
  assumes "distinct (map fst obj)"
  shows "distinct (map fst (objectEntries obj))"
proof -
  from assms have d: "distinct obj" and i: "inj_on fst (set obj)" by (simp_all add: distinct_map)
  have "distinct (objectEntries obj)" using d by (auto simp: objectEntries_def)
  with i show ?thesis by (simp add: distinct_map set_objectEntries)
qed

lemma maxBy_foldl:
  fixes f :: "'a \<Rightarrow> nat"
  shows "foldl (\<lambda>best y. if f best < f y then y else best) x xs \<in> set (x # xs) \<and>
         (\<forall>y\<in>set (x # xs). f y \<le> f (foldl (\<lambda>best y. if f best < f y then y else best) x xs))"
proof (induction xs arbitrary: x)
  case Nil
  then show ?case by simp
next
  case (Cons a as)
  from Cons.IH[of "if f x < f a then a else x"] show ?case
    by (auto split: if_splits)
qed

lemma maxBy_greatest:
  fixes f :: "'a \<Rightarrow> nat"
  assumes "xs \<noteq> []"
  shows "\<exists>b. maxBy f xs = Some b \<and> b \<in> set xs \<and> (\<forall>y\<in>set xs. f y \<le> f b)"
proof -
  from assms obtain x rest where xs: "xs = x # rest" by (cases xs) auto
  from maxBy_foldl[of f x rest] show ?thesis unfolding xs by simp
qed

lemma maxChildCount_greatest:
  assumes "typeChildren \<noteq> []"
  shows "\<exists>m. maxChildCount typeChildren = Inr m \<and>
             (\<exists>k. m = length (filter (\<lambda>c. parentKey c = k) typeChildren)) \<and>
             (\<forall>k. length (filter (\<lambda>c. parentKey c = k) typeChildren) \<le> m)"
proof -
  let ?es = "objectEntries (groupBy parentKey typeChildren)"
  let ?gs = "map snd ?es"
  from assms obtain c where c: "c \<in> set typeChildren" by (cases typeChildren) auto
  then have "(parentKey c, filter (\<lambda>x. parentKey x = parentKey c) typeChildren) \<in> set ?es"
    by (simp add: groupBy_entry set_objectEntries)
  then have ne: "?gs \<noteq> []" by auto
  from maxBy_greatest[OF ne, of length] obtain b
    where b: "maxBy length ?gs = Some b" "b \<in> set ?gs" "\<forall>y\<in>set ?gs. length y \<le> length b"
    by blast
  from b(2) obtain k where k: "(k, b) \<in> set ?es" by auto
  then have bk: "b = filter (\<lambda>c. parentKey c = k) typeChildren"
    by (simp add: groupBy_entry set_objectEntries)
  have le: "length (filter (\<lambda>c. parentKey c = j) typeChildren) \<le> length b" for j
  proof (cases "j \<in> parentKey ` set typeChildren")
    case True
    then have "(j, filter (\<lambda>c. parentKey c = j) typeChildren) \<in> set ?es"
      by (simp add: groupBy_entry set_objectEntries)
    then have "filter (\<lambda>c. parentKey c = j) typeChildren \<in> set ?gs" by force
    with b(3) show ?thesis by blast
  next
    case False
    then have "filter (\<lambda>c. parentKey c = j) typeChildren = []"
      by (auto simp: filter_empty_conv)
    then show ?thesis by simp
  qed
  have m: "maxChildCount typeChildren = Inr (length b)" using b(1) by (simp add: maxChildCount_def)
  show ?thesis
    apply (rule exI[of _ "length b"])
    apply (intro conjI)
      apply (rule m)
     apply (rule exI[of _ k])
     apply (simp add: bk)
    apply (rule allI)
    apply (rule le)
    done
qed

lemma pluralFor_iff: "pluralFor st P C = (\<exists>k. 1 < sharingParent st P C k)"
proof
  assume "pluralFor st P C"
  then show "\<exists>k. 1 < sharingParent st P C k" by (auto simp: pluralFor_def list_ex_iff)
next
  assume "\<exists>k. 1 < sharingParent st P C k"
  then obtain k where k: "1 < sharingParent st P C k" by blast
  then have "filter (\<lambda>c. parentKey c = k) (childrenOfType st P C) \<noteq> []"
    by (auto simp: sharingParent_def)
  then obtain c where "c \<in> set (childrenOfType st P C)" "parentKey c = k"
    by (auto simp: filter_empty_conv)
  with k show "pluralFor st P C" by (auto simp: pluralFor_def list_ex_iff)
qed

lemma observed_nonempty:
  "C \<in> set (observedChildTypes st P) \<longleftrightarrow> childrenOfType st P C \<noteq> []"
  by (auto simp: observedChildTypes_def childrenOfType_def filter_empty_conv)

lemma maxChildCount_shared:
  assumes "C \<in> set (observedChildTypes st P)"
  shows "\<exists>m. maxChildCount (childrenOfType st P C) = Inr m \<and> (1 < m) = pluralFor st P C"
proof -
  from assms have ne: "childrenOfType st P C \<noteq> []" by (simp add: observed_nonempty)
  from maxChildCount_greatest[OF ne] obtain m k
    where m: "maxChildCount (childrenOfType st P C) = Inr m"
      and k: "m = sharingParent st P C k"
      and le: "\<forall>k. sharingParent st P C k \<le> m"
    unfolding sharingParent_def by blast
  have "(1 < m) = pluralFor st P C"
  proof
    assume "1 < m"
    with k show "pluralFor st P C" unfolding pluralFor_iff by blast
  next
    assume "pluralFor st P C"
    then obtain j where "1 < sharingParent st P C j" unfolding pluralFor_iff by blast
    with spec[OF le, of j] show "1 < m" by simp
  qed
  with m show ?thesis by blast
qed

lemma entries_of_children:
  "(C, g) \<in> set (objectEntries (groupChildNodesByType st (getNodesByType st P))) \<longleftrightarrow>
     C \<in> set (observedChildTypes st P) \<and> g = childrenOfType st P C"
  by (simp add: groupChildNodesByType_def groupBy_entry observedChildTypes_def
      observedChildren_def childrenOfType_def set_objectEntries)

lemma entries_distinct:
  "distinct (map fst (objectEntries (groupChildNodesByType st nodes)))"
  unfolding groupChildNodesByType_def by (rule distinct_objectEntries) (rule groupBy_distinct)

lemma chosenFields_entry:
  assumes "C \<in> set (observedChildTypes st P)"
  shows "chosenFields st (C, childrenOfType st P C) =
           [(convenienceName st P C,
             if pluralFor st P C
             then FieldConfig (Some (''['' @ C @ '']'')) None (Some (ChildrenResolver C)) None
             else FieldConfig (Some C) None (Some (ChildResolver C)) None)]"
proof -
  from maxChildCount_shared[OF assms] obtain m
    where "maxChildCount (childrenOfType st P C) = Inr m" "(1 < m) = pluralFor st P C" by blast
  then show ?thesis
    by (simp add: chosenFields_def convenienceName_def createChildrenField_def createChildField_def)
qed

lemma addFields_append: "addFields tc (a @ b) = addFields (addFields tc a) b"
  by (simp add: addFields_def)

lemma addFields_single:
  "map_of (tfields (addFields tc [(k, c)])) f = (if f = k then Some c else map_of (tfields tc) f)"
  by (simp add: addFields_def setField_fields)

lemma addFields_rest [simp]:
  "tinterfaces (addFields tc flds) = tinterfaces tc" "textensions (addFields tc flds) = textensions tc"
  by (induction flds arbitrary: tc) (simp_all add: addFields_Cons, simp_all add: addFields_def)

lemma convenienceStep_result:
  assumes "convenienceStep st sc infer p acc e = Inr r"
  shows "fst r = addFields (fst acc) (chosenFields st e)"
  using assms
  by (auto simp: convenienceStep_def chosenFields_def split: sum.splits if_splits)

lemma convenienceSteps_result:
  "convenienceSteps st sc infer p acc es = Inr r \<Longrightarrow>
   fst r = addFields (fst acc) (concat (map (chosenFields st) es))"
proof (induction es arbitrary: acc)
  case Nil
  then show ?case by (auto simp: addFields_def)
next
  case (Cons e es)
  from Cons.prems obtain acc' where s: "convenienceStep st sc infer p acc e = Inr acc'"
    and t: "convenienceSteps st sc infer p acc' es = Inr r"
    by (auto split: sum.splits)
  from Cons.IH[OF t] convenienceStep_result[OF s] show ?case
    by (simp add: addFields_append)
qed

lemma convenience_result:
  assumes "addImplicitConvenienceChildrenFields st sc tc = Inr r"
  shows "fst r = addFields tc (concat (map (chosenFields st)
                   (objectEntries (groupChildNodesByType st (getNodesByType st (tname tc))))))"
  using convenienceSteps_result[of st sc "getExtension tc ''infer''" "tname tc" "(tc, [])" _ r] assms
  by (simp add: addImplicitConvenienceChildrenFields_def Let_def)

lemma dontInferCheck_readable:
  assumes "childOfReadable sc p C"
  shows "\<exists>ws. dontInferCheck st sc p C m = Inr ws"
  using assms
  by (auto simp: childOfReadable_def dontInferCheck_def Let_def split: option.splits sum.splits)

lemma convenienceStep_returns:
  assumes "snd e \<noteq> []" and "infer \<noteq> Some (JBool False) \<or> childOfReadable sc p (fst e)"
  shows "\<exists>r. convenienceStep st sc infer p acc e = Inr r"
proof -
  from maxChildCount_greatest[OF assms(1)] obtain m where m: "maxChildCount (snd e) = Inr m"
    by blast
  show ?thesis
  proof (cases "infer = Some (JBool False)")
    case True
    with assms(2) have "childOfReadable sc p (fst e)" by simp
    from dontInferCheck_readable[OF this, of st m] obtain ws
      where "dontInferCheck st sc p (fst e) m = Inr ws" by blast
    with m True show ?thesis by (simp add: convenienceStep_def)
  next
    case False
    with m show ?thesis by (simp add: convenienceStep_def)
  qed
qed

lemma convenienceSteps_returns:
  assumes "\<forall>e\<in>set es. snd e \<noteq> []"
    and "infer \<noteq> Some (JBool False) \<or> (\<forall>e\<in>set es. childOfReadable sc p (fst e))"
  shows "\<exists>r. convenienceSteps st sc infer p acc es = Inr r"
  using assms
proof (induction es arbitrary: acc)
  case Nil
  then show ?case by simp
next
  case (Cons e es)
  from Cons.prems have e: "snd e \<noteq> []" "infer \<noteq> Some (JBool False) \<or> childOfReadable sc p (fst e)"
    and es: "\<forall>e\<in>set es. snd e \<noteq> []"
           "infer \<noteq> Some (JBool False) \<or> (\<forall>e\<in>set es. childOfReadable sc p (fst e))"
    by auto
  from convenienceStep_returns[OF e, of st acc] obtain acc'
    where s: "convenienceStep st sc infer p acc e = Inr acc'" by blast
  from Cons.IH[OF es, of acc'] s show ?case by simp
qed

lemma convenience_returns:
  assumes "getExtension tc ''infer'' \<noteq> Some (JBool False) \<or>
           (\<forall>C\<in>set (observedChildTypes st (tname tc)). childOfReadable sc (tname tc) C)"
  shows "\<exists>r. addImplicitConvenienceChildrenFields st sc tc = Inr r"
proof -
  let ?es = "objectEntries (groupChildNodesByType st (getNodesByType st (tname tc)))"
  have 1: "\<forall>e\<in>set ?es. snd e \<noteq> []"
  proof
    fix e assume "e \<in> set ?es"
    then have "(fst e, snd e) \<in> set ?es" by simp
    then show "snd e \<noteq> []" unfolding entries_of_children by (simp add: observed_nonempty)
  qed
  have 2: "getExtension tc ''infer'' \<noteq> Some (JBool False) \<or>
           (\<forall>e\<in>set ?es. childOfReadable sc (tname tc) (fst e))"
  proof (cases "getExtension tc ''infer'' = Some (JBool False)")
    case True
    with assms have a: "\<forall>C\<in>set (observedChildTypes st (tname tc)). childOfReadable sc (tname tc) C"
      by simp
    have "\<forall>e\<in>set ?es. childOfReadable sc (tname tc) (fst e)"
    proof
      fix e assume "e \<in> set ?es"
      then have "(fst e, snd e) \<in> set ?es" by simp
      then have "fst e \<in> set (observedChildTypes st (tname tc))" unfolding entries_of_children by simp
      with a show "childOfReadable sc (tname tc) (fst e)" by blast
    qed
    then show ?thesis by simp
  next
    case False
    then show ?thesis by simp
  qed
  from convenienceSteps_returns[OF 1 2, of st "(tc, [])"] show ?thesis
    by (simp add: addImplicitConvenienceChildrenFields_def Let_def)
qed

lemma chosen_names:
  assumes "fst ` set es \<subseteq> set (observedChildTypes st P)"
    and "\<forall>e\<in>set es. snd e = childrenOfType st P (fst e)"
  shows "fst ` set (concat (map (chosenFields st) es)) = convenienceName st P ` fst ` set es"
proof -
  have "chosenFields st e = [(convenienceName st P (fst e),
             if pluralFor st P (fst e)
             then FieldConfig (Some (''['' @ fst e @ '']'')) None (Some (ChildrenResolver (fst e))) None
             else FieldConfig (Some (fst e)) None (Some (ChildResolver (fst e))) None)]"
    if "e \<in> set es" for e
  proof -
    from that assms have o: "fst e \<in> set (observedChildTypes st P)"
      and s: "snd e = childrenOfType st P (fst e)" by auto
    from chosenFields_entry[OF o] s show ?thesis by (cases e) simp
  qed
  then show ?thesis by force
qed

lemma chosen_in_result:
  assumes C: "C \<in> set (observedChildTypes st P)"
    and others: "\<forall>D\<in>set (observedChildTypes st P). D \<noteq> C \<longrightarrow>
                   convenienceName st P D \<noteq> convenienceName st P C"
  shows "map_of (tfields (addFields tc (concat (map (chosenFields st)
                   (objectEntries (groupChildNodesByType st (getNodesByType st P))))))) 
           (convenienceName st P C) =
         Some (if pluralFor st P C
               then FieldConfig (Some (''['' @ C @ '']'')) None (Some (ChildrenResolver C)) None
               else FieldConfig (Some C) None (Some (ChildResolver C)) None)"
proof -
  let ?es = "objectEntries (groupChildNodesByType st (getNodesByType st P))"
  let ?n = "convenienceName st P C"
  from C have e: "(C, childrenOfType st P C) \<in> set ?es" unfolding entries_of_children by simp
  then obtain pre post where sp: "?es = pre @ (C, childrenOfType st P C) # post"
    by (auto dest: split_list)
  from entries_distinct[of st "getNodesByType st P"] sp
  have npre: "C \<notin> fst ` set pre" and npost: "C \<notin> fst ` set post" by auto
  have mem: "\<And>x. x \<in> set pre \<or> x \<in> set post \<Longrightarrow> (fst x, snd x) \<in> set ?es"
    unfolding sp by auto
  have obs: "\<And>x. x \<in> set pre \<or> x \<in> set post \<Longrightarrow>
                fst x \<in> set (observedChildTypes st P) \<and> snd x = childrenOfType st P (fst x)"
    using mem unfolding entries_of_children by blast
  have spre: "fst ` set pre \<subseteq> set (observedChildTypes st P)"
    and spost: "fst ` set post \<subseteq> set (observedChildTypes st P)"
    and gpre: "\<forall>e\<in>set pre. snd e = childrenOfType st P (fst e)"
    and gpost: "\<forall>e\<in>set post. snd e = childrenOfType st P (fst e)"
    using obs by auto
  have apart: "?n \<notin> convenienceName st P ` fst ` set xs"
    if sub: "fst ` set xs \<subseteq> set (observedChildTypes st P)" and nin: "C \<notin> fst ` set xs"
    for xs :: "(string \<times> node list) list"
  proof
    assume "?n \<in> convenienceName st P ` fst ` set xs"
    then obtain D where D: "D \<in> fst ` set xs" "?n = convenienceName st P D" by blast
    from D(1) sub have o: "D \<in> set (observedChildTypes st P)" by blast
    from D(1) nin have "D \<noteq> C" by blast
    with others o have "convenienceName st P D \<noteq> convenienceName st P C" by blast
    with D(2) show False by simp
  qed
  have apre: "?n \<notin> fst ` set (concat (map (chosenFields st) pre))"
    unfolding chosen_names[OF spre gpre] by (rule apart[OF spre npre])
  have apost: "?n \<notin> fst ` set (concat (map (chosenFields st) post))"
    unfolding chosen_names[OF spost gpost] by (rule apart[OF spost npost])
  have F: "addFields tc (concat (map (chosenFields st) ?es)) =
             addFields (addFields (addFields tc (concat (map (chosenFields st) pre)))
                          (chosenFields st (C, childrenOfType st P C)))
               (concat (map (chosenFields st) post))"
    unfolding sp by (simp add: addFields_append)
  show ?thesis
    unfolding F addFields_other[OF apost] chosenFields_entry[OF C]
    by (simp add: addFields_single)
qed

lemma unchosen_in_result:
  assumes "\<forall>D\<in>set (observedChildTypes st P). convenienceName st P D \<noteq> f"
  shows "map_of (tfields (addFields tc (concat (map (chosenFields st)
                   (objectEntries (groupChildNodesByType st (getNodesByType st P))))))) f =
         map_of (tfields tc) f"
proof -
  let ?es = "objectEntries (groupChildNodesByType st (getNodesByType st P))"
  have obs: "\<And>x. x \<in> set ?es \<Longrightarrow>
                fst x \<in> set (observedChildTypes st P) \<and> snd x = childrenOfType st P (fst x)"
  proof -
    fix x assume "x \<in> set ?es"
    then have "(fst x, snd x) \<in> set ?es" by simp
    then show "fst x \<in> set (observedChildTypes st P) \<and> snd x = childrenOfType st P (fst x)"
      unfolding entries_of_children .
  qed
  have s: "fst ` set ?es \<subseteq> set (observedChildTypes st P)"
    and g: "\<forall>e\<in>set ?es. snd e = childrenOfType st P (fst e)"
    using obs by auto
  have "f \<notin> fst ` set (concat (map (chosenFields st) ?es))"
    unfolding chosen_names[OF s g] using assms s by auto
  then show ?thesis by (rule addFields_other)
qed

lemma consistent_group:
  assumes "distinct (map nid nodes)"
    and "\<forall>n\<in>set nodes. \<forall>c\<in>set (childNodes st n). nparent c = Some (nid n)"
  shows "filter (\<lambda>c. parentKey c = k)
           (filter (\<lambda>c. typeKey c = C) (concat (map (childNodes st) nodes))) =
         (case find (\<lambda>n. nid n = k) nodes of
            None \<Rightarrow> []
          | Some n \<Rightarrow> filter (\<lambda>c. typeKey c = C) (childNodes st n))"
  using assms
proof (induction nodes)
  case Nil
  then show ?case by simp
next
  case (Cons n ns)
  from Cons.prems have d: "distinct (map nid ns)" and nin: "nid n \<notin> nid ` set ns"
    and here: "\<forall>c\<in>set (childNodes st n). nparent c = Some (nid n)"
    and rest: "\<forall>m\<in>set ns. \<forall>c\<in>set (childNodes st m). nparent c = Some (nid m)"
    by auto
  have first: "filter (\<lambda>c. parentKey c = k) (filter (\<lambda>c. typeKey c = C) (childNodes st n)) =
                 (if nid n = k then filter (\<lambda>c. typeKey c = C) (childNodes st n) else [])"
  proof (cases "nid n = k")
    case True
    have "\<forall>c\<in>set (filter (\<lambda>c. typeKey c = C) (childNodes st n)). parentKey c = k"
      using here True by (auto simp: parentKey_def)
    then have "filter (\<lambda>c. parentKey c = k) (filter (\<lambda>c. typeKey c = C) (childNodes st n)) =
                 filter (\<lambda>c. typeKey c = C) (childNodes st n)"
      by (rule filter_True)
    then show ?thesis using True by (simp only: simp_thms if_True)
  next
    case False
    have "\<forall>c\<in>set (filter (\<lambda>c. typeKey c = C) (childNodes st n)). \<not> parentKey c = k"
      using here False by (auto simp: parentKey_def)
    then have "filter (\<lambda>c. parentKey c = k) (filter (\<lambda>c. typeKey c = C) (childNodes st n)) = []"
      by (rule filter_False)
    then show ?thesis using False by (simp only: simp_thms if_False)
  qed
  note ih = Cons.IH[OF d rest]
  have split: "filter (\<lambda>c. parentKey c = k)
           (filter (\<lambda>c. typeKey c = C) (concat (map (childNodes st) (n # ns)))) =
       filter (\<lambda>c. parentKey c = k) (filter (\<lambda>c. typeKey c = C) (childNodes st n)) @
       filter (\<lambda>c. parentKey c = k)
           (filter (\<lambda>c. typeKey c = C) (concat (map (childNodes st) ns)))"
    by simp
  show ?case
  proof (cases "nid n = k")
    case True
    have "find (\<lambda>n. nid n = k) ns = None"
      unfolding find_None_iff
    proof (intro notI, elim exE conjE)
      fix x assume "x \<in> set ns" "nid x = k"
      with True have "nid n \<in> nid ` set ns" by (metis imageI)
      with nin show False ..
    qed
    then show ?thesis unfolding split ih first using True by simp
  next
    case False
    then show ?thesis unfolding split ih first by simp
  qed
qed

lemma find_nid:
  assumes "distinct (map nid nodes)" and "n \<in> set nodes"
  shows "find (\<lambda>m. nid m = nid n) nodes = Some n"
  using assms
proof (induction nodes)
  case Nil
  then show ?case by simp
next
  case (Cons a as)
  show ?case
  proof (cases "a = n")
    case True
    then show ?thesis by simp
  next
    case False
    with Cons.prems have "n \<in> set as" and "nid a \<noteq> nid n" by auto
    with Cons show ?thesis by simp
  qed
qed

lemma find_mem: "find Q xs = Some x \<Longrightarrow> x \<in> set xs"
  by (induction xs) (auto split: if_splits)

lemma pluralFor_consistent:
  assumes c: "storeConsistent st (getNodesByType st P)"
  shows "pluralFor st P C = (\<exists>n\<in>set (getNodesByType st P). 1 < childCount st C n)"
proof -
  let ?nodes = "getNodesByType st P"
  from c have d: "distinct (map nid ?nodes)"
    and p: "\<forall>n\<in>set ?nodes. \<forall>c\<in>set (childNodes st n). nparent c = Some (nid n)"
    by (auto simp: storeConsistent_def list_all_iff)
  have grp: "sharingParent st P C k =
               (case find (\<lambda>n. nid n = k) ?nodes of None \<Rightarrow> 0 | Some n \<Rightarrow> childCount st C n)" for k
    unfolding sharingParent_def childrenOfType_def observedChildren_def consistent_group[OF d p]
    by (simp add: childCount_def split: option.splits)
  show ?thesis
  proof
    assume "pluralFor st P C"
    then obtain k where k: "1 < sharingParent st P C k" unfolding pluralFor_iff by blast
    then obtain n where n: "find (\<lambda>n. nid n = k) ?nodes = Some n"
      unfolding grp by (cases "find (\<lambda>n. nid n = k) ?nodes") auto
    with k have "1 < childCount st C n" unfolding grp by simp
    with find_mem[OF n] show "\<exists>n\<in>set ?nodes. 1 < childCount st C n" by blast
  next
    assume "\<exists>n\<in>set ?nodes. 1 < childCount st C n"
    then obtain n where n: "n \<in> set ?nodes" "1 < childCount st C n" by blast
    have "sharingParent st P C (nid n) = childCount st C n"
      unfolding grp find_nid[OF d n(1)] by simp
    with n(2) show "pluralFor st P C" unfolding pluralFor_iff by (intro exI[of _ "nid n"]) simp
  qed
qed

text \<open>
  Claim C3, as the code has it. The children of the instances of a parent type are found
  through the \<open>children\<close> lists of the instances and grouped by their type; for the
  choice between the two fields, the children of a type \<open>C\<close> are counted by the node
  that each of them names as its \<open>parent\<close>. Whenever
  \<open>addImplicitConvenienceChildrenFields\<close> returns, for every observed child type \<open>C\<close>
  whose field name no other observed child type gives: if more than one of the observed
  children of type \<open>C\<close> name the same parent, the parent type has the plural field
  \<open>convenienceChildren C\<close> of type \<open>[C]\<close> with the resolver that returns the list;
  otherwise it has the singular field \<open>convenienceChild C\<close> of type \<open>C\<close> with the
  resolver that returns the first child or \<open>null\<close>. A field name that no observed child
  type gives keeps what it had, and name, kind, interfaces and extensions of the type
  stay. The count is taken over the children of all instances: when the instances have
  distinct ids and every child names as its parent the instance that lists it, more than
  one child of type \<open>C\<close> names the same parent exactly when some instance has more than
  one child of type \<open>C\<close>. The function returns when \<open>infer\<close> is not \<open>false\<close> on the
  parent type, and also when every observed child type is registered with a readable
  \<open>childOf\<close> extension.
\<close>

theorem convenience_field_by_shared_parent:
  "(\<forall>r. addImplicitConvenienceChildrenFields st sc tc = Inr r \<longrightarrow>
      (\<forall>C\<in>set (observedChildTypes st (tname tc)).
          (\<forall>D\<in>set (observedChildTypes st (tname tc)).
              D \<noteq> C \<longrightarrow> convenienceName st (tname tc) D \<noteq> convenienceName st (tname tc) C) \<longrightarrow>
          ((\<exists>k. 1 < sharingParent st (tname tc) C k) \<longrightarrow>
             map_of (tfields (fst r)) (convenienceChildren st C) =
               Some (FieldConfig (Some (''['' @ C @ '']'')) None (Some (ChildrenResolver C)) None)) \<and>
          (\<not> (\<exists>k. 1 < sharingParent st (tname tc) C k) \<longrightarrow>
             map_of (tfields (fst r)) (convenienceChild st C) =
               Some (FieldConfig (Some C) None (Some (ChildResolver C)) None)))
    \<and> (\<forall>f. (\<forall>D\<in>set (observedChildTypes st (tname tc)). convenienceName st (tname tc) D \<noteq> f) \<longrightarrow>
            map_of (tfields (fst r)) f = map_of (tfields tc) f)
    \<and> tname (fst r) = tname tc \<and> tkind (fst r) = tkind tc
    \<and> tinterfaces (fst r) = tinterfaces tc \<and> textensions (fst r) = textensions tc)
   \<and> (\<forall>C. convenienceName st (tname tc) C =
            (if \<exists>k. 1 < sharingParent st (tname tc) C k
             then convenienceChildren st C else convenienceChild st C))
   \<and> (storeConsistent st (getNodesByType st (tname tc)) \<longrightarrow>
        (\<forall>C. (\<exists>k. 1 < sharingParent st (tname tc) C k) =
              (\<exists>n\<in>set (getNodesByType st (tname tc)). 1 < childCount st C n)))
   \<and> (getExtension tc ''infer'' \<noteq> Some (JBool False) \<or>
        (\<forall>C\<in>set (observedChildTypes st (tname tc)). childOfReadable sc (tname tc) C) \<longrightarrow>
        (\<exists>r. addImplicitConvenienceChildrenFields st sc tc = Inr r))
   \<and> (\<forall>getNodesByIds source C.
         resolveConvenience getNodesByIds (ChildrenResolver C) source =
           Some (NodeList (getNodesByIds (nchildren source) C)) \<and>
         resolveConvenience getNodesByIds (ChildResolver C) source =
           Some (OneNode (case getNodesByIds (nchildren source) C of
                            Some (first # others) \<Rightarrow> Some first
                          | _ \<Rightarrow> None)))"
proof -
  let ?P = "tname tc"
  let ?F = "concat (map (chosenFields st)
              (objectEntries (groupChildNodesByType st (getNodesByType st ?P))))"
  have fields: "(\<forall>C\<in>set (observedChildTypes st ?P).
          (\<forall>D\<in>set (observedChildTypes st ?P).
              D \<noteq> C \<longrightarrow> convenienceName st ?P D \<noteq> convenienceName st ?P C) \<longrightarrow>
          ((\<exists>k. 1 < sharingParent st ?P C k) \<longrightarrow>
             map_of (tfields (fst r)) (convenienceChildren st C) =
               Some (FieldConfig (Some (''['' @ C @ '']'')) None (Some (ChildrenResolver C)) None)) \<and>
          (\<not> (\<exists>k. 1 < sharingParent st ?P C k) \<longrightarrow>
             map_of (tfields (fst r)) (convenienceChild st C) =
               Some (FieldConfig (Some C) None (Some (ChildResolver C)) None)))
    \<and> (\<forall>f. (\<forall>D\<in>set (observedChildTypes st ?P). convenienceName st ?P D \<noteq> f) \<longrightarrow>
            map_of (tfields (fst r)) f = map_of (tfields tc) f)
    \<and> tname (fst r) = tname tc \<and> tkind (fst r) = tkind tc
    \<and> tinterfaces (fst r) = tinterfaces tc \<and> textensions (fst r) = textensions tc"
    if r: "addImplicitConvenienceChildrenFields st sc tc = Inr r" for r
  proof -
    note res = convenience_result[OF r]
    have a: "\<forall>C\<in>set (observedChildTypes st ?P).
          (\<forall>D\<in>set (observedChildTypes st ?P).
              D \<noteq> C \<longrightarrow> convenienceName st ?P D \<noteq> convenienceName st ?P C) \<longrightarrow>
          ((\<exists>k. 1 < sharingParent st ?P C k) \<longrightarrow>
             map_of (tfields (fst r)) (convenienceChildren st C) =
               Some (FieldConfig (Some (''['' @ C @ '']'')) None (Some (ChildrenResolver C)) None)) \<and>
          (\<not> (\<exists>k. 1 < sharingParent st ?P C k) \<longrightarrow>
             map_of (tfields (fst r)) (convenienceChild st C) =
               Some (FieldConfig (Some C) None (Some (ChildResolver C)) None))"
    proof (intro ballI impI)
      fix C
      assume C: "C \<in> set (observedChildTypes st ?P)"
        and others: "\<forall>D\<in>set (observedChildTypes st ?P).
              D \<noteq> C \<longrightarrow> convenienceName st ?P D \<noteq> convenienceName st ?P C"
      note ch = chosen_in_result[OF C others, of tc, folded res]
      show "((\<exists>k. 1 < sharingParent st ?P C k) \<longrightarrow>
             map_of (tfields (fst r)) (convenienceChildren st C) =
               Some (FieldConfig (Some (''['' @ C @ '']'')) None (Some (ChildrenResolver C)) None)) \<and>
          (\<not> (\<exists>k. 1 < sharingParent st ?P C k) \<longrightarrow>
             map_of (tfields (fst r)) (convenienceChild st C) =
               Some (FieldConfig (Some C) None (Some (ChildResolver C)) None))"
        using ch unfolding pluralFor_iff[symmetric]
        by (cases "pluralFor st ?P C") (simp_all add: convenienceName_def)
    qed
    have b: "\<forall>f. (\<forall>D\<in>set (observedChildTypes st ?P). convenienceName st ?P D \<noteq> f) \<longrightarrow>
            map_of (tfields (fst r)) f = map_of (tfields tc) f"
      unfolding res using unchosen_in_result[of st ?P _ tc] by blast
    have c: "tname (fst r) = tname tc" "tkind (fst r) = tkind tc"
      "tinterfaces (fst r) = tinterfaces tc" "textensions (fst r) = textensions tc"
      unfolding res by simp_all
    from a b c show ?thesis by (intro conjI)
  qed
  have name: "\<forall>C. convenienceName st ?P C =
            (if \<exists>k. 1 < sharingParent st ?P C k
             then convenienceChildren st C else convenienceChild st C)"
    unfolding pluralFor_iff[symmetric] by (simp add: convenienceName_def)
  have cons: "storeConsistent st (getNodesByType st ?P) \<longrightarrow>
        (\<forall>C. (\<exists>k. 1 < sharingParent st ?P C k) =
              (\<exists>n\<in>set (getNodesByType st ?P). 1 < childCount st C n))"
    unfolding pluralFor_iff[symmetric] using pluralFor_consistent[of st ?P] by blast
  have ret: "getExtension tc ''infer'' \<noteq> Some (JBool False) \<or>
        (\<forall>C\<in>set (observedChildTypes st ?P). childOfReadable sc ?P C) \<longrightarrow>
        (\<exists>r. addImplicitConvenienceChildrenFields st sc tc = Inr r)"
    using convenience_returns[of tc st sc] by blast
  have rs: "\<forall>getNodesByIds source C.
         resolveConvenience getNodesByIds (ChildrenResolver C) source =
           Some (NodeList (getNodesByIds (nchildren source) C)) \<and>
         resolveConvenience getNodesByIds (ChildResolver C) source =
           Some (OneNode (case getNodesByIds (nchildren source) C of
                            Some (first # others) \<Rightarrow> Some first
                          | _ \<Rightarrow> None))"
    by simp
  from fields have all: "\<forall>r. addImplicitConvenienceChildrenFields st sc tc = Inr r \<longrightarrow>
      (\<forall>C\<in>set (observedChildTypes st ?P).
          (\<forall>D\<in>set (observedChildTypes st ?P).
              D \<noteq> C \<longrightarrow> convenienceName st ?P D \<noteq> convenienceName st ?P C) \<longrightarrow>
          ((\<exists>k. 1 < sharingParent st ?P C k) \<longrightarrow>
             map_of (tfields (fst r)) (convenienceChildren st C) =
               Some (FieldConfig (Some (''['' @ C @ '']'')) None (Some (ChildrenResolver C)) None)) \<and>
          (\<not> (\<exists>k. 1 < sharingParent st ?P C k) \<longrightarrow>
             map_of (tfields (fst r)) (convenienceChild st C) =
               Some (FieldConfig (Some C) None (Some (ChildResolver C)) None)))
    \<and> (\<forall>f. (\<forall>D\<in>set (observedChildTypes st ?P). convenienceName st ?P D \<noteq> f) \<longrightarrow>
            map_of (tfields (fst r)) f = map_of (tfields tc) f)
    \<and> tname (fst r) = tname tc \<and> tkind (fst r) = tkind tc
    \<and> tinterfaces (fst r) = tinterfaces tc \<and> textensions (fst r) = textensions tc"
    by (intro allI impI)
  from all name cons ret rs show ?thesis by (intro conjI)
qed

theorem convenience_field_by_shared_parent_witness:
  "getExtension parentP ''infer'' \<noteq> Some (JBool False)
   \<and> storeConsistent familyStore (getNodesByType familyStore ''P'')
   \<and> map (childCount familyStore ''C'') (getNodesByType familyStore ''P'') = [0, 1, 2]
   \<and> map (childCount familyStore ''D'') (getNodesByType familyStore ''P'') = [0, 1, 0]
   \<and> observedChildTypes familyStore ''P'' = [''D'', ''C'']
   \<and> (\<exists>r. addImplicitConvenienceChildrenFields familyStore emptyRegistry parentP = Inr r
        \<and> map_of (tfields (fst r)) ''childrenC'' =
            Some (FieldConfig (Some ''[C]'') None (Some (ChildrenResolver ''C'')) None)
        \<and> map_of (tfields (fst r)) ''childC'' = None
        \<and> map_of (tfields (fst r)) ''childD'' =
            Some (FieldConfig (Some ''D'') None (Some (ChildResolver ''D'')) None)
        \<and> map_of (tfields (fst r)) ''childrenD'' = None)"
proof -
  note t = convenience_field_by_shared_parent[of familyStore emptyRegistry parentP]
  have P: "tname parentP = ''P''" by code_simp
  have i: "getExtension parentP ''infer'' \<noteq> Some (JBool False)" by code_simp
  have sc: "storeConsistent familyStore (getNodesByType familyStore ''P'')" by code_simp
  have cC: "map (childCount familyStore ''C'') (getNodesByType familyStore ''P'') = [0, 1, 2]"
    by code_simp
  have cD: "map (childCount familyStore ''D'') (getNodesByType familyStore ''P'') = [0, 1, 0]"
    by code_simp
  have obs: "observedChildTypes familyStore ''P'' = [''D'', ''C'']" by code_simp
  have nC: "convenienceName familyStore ''P'' ''C'' = ''childrenC''" by code_simp
  have nD: "convenienceName familyStore ''P'' ''D'' = ''childD''" by code_simp
  have kC: "convenienceChildren familyStore ''C'' = ''childrenC''" by code_simp
  have kD: "convenienceChild familyStore ''D'' = ''childD''" by code_simp
  have pC: "\<exists>k. 1 < sharingParent familyStore ''P'' ''C'' k"
    unfolding pluralFor_iff[symmetric] by code_simp
  have pD: "\<not> (\<exists>k. 1 < sharingParent familyStore ''P'' ''D'' k)"
    unfolding pluralFor_iff[symmetric] by code_simp
  have e: "map_of (tfields parentP) ''childC'' = None" "map_of (tfields parentP) ''childrenD'' = None"
    by code_simp+
  from t i obtain r
    where r: "addImplicitConvenienceChildrenFields familyStore emptyRegistry parentP = Inr r"
    by blast
  from t r have f: "\<forall>C\<in>set (observedChildTypes familyStore ''P'').
          (\<forall>D\<in>set (observedChildTypes familyStore ''P'').
              D \<noteq> C \<longrightarrow> convenienceName familyStore ''P'' D \<noteq> convenienceName familyStore ''P'' C) \<longrightarrow>
          ((\<exists>k. 1 < sharingParent familyStore ''P'' C k) \<longrightarrow>
             map_of (tfields (fst r)) (convenienceChildren familyStore C) =
               Some (FieldConfig (Some (''['' @ C @ '']'')) None (Some (ChildrenResolver C)) None)) \<and>
          (\<not> (\<exists>k. 1 < sharingParent familyStore ''P'' C k) \<longrightarrow>
             map_of (tfields (fst r)) (convenienceChild familyStore C) =
               Some (FieldConfig (Some C) None (Some (ChildResolver C)) None))"
    and u: "\<forall>f. (\<forall>D\<in>set (observedChildTypes familyStore ''P'').
                     convenienceName familyStore ''P'' D \<noteq> f) \<longrightarrow>
            map_of (tfields (fst r)) f = map_of (tfields parentP) f"
    unfolding P by blast+
  have 1: "map_of (tfields (fst r)) ''childrenC'' =
            Some (FieldConfig (Some ''[C]'') None (Some (ChildrenResolver ''C'')) None)"
    using f[rule_format, of "''C''"] pC unfolding obs kC by (simp add: nC nD)
  have 2: "map_of (tfields (fst r)) ''childD'' =
            Some (FieldConfig (Some ''D'') None (Some (ChildResolver ''D'')) None)"
    using f[rule_format, of "''D''"] pD unfolding obs kD by (simp add: nC nD)
  have 3: "map_of (tfields (fst r)) ''childC'' = None"
    using spec[OF u, of "''childC''"] unfolding obs by (simp add: nC nD e)
  have 4: "map_of (tfields (fst r)) ''childrenD'' = None"
    using spec[OF u, of "''childrenD''"] unfolding obs by (simp add: nC nD e)
  have ex: "\<exists>r. addImplicitConvenienceChildrenFields familyStore emptyRegistry parentP = Inr r
        \<and> map_of (tfields (fst r)) ''childrenC'' =
            Some (FieldConfig (Some ''[C]'') None (Some (ChildrenResolver ''C'')) None)
        \<and> map_of (tfields (fst r)) ''childC'' = None
        \<and> map_of (tfields (fst r)) ''childD'' =
            Some (FieldConfig (Some ''D'') None (Some (ChildResolver ''D'')) None)
        \<and> map_of (tfields (fst r)) ''childrenD'' = None"
    using r 1 2 3 4 by blast
  from i sc cC cD obs ex show ?thesis by (intro conjI)
qed

text \<open>
  In \<open>orphanStore\<close> each of the two instances of \<open>P\<close> has exactly one child of type \<open>C\<close>,
  so the greatest number of such children under one instance is 1. Neither child has a
  \<open>parent\<close>, both are counted under the same key, and the code adds the plural field and
  no singular field.
\<close>

theorem orphan_children_counterexample:
  "map (childCount orphanStore ''C'') (getNodesByType orphanStore ''P'') = [1, 1]
   \<and> observedChildTypes orphanStore ''P'' = [''C'']
   \<and> tname parentP = ''P''
   \<and> \<not> isl (addImplicitConvenienceChildrenFields orphanStore emptyRegistry parentP)
   \<and> map_of (tfields (fst (projr (addImplicitConvenienceChildrenFields orphanStore emptyRegistry parentP))))
        ''childC'' = None
   \<and> map_of (tfields (fst (projr (addImplicitConvenienceChildrenFields orphanStore emptyRegistry parentP))))
        ''childrenC'' =
       Some (FieldConfig (Some ''[C]'') None (Some (ChildrenResolver ''C'')) None)"
  by code_simp

end
